(* ===== verification/Go_Strings.thy ===== *)
theory Go_Strings
  imports Main
begin

text \<open>
  The part of Go's string library the program uses. A Go string is a sequence of bytes,
  and so is an Isabelle \<open>string\<close>: a \<open>char\<close> is one byte. Where Go decodes UTF-8
  (\<open>range\<close> over a string, \<open>strings.TrimSpace\<close>, \<open>strings.Fields\<close>) the functions
  below work on the byte chunks of the runes, cut by \<open>runes\<close> the way package
  unicode/utf8 cuts them.
\<close>

section \<open>Collections of facts\<close>

named_theorems go_string_simps \<open>equations of the string operations\<close>

section \<open>Bytes and runes\<close>

abbreviation byte_of :: "char \<Rightarrow> nat" where
  "byte_of c \<equiv> of_char c"

definition is_cont :: "char \<Rightarrow> bool" where
  "is_cont c \<longleftrightarrow> 128 \<le> byte_of c \<and> byte_of c \<le> 191"

definition between :: "nat \<Rightarrow> char \<Rightarrow> nat \<Rightarrow> bool" where
  "between lo c hi \<longleftrightarrow> lo \<le> byte_of c \<and> byte_of c \<le> hi"

text \<open>
  \<open>rune2\<close>, \<open>rune3\<close> and \<open>rune4\<close> accept the well-formed encodings of two to four bytes
  (unicode/utf8: no overlong form, no surrogate, nothing above U+10FFFF).
\<close>

definition rune2 :: "char \<Rightarrow> char \<Rightarrow> bool" where
  "rune2 a b \<longleftrightarrow> between 194 a 223 \<and> is_cont b"

definition rune3 :: "char \<Rightarrow> char \<Rightarrow> char \<Rightarrow> bool" where
  "rune3 a b c \<longleftrightarrow> is_cont c \<and>
     ((byte_of a = 224 \<and> between 160 b 191) \<or>
      (byte_of a = 237 \<and> between 128 b 159) \<or>
      (between 225 a 239 \<and> byte_of a \<noteq> 237 \<and> is_cont b))"

definition rune4 :: "char \<Rightarrow> char \<Rightarrow> char \<Rightarrow> char \<Rightarrow> bool" where
  "rune4 a b c d \<longleftrightarrow> is_cont c \<and> is_cont d \<and>
     ((byte_of a = 240 \<and> between 144 b 191) \<or>
      (byte_of a = 244 \<and> between 128 b 143) \<or>
      (between 241 a 243 \<and> is_cont b))"

text \<open>The length of the first rune; an ill-formed byte is a rune of length one.\<close>

definition rune_len :: "string \<Rightarrow> nat" where
  "rune_len s =
     (case s of
        a # b # rest \<Rightarrow>
          if rune2 a b then 2
          else (case rest of
                  c # rest' \<Rightarrow>
                    if rune3 a b c then 3
                    else (case rest' of d # _ \<Rightarrow> if rune4 a b c d then 4 else 1 | [] \<Rightarrow> 1)
                | [] \<Rightarrow> 1)
      | _ \<Rightarrow> 1)"

lemma rune_len_pos [simp]: "0 < rune_len s"
  by (simp add: rune_len_def split: list.splits)

function runes :: "string \<Rightarrow> string list" where
  "runes s = (if s = [] then [] else take (rune_len s) s # runes (drop (rune_len s) s))"
  by pat_completeness auto
termination
  by (relation "measure length") auto

declare runes.simps [simp del]

lemma runes_Nil [simp]: "runes [] = []"
  by (simp add: runes.simps)

lemma runes_unfold: "s \<noteq> [] \<Longrightarrow> runes s = take (rune_len s) s # runes (drop (rune_len s) s)"
  by (subst runes.simps) simp

lemma concat_runes [simp]: "concat (runes s) = s"
proof (induction s rule: runes.induct)
  case (1 s)
  show ?case
  proof (cases "s = []")
    case True
    then show ?thesis by simp
  next
    case False
    then show ?thesis using 1 by (simp add: runes_unfold)
  qed
qed

text \<open>A chunk that \<open>runes\<close> cuts off as one piece whatever follows it.\<close>

definition one_rune :: "string \<Rightarrow> bool" where
  "one_rune r \<longleftrightarrow>
     (case r of
        [a] \<Rightarrow> byte_of a < 128
      | [a, b] \<Rightarrow> rune2 a b
      | [a, b, c] \<Rightarrow> rune3 a b c
      | [a, b, c, d] \<Rightarrow> rune4 a b c d
      | _ \<Rightarrow> False)"

lemma rune2_not_ascii: "rune2 a b \<Longrightarrow> 194 \<le> byte_of a \<and> byte_of a \<le> 223"
  by (simp add: rune2_def between_def)

lemma rune3_lead: "rune3 a b c \<Longrightarrow> 224 \<le> byte_of a \<and> byte_of a \<le> 239"
  by (auto simp: rune3_def between_def)

lemma rune4_lead: "rune4 a b c d \<Longrightarrow> 240 \<le> byte_of a \<and> byte_of a \<le> 244"
  by (auto simp: rune4_def between_def)

lemma rune_len_one_rune:
  assumes "one_rune r"
  shows "rune_len (r @ s) = length r"
proof -
  consider (one) a where "r = [a]" "byte_of a < (128::nat)"
    | (two) a b where "r = [a, b]" "rune2 a b"
    | (three) a b c where "r = [a, b, c]" "rune3 a b c"
    | (four) a b c d where "r = [a, b, c, d]" "rune4 a b c d"
    using assms by (auto simp: one_rune_def split: list.splits)
  then show ?thesis
  proof cases
    case one
    then show ?thesis
      by (auto simp: rune_len_def split: list.splits
            dest: rune2_not_ascii rune3_lead rune4_lead)
  next
    case two
    then show ?thesis by (simp add: rune_len_def)
  next
    case three
    then have "\<not> rune2 a b" using rune2_not_ascii rune3_lead by fastforce
    with three show ?thesis by (simp add: rune_len_def)
  next
    case four
    then have "\<not> rune2 a b" "\<not> rune3 a b c"
      using rune2_not_ascii rune3_lead rune4_lead by fastforce+
    with four show ?thesis by (simp add: rune_len_def)
  qed
qed

lemma runes_one_rune: "one_rune r \<Longrightarrow> runes (r @ s) = r # runes s"
  by (subst runes_unfold) (auto simp: rune_len_one_rune one_rune_def)

lemma runes_concat: "list_all one_rune rs \<Longrightarrow> runes (concat rs) = rs"
  by (induction rs) (auto simp: runes_one_rune)

definition ascii :: "string \<Rightarrow> bool" where
  "ascii s \<longleftrightarrow> list_all (\<lambda>c. byte_of c < (128::nat)) s"

lemma runes_ascii: "ascii s \<Longrightarrow> runes s = map (\<lambda>c. [c]) s"
proof -
  assume "ascii s"
  then have "list_all one_rune (map (\<lambda>c. [c]) s)"
    by (auto simp: ascii_def one_rune_def list_all_iff)
  from runes_concat [OF this] show ?thesis by simp
qed

section \<open>Prefixes, searching and splitting\<close>

text \<open>strings.HasPrefix, HasSuffix, TrimPrefix, TrimSuffix, CutPrefix.\<close>

definition has_prefix :: "string \<Rightarrow> string \<Rightarrow> bool" where
  "has_prefix s p \<longleftrightarrow> take (length p) s = p"

definition trim_prefix :: "string \<Rightarrow> string \<Rightarrow> string" where
  "trim_prefix s p = (if has_prefix s p then drop (length p) s else s)"

definition has_suffix :: "string \<Rightarrow> string \<Rightarrow> bool" where
  "has_suffix s p \<longleftrightarrow> has_prefix (rev s) (rev p)"

definition trim_suffix :: "string \<Rightarrow> string \<Rightarrow> string" where
  "trim_suffix s p = (if has_suffix s p then take (length s - length p) s else s)"

lemma has_prefix_append [simp]: "has_prefix (p @ s) p"
  by (simp add: has_prefix_def)

lemma has_prefix_iff: "has_prefix s p \<longleftrightarrow> (\<exists>t. s = p @ t)"
  by (metis append_take_drop_id has_prefix_append has_prefix_def)

lemma trim_prefix_append [simp]: "trim_prefix (p @ s) p = s"
  by (simp add: trim_prefix_def)

lemma has_suffix_append [simp]: "has_suffix (s @ p) p"
  by (simp add: has_suffix_def)

lemma has_suffix_iff: "has_suffix s p \<longleftrightarrow> (\<exists>t. s = t @ p)"
  by (metis has_prefix_iff has_suffix_append has_suffix_def rev_append rev_rev_ident)

lemma trim_suffix_append [simp]: "trim_suffix (s @ p) p = s"
  by (simp add: trim_suffix_def)

text \<open>strings.Index; Go's -1 is \<open>None\<close>.\<close>

fun str_index :: "string \<Rightarrow> string \<Rightarrow> nat option" where
  "str_index [] sub = (if sub = [] then Some 0 else None)"
| "str_index (c # s) sub =
     (if has_prefix (c # s) sub then Some 0 else map_option Suc (str_index s sub))"

lemma str_index_Some:
  "str_index s sub = Some i \<Longrightarrow>
     s = take i s @ sub @ drop (i + length sub) s \<and> i + length sub \<le> length s"
proof (induction s arbitrary: i)
  case Nil
  then show ?case by (simp split: if_splits)
next
  case (Cons c s)
  show ?case
  proof (cases "has_prefix (c # s) sub")
    case True
    with Cons.prems have "i = 0" by simp
    moreover from True obtain t where "c # s = sub @ t" by (auto simp: has_prefix_iff)
    ultimately show ?thesis by (metis add.left_neutral append_Nil append_eq_conv_conj
          le_add1 length_append take0)
  next
    case False
    with Cons.prems obtain j where j: "str_index s sub = Some j" "i = Suc j" by auto
    from Cons.IH [OF j(1)] j(2) show ?thesis by simp
  qed
qed

lemma str_index_append: "str_index (sub @ s) sub = Some 0"
  using has_prefix_append [of sub s] by (cases "sub @ s") auto

lemma str_index_None_char: "str_index s [c] = None \<longleftrightarrow> c \<notin> set s"
  by (induction s) (auto simp: has_prefix_def)

lemma str_index_char:
  "str_index s [c] = Some i \<longleftrightarrow> i < length s \<and> s ! i = c \<and> c \<notin> set (take i s)"
proof (induction s arbitrary: i)
  case Nil
  then show ?case by simp
next
  case (Cons a s)
  then show ?case by (cases i) (auto simp: has_prefix_def)
qed

definition contains :: "string \<Rightarrow> string \<Rightarrow> bool" where
  "contains s sub \<longleftrightarrow> str_index s sub \<noteq> None"

text \<open>strings.ContainsAny for a set of ASCII bytes.\<close>

definition contains_any :: "string \<Rightarrow> string \<Rightarrow> bool" where
  "contains_any s cs \<longleftrightarrow> list_ex (\<lambda>c. c \<in> set cs) s"

lemma contains_char: "contains s [c] \<longleftrightarrow> c \<in> set s"
  by (simp add: contains_def str_index_None_char)

text \<open>strings.Cut: the text before and after the first separator, and whether it is there.\<close>

definition cut :: "string \<Rightarrow> string \<Rightarrow> string \<times> string \<times> bool" where
  "cut s sep = (case str_index s sep of
      Some i \<Rightarrow> (take i s, drop (i + length sep) s, True)
    | None \<Rightarrow> (s, [], False))"

lemma cut_found: "cut s sep = (a, b, True) \<Longrightarrow> s = a @ sep @ b"
  by (auto simp: cut_def split: option.splits dest: str_index_Some)

lemma cut_char: "c \<notin> set a \<Longrightarrow> cut (a @ c # b) [c] = (a, b, True)"
proof -
  assume "c \<notin> set a"
  then have "str_index (a @ c # b) [c] = Some (length a)"
    by (simp add: str_index_char)
  then show ?thesis by (simp add: cut_def)
qed

text \<open>strings.Split for a separator that is not empty, and strings.Join.\<close>

function split_on :: "string \<Rightarrow> string \<Rightarrow> string list" where
  "split_on s sep =
     (if sep = [] then runes s
      else (case str_index s sep of
              None \<Rightarrow> [s]
            | Some i \<Rightarrow> take i s # split_on (drop (i + length sep) s) sep))"
  by pat_completeness auto
termination
proof (relation "measure (\<lambda>(s, sep). length s)", goal_cases)
  case 1
  then show ?case by simp
next
  case (2 s sep i)
  then have "i + length sep \<le> length s" "0 < length sep"
    using str_index_Some [of s sep i] by auto
  then have "length s - (i + length sep) < length s" by linarith
  then show ?case by simp
qed

declare split_on.simps [simp del]

fun join :: "string list \<Rightarrow> string \<Rightarrow> string" where
  "join [] sep = []"
| "join [x] sep = x"
| "join (x # y # xs) sep = x @ sep @ join (y # xs) sep"

lemma split_on_not_Nil: "sep \<noteq> [] \<Longrightarrow> split_on s sep \<noteq> []"
  by (subst split_on.simps) (simp split: option.splits)

lemma join_Cons: "xs \<noteq> [] \<Longrightarrow> join (x # xs) sep = x @ sep @ join xs sep"
  by (cases xs) auto

lemma join_split_on: "sep \<noteq> [] \<Longrightarrow> join (split_on s sep) sep = s"
proof (induction s sep rule: split_on.induct)
  case (1 s sep)
  show ?case
  proof (cases "str_index s sep")
    case None
    then show ?thesis using 1 by (subst split_on.simps) simp
  next
    case (Some i)
    then have "join (split_on (drop (i + length sep) s) sep) sep = drop (i + length sep) s"
      using 1 by blast
    then show ?thesis using 1(2) Some str_index_Some [OF Some]
      by (subst split_on.simps) (simp add: join_Cons split_on_not_Nil)
  qed
qed

section \<open>White space, case folding\<close>

text \<open>unicode.IsSpace: the code points of White_Space, as their encodings.\<close>

definition space_rune :: "string \<Rightarrow> bool" where
  "space_rune r \<longleftrightarrow>
     (case map byte_of r of
        [a] \<Rightarrow> (9 \<le> a \<and> a \<le> 13) \<or> a = (32::nat)
      | [a, b] \<Rightarrow> a = 194 \<and> (b = 133 \<or> b = 160)
      | [a, b, c] \<Rightarrow>
          (a = 225 \<and> b = 154 \<and> c = 128) \<or>
          (a = 226 \<and> b = 128 \<and> ((128 \<le> c \<and> c \<le> 138) \<or> c = 168 \<or> c = 169 \<or> c = 175)) \<or>
          (a = 226 \<and> b = 129 \<and> c = 159) \<or>
          (a = 227 \<and> b = 128 \<and> c = 128)
      | _ \<Rightarrow> False)"

text \<open>strings.TrimSpace and strings.Fields.\<close>

definition trim_space :: "string \<Rightarrow> string" where
  "trim_space s = concat (rev (dropWhile space_rune (rev (dropWhile space_rune (runes s)))))"

fun fields_aux :: "string list \<Rightarrow> string \<Rightarrow> string list" where
  "fields_aux [] acc = (if acc = [] then [] else [acc])"
| "fields_aux (r # rs) acc =
     (if space_rune r then (if acc = [] then fields_aux rs [] else acc # fields_aux rs [])
      else fields_aux rs (acc @ r))"

definition fields :: "string \<Rightarrow> string list" where
  "fields s = fields_aux (runes s) []"

lemma fields_aux_not_empty: "list_all (\<lambda>r. r \<noteq> []) rs \<Longrightarrow> [] \<notin> set (fields_aux rs acc)"
  by (induction rs acc rule: fields_aux.induct) auto

definition lower_byte :: "char \<Rightarrow> char" where
  "lower_byte c = (if between 65 c 90 then char_of (byte_of c + 32) else c)"

definition upper_byte :: "char \<Rightarrow> char" where
  "upper_byte c = (if between 97 c 122 then char_of (byte_of c - 32) else c)"

lemma byte_of_lower_byte:
  "byte_of (lower_byte c) = (if between 65 c 90 then byte_of c + 32 else byte_of c)"
proof (cases "between 65 c 90")
  case True
  then have "byte_of c + 32 < 256" by (simp add: between_def)
  with True show ?thesis by (simp add: lower_byte_def)
qed (simp add: lower_byte_def)

lemma lower_byte_idem [simp]: "lower_byte (lower_byte c) = lower_byte c"
proof (cases "between 65 c 90")
  case True
  then have "\<not> between 65 (lower_byte c) 90"
    by (auto simp: between_def byte_of_lower_byte)
  then show ?thesis by (simp add: lower_byte_def [of "lower_byte c"])
qed (simp add: lower_byte_def)

text \<open>
  strings.EqualFold against an ASCII constant. The two code points outside ASCII that fold
  to an ASCII letter are U+017F (long s) and U+212A (Kelvin sign).
\<close>

definition fold_rune :: "string \<Rightarrow> string" where
  "fold_rune r =
     (if map byte_of r = [197, 191::nat] then ''s''
      else if map byte_of r = [226, 132, 170::nat] then ''k''
      else map lower_byte r)"

definition equal_fold :: "string \<Rightarrow> string \<Rightarrow> bool" where
  "equal_fold s t \<longleftrightarrow> map fold_rune (runes s) = map (\<lambda>c. [lower_byte c]) t"

section \<open>Integers as text\<close>

definition digit_char :: "nat \<Rightarrow> char" where
  "digit_char d = char_of (48 + d)"

fun nat_text :: "nat \<Rightarrow> string" where
  "nat_text n = (if n < 10 then [digit_char n] else nat_text (n div 10) @ [digit_char (n mod 10)])"

declare nat_text.simps [simp del]

text \<open>strconv.FormatInt in base 10.\<close>

definition format_int :: "int \<Rightarrow> string" where
  "format_int i = (if i < 0 then CHR ''-'' # nat_text (nat (- i)) else nat_text (nat i))"

definition is_digit :: "char \<Rightarrow> bool" where
  "is_digit c \<longleftrightarrow> between 48 c 57"

definition digit_value :: "char \<Rightarrow> nat" where
  "digit_value c = byte_of c - 48"

definition parse_digits :: "string \<Rightarrow> nat option" where
  "parse_digits s =
     (if s \<noteq> [] \<and> list_all is_digit s
      then Some (foldl (\<lambda>n c. 10 * n + digit_value c) 0 s) else None)"

definition int64 :: "int \<Rightarrow> bool" where
  "int64 i \<longleftrightarrow> - (2 ^ 63) \<le> i \<and> i < 2 ^ 63"

text \<open>strconv.ParseInt in base 10 and 64 bits: an optional sign, digits, in range.\<close>

definition parse_int64 :: "string \<Rightarrow> int option" where
  "parse_int64 s =
     (let (neg, ds) = (case s of
         c # r \<Rightarrow> if c = CHR ''-'' then (True, r) else if c = CHR ''+'' then (False, r) else (False, s)
       | [] \<Rightarrow> (False, s))
      in case parse_digits ds of
           None \<Rightarrow> None
         | Some n \<Rightarrow> (let i = (if neg then - int n else int n) in if int64 i then Some i else None))"

lemma is_digit_digit_char [simp]: "d < 10 \<Longrightarrow> is_digit (digit_char d)"
  by (simp add: is_digit_def digit_char_def between_def)

lemma digit_value_digit_char [simp]: "d < 10 \<Longrightarrow> digit_value (digit_char d) = d"
  by (simp add: digit_value_def digit_char_def)

lemma nat_text_digits: "nat_text n \<noteq> [] \<and> list_all is_digit (nat_text n)"
proof (induction n rule: nat_text.induct)
  case (1 n)
  then show ?case by (subst (1 2) nat_text.simps) auto
qed

lemma nat_text_value: "foldl (\<lambda>n c. 10 * n + digit_value c) 0 (nat_text n) = n"
proof (induction n rule: nat_text.induct)
  case (1 n)
  then show ?case by (subst nat_text.simps) auto
qed

lemma parse_digits_nat_text [simp]: "parse_digits (nat_text n) = Some n"
  using nat_text_digits [of n] nat_text_value [of n] by (simp add: parse_digits_def)

lemma nat_text_hd: "\<exists>c r. nat_text n = c # r \<and> is_digit c"
  using nat_text_digits [of n] by (cases "nat_text n") auto

lemma is_digit_not_sign: "is_digit c \<Longrightarrow> c \<noteq> CHR ''-'' \<and> c \<noteq> CHR ''+''"
  by (auto simp: is_digit_def between_def)

lemma parse_format_int: "int64 i \<Longrightarrow> parse_int64 (format_int i) = Some i"
proof (cases "i < 0")
  case True
  assume "int64 i"
  with True show ?thesis by (simp add: parse_int64_def format_int_def)
next
  case False
  assume i: "int64 i"
  obtain c r where "nat_text (nat i) = c # r" "is_digit c" using nat_text_hd by blast
  moreover have "parse_digits (nat_text (nat i)) = Some (nat i)" by simp
  ultimately show ?thesis using False i
    by (auto simp: parse_int64_def format_int_def dest: is_digit_not_sign)
qed

end
