(* ===== verification/Go_Errors.thy ===== *)
theory Go_Errors
  imports Go_Strings
begin

text \<open>
  Go's error values as the program builds them: \<open>ErrText\<close> is errors.New and fmt.Errorf
  without a \<open>%w\<close>; \<open>ErrWrap\<close> is fmt.Errorf whose \<open>%w\<close> is the last verb (every use in
  the program but one in internal/brokertest, where only the text is looked at); \<open>ErrJoin\<close> is errors.Join; \<open>ErrExt\<close> is an error value that comes from
  outside the program (a driver, a client library, net/http), of a type \<open>'k\<close> the component
  chooses. A Go result of type \<open>error\<close> is an \<open>option\<close>: \<open>None\<close> is nil.
\<close>

datatype 'k goerr =
    ErrText string
  | ErrExt 'k
  | ErrWrap string "'k goerr"
  | ErrJoin "'k goerr list"

section \<open>The text of an error\<close>

abbreviation newline :: string where
  "newline \<equiv> [CHR 0x0A]"

primrec err_text :: "('k \<Rightarrow> string) \<Rightarrow> 'k goerr \<Rightarrow> string" where
  "err_text ext (ErrText t) = t"
| "err_text ext (ErrExt k) = ext k"
| "err_text ext (ErrWrap p e) = p @ err_text ext e"
| "err_text ext (ErrJoin es) = join (map (err_text ext) es) newline"

text \<open>
  The verb \<open>%q\<close> (strconv.Quote). Every well-formed rune outside ASCII is taken as printable.
\<close>

definition hex_char :: "nat \<Rightarrow> char" where
  "hex_char d = (if d < 10 then char_of (48 + d) else char_of (87 + d))"

definition hex2 :: "char \<Rightarrow> string" where
  "hex2 c = [hex_char (byte_of c div 16), hex_char (byte_of c mod 16)]"

definition quote_rune :: "string \<Rightarrow> string" where
  "quote_rune r =
     (case r of
        [c] \<Rightarrow>
          if c = CHR 0x22 then [CHR 0x5C, CHR 0x22]
          else if c = CHR 0x5C then [CHR 0x5C, CHR 0x5C]
          else if c = CHR 0x07 then CHR 0x5C # ''a''
          else if c = CHR 0x08 then CHR 0x5C # ''b''
          else if c = CHR 0x0C then CHR 0x5C # ''f''
          else if c = CHR 0x0A then CHR 0x5C # ''n''
          else if c = CHR 0x0D then CHR 0x5C # ''r''
          else if c = CHR 0x09 then CHR 0x5C # ''t''
          else if c = CHR 0x0B then CHR 0x5C # ''v''
          else if between 32 c 126 then [c]
          else CHR 0x5C # CHR ''x'' # hex2 c
      | _ \<Rightarrow> r)"

definition quote :: "string \<Rightarrow> string" where
  "quote s = CHR 0x22 # concat (map quote_rune (runes s)) @ [CHR 0x22]"

section \<open>errors.Join, errors.As, errors.Is\<close>

fun somes :: "'a option list \<Rightarrow> 'a list" where
  "somes [] = []"
| "somes (None # xs) = somes xs"
| "somes (Some x # xs) = x # somes xs"

definition errors_join :: "'k goerr option list \<Rightarrow> 'k goerr option" where
  "errors_join es = (case somes es of [] \<Rightarrow> None | ls \<Rightarrow> Some (ErrJoin ls))"

fun first_some :: "'a option list \<Rightarrow> 'a option" where
  "first_some [] = None"
| "first_some (None # xs) = first_some xs"
| "first_some (Some x # xs) = Some x"

text \<open>
  errors.As: the first error of the wanted type in a depth-first walk of the tree, the type
  test given as \<open>p\<close>. errors.Is against a sentinel is the same walk with a yes or no.
\<close>

primrec errors_as :: "('k \<Rightarrow> 'x option) \<Rightarrow> 'k goerr \<Rightarrow> 'x option" where
  "errors_as p (ErrText t) = None"
| "errors_as p (ErrExt k) = p k"
| "errors_as p (ErrWrap t e) = errors_as p e"
| "errors_as p (ErrJoin es) = first_some (map (errors_as p) es)"

definition errors_is :: "('k \<Rightarrow> bool) \<Rightarrow> 'k goerr \<Rightarrow> bool" where
  "errors_is p e \<longleftrightarrow> errors_as (\<lambda>k. if p k then Some () else None) e \<noteq> None"

text \<open>The errors a tree of joins holds, in order.\<close>

primrec err_leaves :: "'k goerr \<Rightarrow> 'k goerr list" where
  "err_leaves (ErrText t) = [ErrText t]"
| "err_leaves (ErrExt k) = [ErrExt k]"
| "err_leaves (ErrWrap t e) = [ErrWrap t e]"
| "err_leaves (ErrJoin es) = concat (map err_leaves es)"

definition leaves_of :: "'k goerr option \<Rightarrow> 'k goerr list" where
  "leaves_of e = (case e of None \<Rightarrow> [] | Some x \<Rightarrow> err_leaves x)"

named_theorems go_err_simps \<open>equations of joined errors\<close>

lemma somes_map_Some [simp]: "somes (map Some xs) = xs"
  by (induction xs) auto

lemma somes_append [simp]: "somes (xs @ ys) = somes xs @ somes ys"
  by (induction xs rule: somes.induct) auto

lemma leaves_of_None [simp]: "leaves_of None = []"
  by (simp add: leaves_of_def)

lemma leaves_of_Some [simp]: "leaves_of (Some e) = err_leaves e"
  by (simp add: leaves_of_def)

lemma concat_leaves_somes: "concat (map err_leaves (somes es)) = concat (map leaves_of es)"
  by (induction es rule: somes.induct) auto

lemma leaves_of_join [simp, go_err_simps]:
  "leaves_of (errors_join es) = concat (map leaves_of es)"
proof -
  have "leaves_of (errors_join es) = concat (map err_leaves (somes es))"
    by (cases "somes es") (auto simp: errors_join_def)
  then show ?thesis by (simp add: concat_leaves_somes)
qed

lemma errors_join_None_iff: "errors_join es = None \<longleftrightarrow> (\<forall>e \<in> set es. e = None)"
  by (induction es rule: somes.induct)
     (auto simp: errors_join_def split: list.splits)

lemma errors_join_pair_None [simp, go_err_simps]:
  "errors_join [a, b] = None \<longleftrightarrow> a = None \<and> b = None"
  by (simp add: errors_join_None_iff)

lemma first_some_Some: "first_some xs = Some x \<Longrightarrow> Some x \<in> set xs"
  by (induction xs rule: first_some.induct) auto

lemma errors_is_wrap [simp, go_err_simps]: "errors_is p (ErrWrap t e) = errors_is p e"
  by (simp add: errors_is_def)

lemma errors_is_text [simp, go_err_simps]: "\<not> errors_is p (ErrText t)"
  by (simp add: errors_is_def)

lemma errors_is_ext [simp, go_err_simps]: "errors_is p (ErrExt k) = p k"
  by (simp add: errors_is_def)

section \<open>Results and contexts\<close>

text \<open>
  The state of a defer/recover: a call returns or panics. \<open>AbortHandler\<close> is the sentinel
  http.ErrAbortHandler; any other panic value is \<open>PanicValue\<close> with its printed text.
\<close>

datatype panic = AbortHandler | PanicValue string

text \<open>
  A context.Context is the time at which its Done channel closes (\<open>None\<close>: never). Times
  and durations are nanoseconds, as time.Duration counts them.
\<close>

type_synonym time = int
type_synonym duration = int

definition second :: duration where
  "second = 1000000000"

definition minute :: duration where
  "minute = 60 * second"

record ctx =
  done_at :: "time option"

text \<open>context.WithTimeout and context.WithoutCancel.\<close>

definition with_timeout :: "time \<Rightarrow> duration \<Rightarrow> ctx \<Rightarrow> ctx" where
  "with_timeout now d c =
     c\<lparr>done_at := Some (case done_at c of None \<Rightarrow> now + d | Some t \<Rightarrow> min t (now + d))\<rparr>"

definition without_cancel :: "ctx \<Rightarrow> ctx" where
  "without_cancel c = c\<lparr>done_at := None\<rparr>"

definition ctx_done :: "time \<Rightarrow> ctx \<Rightarrow> bool" where
  "ctx_done now c = (case done_at c of None \<Rightarrow> False | Some t \<Rightarrow> t \<le> now)"

lemma done_at_without_cancel [simp]: "done_at (without_cancel c) = None"
  by (simp add: without_cancel_def)

lemma done_at_with_timeout:
  "done_at (with_timeout now d c) =
     Some (case done_at c of None \<Rightarrow> now + d | Some t \<Rightarrow> min t (now + d))"
  by (simp add: with_timeout_def)

text \<open>
  select on time.After(d) and ctx.Done(): the time at which the first of the two is ready.
\<close>

definition wait_until :: "time \<Rightarrow> duration \<Rightarrow> ctx \<Rightarrow> time" where
  "wait_until now d c =
     max now (case done_at c of None \<Rightarrow> now + d | Some t \<Rightarrow> min t (now + d))"

end
