(* ===== verification/Go_Slog.thy ===== *)
theory Go_Slog
  imports Go_Errors
begin

text \<open>
  log/slog levels: the four names, their text and the parser behind
  \<open>Level.UnmarshalText\<close>. goboot.New and the Actuator's loglevel endpoint both read a
  level with it.
\<close>

type_synonym level = int

definition level_debug :: level where "level_debug = -4"
definition level_info :: level where "level_info = 0"
definition level_warn :: level where "level_warn = 4"
definition level_error :: level where "level_error = 8"

lemmas level_defs = level_debug_def level_info_def level_warn_def level_error_def

text \<open>The verb \<open>%+d\<close>: a sign always.\<close>

definition format_plus :: "int \<Rightarrow> string" where
  "format_plus i = (if i < 0 then format_int i else CHR ''+'' # format_int i)"

definition level_base :: "string \<Rightarrow> level \<Rightarrow> string" where
  "level_base base v = (if v = 0 then base else base @ format_plus v)"

text \<open>Level.String.\<close>

definition level_string :: "level \<Rightarrow> string" where
  "level_string l =
     (if l < level_info then level_base ''DEBUG'' (l - level_debug)
      else if l < level_warn then level_base ''INFO'' (l - level_info)
      else if l < level_error then level_base ''WARN'' (l - level_warn)
      else level_base ''ERROR'' (l - level_error))"

text \<open>
  strings.ToUpper, as far as a comparison with an ASCII constant can see: U+0131 and U+017F
  are the code points outside ASCII whose upper case is ASCII.
\<close>

definition upper_rune :: "string \<Rightarrow> string" where
  "upper_rune r =
     (if map byte_of r = [196, 177::nat] then ''I''
      else if map byte_of r = [197, 191::nat] then ''S''
      else map upper_byte r)"

definition upper_text :: "string \<Rightarrow> string" where
  "upper_text s = concat (map upper_rune (runes s))"

text \<open>strconv.Atoi, with the text of its two errors.\<close>

definition atoi_syntax :: "string \<Rightarrow> bool" where
  "atoi_syntax s =
     (let ds = (case s of c # r \<Rightarrow> if c = CHR ''-'' \<or> c = CHR ''+'' then r else s | [] \<Rightarrow> s)
      in parse_digits ds \<noteq> None)"

definition atoi :: "string \<Rightarrow> 'k goerr + int" where
  "atoi s =
     (case parse_int64 s of
        Some i \<Rightarrow> Inr i
      | None \<Rightarrow> Inl (ErrWrap (''strconv.Atoi: parsing '' @ quote s @ '': '')
                  (ErrText (if atoi_syntax s then ''value out of range'' else ''invalid syntax''))))"

definition wrap64 :: "int \<Rightarrow> int" where
  "wrap64 i = (i + 2 ^ 63) mod 2 ^ 64 - 2 ^ 63"

definition level_of_name :: "string \<Rightarrow> level option" where
  "level_of_name n =
     (if n = ''DEBUG'' then Some level_debug
      else if n = ''INFO'' then Some level_info
      else if n = ''WARN'' then Some level_warn
      else if n = ''ERROR'' then Some level_error
      else None)"

fun sign_index :: "string \<Rightarrow> nat option" where
  "sign_index [] = None"
| "sign_index (c # s) =
     (if c = CHR ''+'' \<or> c = CHR ''-'' then Some 0 else map_option Suc (sign_index s))"

text \<open>Level.UnmarshalText.\<close>

definition unmarshal_level :: "string \<Rightarrow> 'k goerr + level" where
  "unmarshal_level s =
     (let wrap = ErrWrap (''slog: level string '' @ quote s @ '': '');
          split = (case sign_index s of
              Some i \<Rightarrow> (take i s, atoi (drop i s))
            | None \<Rightarrow> (s, Inr 0))
      in case snd split of
           Inl e \<Rightarrow> Inl (wrap e)
         | Inr off \<Rightarrow>
             (case level_of_name (upper_text (fst split)) of
                None \<Rightarrow> Inl (wrap (ErrText ''unknown name''))
              | Some b \<Rightarrow> Inr (wrap64 (b + off))))"

lemma wrap64_int64 [simp]: "int64 i \<Longrightarrow> wrap64 i = i"
  by (simp add: wrap64_def int64_def)

lemma sign_index_append:
  "sign_index pre = None \<Longrightarrow> c = CHR ''+'' \<or> c = CHR ''-'' \<Longrightarrow>
     sign_index (pre @ c # s) = Some (length pre)"
  by (induction pre) (auto split: if_splits)

lemma parse_int64_plus: "0 \<le> i \<Longrightarrow> int64 i \<Longrightarrow> parse_int64 (CHR ''+'' # format_int i) = Some i"
  by (simp add: parse_int64_def format_int_def)

lemma parse_int64_format_plus: "int64 i \<Longrightarrow> parse_int64 (format_plus i) = Some i"
  by (cases "i < 0") (simp_all add: format_plus_def parse_format_int parse_int64_plus)

lemma format_plus_sign:
  "\<exists>c r. format_plus i = c # r \<and> (c = CHR ''+'' \<or> c = CHR ''-'')"
  by (auto simp: format_plus_def format_int_def)

lemma unmarshal_level_base:
  assumes "level_of_name (upper_text base) = Some b" "sign_index base = None"
    and "int64 v" "int64 (b + v)"
  shows "unmarshal_level (level_base base v) = Inr (b + v)"
proof (cases "v = 0")
  case True
  with assms show ?thesis by (simp add: unmarshal_level_def level_base_def)
next
  case False
  obtain c r where cr: "format_plus v = c # r" "c = CHR ''+'' \<or> c = CHR ''-''"
    using format_plus_sign by blast
  then have "sign_index (base @ format_plus v) = Some (length base)"
    using sign_index_append [OF assms(2)] by simp
  with False assms show ?thesis
    by (simp add: unmarshal_level_def level_base_def atoi_def parse_int64_format_plus)
qed

lemma level_names [simp]:
  "level_of_name (upper_text ''DEBUG'') = Some level_debug"
  "level_of_name (upper_text ''INFO'') = Some level_info"
  "level_of_name (upper_text ''WARN'') = Some level_warn"
  "level_of_name (upper_text ''ERROR'') = Some level_error"
  by code_simp+

text \<open>What a level prints is what the parser reads back.\<close>

lemma unmarshal_level_string:
  assumes "int64 l"
  shows "unmarshal_level (level_string l) = Inr l"
proof -
  have r: "- 9223372036854775808 \<le> l" "l < 9223372036854775808"
    using assms by (auto simp: int64_def)
  have B: "level_of_name (upper_text base) = Some b \<Longrightarrow> sign_index base = None \<Longrightarrow>
      int64 (l - b) \<Longrightarrow> unmarshal_level (level_base base (l - b)) = Inr l" for base b
    using unmarshal_level_base [of base b "l - b"] assms by simp
  consider "l < level_info" | "level_info \<le> l" "l < level_warn"
    | "level_warn \<le> l" "l < level_error" | "level_error \<le> l" by linarith
  then show ?thesis
  proof cases
    case 1
    then show ?thesis
      using r B [of "''DEBUG''" level_debug] by (simp add: level_string_def level_defs int64_def)
  next
    case 2
    then show ?thesis
      using r B [of "''INFO''" level_info] by (simp add: level_string_def level_defs int64_def)
  next
    case 3
    then show ?thesis
      using r B [of "''WARN''" level_warn] by (simp add: level_string_def level_defs int64_def)
  next
    case 4
    then show ?thesis
      using r B [of "''ERROR''" level_error] by (simp add: level_string_def level_defs int64_def)
  qed
qed

end
