(* ===== verification/Lifecycle.thy ===== *)
theory Lifecycle
  imports Go_Slog "HOL-Library.AList" "HOL-Library.Multiset"
begin

text \<open>
  The base Starter (goboot.go and app.go): Components, Tiers, and the App that starts them
  from the lowest Tier to the highest and stops them in reverse.

  A Component is a record of its methods. Each method that can act takes a context, the
  clock and the state \<open>'w\<close> of the world outside the App, and returns its result with both
  changed; the optional interfaces Drainer and Checker are \<open>option\<close> fields. The App's own
  actions (method calls it makes, the readiness flag, its log lines) are recorded in the
  world's trace, so order is a statement about a list. \<open>None\<close> as the result of an
  operation is a Go run-time panic.
\<close>

section \<open>Components\<close>

datatype event =
    StartCall string
  | StartedLog string int
  | ReadyStore bool
  | CloseWatchers
  | DrainCall string
  | DrainedLog string
  | DelayWait
  | StopCall string
  | RunningLog
  | DiedLog
  | ShuttingDownLog

record 'w world =
  clock :: time
  env :: 'w
  trace :: "event list"

type_synonym ('w, 'a) call = "ctx \<Rightarrow> time \<Rightarrow> 'w \<Rightarrow> 'a \<times> time \<times> 'w"

definition tier_observe :: int where "tier_observe = 0"
definition tier_resource :: int where "tier_resource = 1"
definition tier_transport :: int where "tier_transport = 2"

text \<open>
  \<open>c_start\<close> returns an error, or the death channel (\<open>None\<close> is the nil channel); a channel
  is named by a number.
\<close>

record ('w, 'k) component =
  c_name :: string
  c_tier :: int
  c_start :: "('w, 'k goerr + nat option) call"
  c_stop :: "('w, 'k goerr option) call"
  c_drain :: "('w, unit) call option"
  c_check :: "('w, 'k goerr option) call option"

definition emit :: "event \<Rightarrow> 'w world \<Rightarrow> 'w world" where
  "emit ev w = w\<lparr>trace := trace w @ [ev]\<rparr>"

definition perform :: "event \<Rightarrow> ('w, 'a) call \<Rightarrow> ctx \<Rightarrow> 'w world \<Rightarrow> 'a \<times> 'w world" where
  "perform ev f c w =
     (case f c (clock w) (env w) of
        (r, t, e) \<Rightarrow> (r, w\<lparr>clock := t, env := e, trace := trace w @ [ev]\<rparr>))"

section \<open>Configuration and the App\<close>

record log_config =
  log_level :: string
  log_format :: string

record lifecycle_config =
  start_timeout :: duration
  drain_delay :: duration
  stop_timeout :: duration

record app_config =
  cfg_log :: log_config
  cfg_lifecycle :: lifecycle_config

text \<open>
  The channels of one Start (a.death, a.stopWatch) are told apart by an epoch: epoch 0 is
  the nil channels of a new App. \<open>a_death\<close> is the one-slot buffer of the current death
  channel, \<open>a_stop_open\<close> says that a.stopWatch is not nil, \<open>a_closed\<close> holds the epochs
  whose stopWatch has been closed. A watcher is the goroutine watch starts.
\<close>

record watcher =
  wt_name :: string
  wt_chan :: nat
  wt_epoch :: nat

record ('w, 'k) app =
  a_level :: level
  a_json :: bool
  a_life :: lifecycle_config
  a_comps :: "('w, 'k) component list"
  a_order :: "('w, 'k) component list"
  a_started :: nat
  a_ready :: bool
  a_epoch :: nat
  a_death :: "'k goerr option"
  a_stop_open :: bool
  a_closed :: "nat list"
  a_watchers :: "watcher list"

definition or_default :: "duration \<Rightarrow> duration \<Rightarrow> duration" where
  "or_default d dflt = (if d = 0 then dflt else d)"

definition life_defaults :: "lifecycle_config \<Rightarrow> lifecycle_config" where
  "life_defaults l =
     \<lparr>start_timeout = or_default (start_timeout l) (30 * second),
      drain_delay = or_default (drain_delay l) (5 * second),
      stop_timeout = or_default (stop_timeout l) (10 * second)\<rparr>"

definition app_new :: "app_config \<Rightarrow> 'k goerr + ('w, 'k) app" where
  "app_new cfg =
     (let lvl = log_level (cfg_log cfg);
          mk = (\<lambda>l. \<lparr>a_level = l, a_json = (log_format (cfg_log cfg) = ''json''),
                     a_life = life_defaults (cfg_lifecycle cfg), a_comps = [], a_order = [],
                     a_started = 0, a_ready = False, a_epoch = 0, a_death = None,
                     a_stop_open = False, a_closed = [], a_watchers = []\<rparr>)
      in if lvl = [] then Inr (mk level_info)
         else (case unmarshal_level lvl of
                 Inl e \<Rightarrow> Inl (ErrWrap (''log.level: '' @ quote lvl @ '' is not a level: '') e)
               | Inr l \<Rightarrow> Inr (mk l)))"

definition app_add :: "('w, 'k) component list \<Rightarrow> ('w, 'k) app \<Rightarrow> ('w, 'k) app" where
  "app_add cs a = a\<lparr>a_comps := a_comps a @ cs\<rparr>"

section \<open>Starting\<close>

fun reject_duplicates_from :: "string list \<Rightarrow> ('w, 'k) component list \<Rightarrow> 'k goerr option" where
  "reject_duplicates_from seen [] = None"
| "reject_duplicates_from seen (c # cs) =
     (if c_name c \<in> set seen
      then Some (ErrText (''duplicate component name '' @ quote (c_name c)))
      else reject_duplicates_from (c_name c # seen) cs)"

definition reject_duplicate_names :: "('w, 'k) app \<Rightarrow> 'k goerr option" where
  "reject_duplicate_names a = reject_duplicates_from [] (a_comps a)"

definition watch :: "string \<Rightarrow> nat option \<Rightarrow> ('w, 'k) app \<Rightarrow> ('w, 'k) app" where
  "watch name ch a =
     (case ch of
        None \<Rightarrow> a
      | Some n \<Rightarrow> a\<lparr>a_watchers := a_watchers a @
                     [\<lparr>wt_name = name, wt_chan = n, wt_epoch = a_epoch a\<rparr>]\<rparr>)"

text \<open>Closing a channel that is closed already panics; the guard on a.stopWatch prevents it.\<close>

definition begin_shutdown :: "('w, 'k) app \<Rightarrow> ('w, 'k) app option" where
  "begin_shutdown a =
     (if a_stop_open a
      then (if a_epoch a \<in> set (a_closed a) then None
            else Some (a\<lparr>a_ready := False, a_closed := a_epoch a # a_closed a,
                          a_stop_open := False\<rparr>))
      else Some (a\<lparr>a_ready := False\<rparr>))"

definition shutdown_events :: "('w, 'k) app \<Rightarrow> 'w world \<Rightarrow> 'w world" where
  "shutdown_events a w =
     (if a_stop_open a then emit CloseWatchers (emit (ReadyStore False) w)
      else emit (ReadyStore False) w)"

text \<open>Reading a.order out of range panics.\<close>

fun stop_loop :: "ctx \<Rightarrow> ('w, 'k) component list \<Rightarrow> nat list \<Rightarrow> 'k goerr option \<Rightarrow> 'w world \<Rightarrow>
    ('k goerr option \<times> 'w world) option" where
  "stop_loop c ord [] err w = Some (err, w)"
| "stop_loop c ord (i # is) err w =
     (if i < length ord
      then (case perform (StopCall (c_name (ord ! i))) (c_stop (ord ! i)) c w of
              (None, w') \<Rightarrow> stop_loop c ord is err w'
            | (Some e, w') \<Rightarrow>
                stop_loop c ord is
                  (errors_join [err, Some (ErrWrap (''stop '' @ c_name (ord ! i) @ '': '') e)]) w')
      else None)"

definition stop_started :: "ctx \<Rightarrow> ('w, 'k) app \<Rightarrow> 'w world \<Rightarrow>
    ('k goerr option \<times> ('w, 'k) app \<times> 'w world) option" where
  "stop_started c a w =
     (case stop_loop (with_timeout (clock w) (stop_timeout (a_life a)) c) (a_order a)
             (rev [0..<a_started a]) None w of
        None \<Rightarrow> None
      | Some (err, w') \<Rightarrow> Some (err, a\<lparr>a_started := 0\<rparr>, w'))"

fun start_loop :: "ctx \<Rightarrow> ('w, 'k) component list \<Rightarrow> ('w, 'k) app \<Rightarrow> 'w world \<Rightarrow>
    'k goerr option \<times> ('w, 'k) app \<times> 'w world" where
  "start_loop c [] a w = (None, a, w)"
| "start_loop c (x # xs) a w =
     (case perform (StartCall (c_name x)) (c_start x) c w of
        (Inl e, w') \<Rightarrow> (Some (ErrWrap (''start '' @ c_name x @ '': '') e), a, w')
      | (Inr ch, w') \<Rightarrow>
          start_loop c xs (watch (c_name x) ch (a\<lparr>a_started := Suc (a_started a)\<rparr>))
            (emit (StartedLog (c_name x) (c_tier x)) w'))"

definition app_start :: "ctx \<Rightarrow> ('w, 'k) app \<Rightarrow> 'w world \<Rightarrow>
    ('k goerr option \<times> ('w, 'k) app \<times> 'w world) option" where
  "app_start c a w =
     (case reject_duplicate_names a of
        Some e \<Rightarrow> Some (Some e, a, w)
      | None \<Rightarrow>
          (let a1 = a\<lparr>a_order := sort_key c_tier (a_comps a), a_epoch := Suc (a_epoch a),
                      a_death := None, a_stop_open := True\<rparr>
           in case start_loop (with_timeout (clock w) (start_timeout (a_life a)) c)
                     (a_order a1) a1 w of
                (None, a2, w2) \<Rightarrow> Some (None, a2\<lparr>a_ready := True\<rparr>, emit (ReadyStore True) w2)
              | (Some e, a2, w2) \<Rightarrow>
                  (case begin_shutdown a2 of
                     None \<Rightarrow> None
                   | Some a3 \<Rightarrow>
                       (case stop_started (without_cancel c) a3 (shutdown_events a2 w2) of
                          None \<Rightarrow> None
                        | Some (e2, a4, w4) \<Rightarrow> Some (errors_join [Some e, e2], a4, w4)))))"

section \<open>Stopping\<close>

fun drain_loop :: "ctx \<Rightarrow> ('w, 'k) component list \<Rightarrow> nat list \<Rightarrow> 'w world \<Rightarrow> 'w world option" where
  "drain_loop c ord [] w = Some w"
| "drain_loop c ord (i # is) w =
     (if i < length ord
      then (case c_drain (ord ! i) of
              None \<Rightarrow> drain_loop c ord is w
            | Some d \<Rightarrow>
                drain_loop c ord is
                  (emit (DrainedLog (c_name (ord ! i)))
                     (snd (perform (DrainCall (c_name (ord ! i))) d c w))))
      else None)"

definition app_drain :: "ctx \<Rightarrow> ('w, 'k) app \<Rightarrow> 'w world \<Rightarrow> 'w world option" where
  "app_drain c a w =
     (case drain_loop c (a_order a) [0..<a_started a] w of
        None \<Rightarrow> None
      | Some w1 \<Rightarrow>
          Some (emit DelayWait
                  (w1\<lparr>clock := wait_until (clock w1) (drain_delay (a_life a)) c\<rparr>)))"

definition app_stop :: "ctx \<Rightarrow> ('w, 'k) app \<Rightarrow> 'w world \<Rightarrow>
    ('k goerr option \<times> ('w, 'k) app \<times> 'w world) option" where
  "app_stop c a w =
     (case begin_shutdown a of
        None \<Rightarrow> None
      | Some a1 \<Rightarrow>
          (case app_drain c a1 (shutdown_events a w) of
             None \<Rightarrow> None
           | Some w2 \<Rightarrow> stop_started c a1 w2))"

section \<open>Watchers and Run\<close>

text \<open>
  One step of a watcher goroutine: it takes what its channel delivers (\<open>None\<close>: nil, which
  is also what a closed channel delivers) and offers the death to the channel of its
  epoch, where a full buffer drops it; or its stopWatch is closed and it ends. A death of
  an earlier epoch goes to a channel nobody reads any more.
\<close>

definition death_error :: "string \<Rightarrow> 'k goerr option \<Rightarrow> 'k goerr" where
  "death_error name e =
     (case e of
        None \<Rightarrow> ErrText (''component '' @ name @ '' died'')
      | Some x \<Rightarrow> ErrWrap (''component '' @ name @ '' died: '') x)"

definition offer_death :: "nat \<Rightarrow> 'k goerr \<Rightarrow> ('w, 'k) app \<Rightarrow> ('w, 'k) app" where
  "offer_death ep d a =
     (if ep = a_epoch a \<and> a_death a = None then a\<lparr>a_death := Some d\<rparr> else a)"

inductive watch_step :: "('w, 'k) app \<Rightarrow> ('w, 'k) app \<Rightarrow> bool" where
  watcher_dies:
    "a_watchers a = us @ x # vs \<Longrightarrow>
     watch_step a (offer_death (wt_epoch x) (death_error (wt_name x) e)
                     (a\<lparr>a_watchers := us @ vs\<rparr>))"
| watcher_ends:
    "a_watchers a = us @ x # vs \<Longrightarrow> wt_epoch x \<in> set (a_closed a) \<Longrightarrow>
     watch_step a (a\<lparr>a_watchers := us @ vs\<rparr>)"

text \<open>signal.NotifyContext: the context is also done when a signal arrives.\<close>

definition notify_context :: "ctx \<Rightarrow> time option \<Rightarrow> ctx" where
  "notify_context c sig =
     (case sig of
        None \<Rightarrow> c
      | Some t \<Rightarrow> c\<lparr>done_at := Some (case done_at c of None \<Rightarrow> t | Some u \<Rightarrow> min t u)\<rparr>)"

text \<open>
  App.Run. Between Start and Stop the watchers take steps and the world moves on by itself:
  \<open>drift\<close> relates its state after Start to those it may have when Run wakes, at \<open>t\<close>. Run wakes
  by the signal context or by a death in the channel. When both are ready Go's select takes
  either, so Run is a relation.
\<close>

inductive app_run_in :: "('w \<Rightarrow> 'w \<Rightarrow> bool) \<Rightarrow> ctx \<Rightarrow> time option \<Rightarrow> ('w, 'k) app \<Rightarrow> 'w world \<Rightarrow>
    'k goerr option \<Rightarrow> ('w, 'k) app \<Rightarrow> 'w world \<Rightarrow> bool"
  for drift :: "'w \<Rightarrow> 'w \<Rightarrow> bool" and c :: ctx and sig :: "time option"
    and a :: "('w, 'k) app" and w :: "'w world" where
  run_start_fails:
    "app_start (notify_context c sig) a w = Some (Some e, a1, w1) \<Longrightarrow>
     app_run_in drift c sig a w (Some e) a1 w1"
| run_signal:
    "app_start (notify_context c sig) a w = Some (None, a1, w1) \<Longrightarrow>
     watch_step\<^sup>*\<^sup>* a1 a2 \<Longrightarrow> clock w1 \<le> t \<Longrightarrow> ctx_done t (notify_context c sig) \<Longrightarrow>
     app_stop (without_cancel c) a2
       (emit ShuttingDownLog (emit RunningLog w1\<lparr>clock := t, env := e\<rparr>)) = Some (err, a3, w3) \<Longrightarrow>
     drift (env w1) e \<Longrightarrow>
     app_run_in drift c sig a w (errors_join [None, err]) a3 w3"
| run_death:
    "app_start (notify_context c sig) a w = Some (None, a1, w1) \<Longrightarrow>
     watch_step\<^sup>*\<^sup>* a1 a2 \<Longrightarrow> clock w1 \<le> t \<Longrightarrow> a_death a2 = Some d \<Longrightarrow>
     app_stop (without_cancel c) (a2\<lparr>a_death := None\<rparr>)
       (emit ShuttingDownLog (emit DiedLog (emit RunningLog w1\<lparr>clock := t, env := e\<rparr>)))
       = Some (err, a3, w3) \<Longrightarrow>
     drift (env w1) e \<Longrightarrow>
     app_run_in drift c sig a w (errors_join [Some d, err]) a3 w3"

text \<open>With a world that may do anything.\<close>

abbreviation app_run :: "ctx \<Rightarrow> time option \<Rightarrow> ('w, 'k) app \<Rightarrow> 'w world \<Rightarrow>
    'k goerr option \<Rightarrow> ('w, 'k) app \<Rightarrow> 'w world \<Rightarrow> bool" where
  "app_run \<equiv> app_run_in (\<lambda>_ _. True)"

section \<open>Readiness and Checks\<close>

definition app_is_ready :: "('w, 'k) app \<Rightarrow> bool" where
  "app_is_ready a = a_ready a"

definition app_checks :: "('w, 'k) app \<Rightarrow> (string \<times> ('w, 'k goerr option) call) list" where
  "app_checks a =
     foldl (\<lambda>m c. case c_check c of None \<Rightarrow> m | Some f \<Rightarrow> AList.update (c_name c) f m)
       [] (a_comps a)"

end
