(* ===== verification/State_Machine.thy ===== *)
theory State_Machine
  imports Main
begin

text \<open>
  The laws every step relation of the library is used by: an invariant that each step keeps
  holds of every run, and a relation with a measure ends.
\<close>

locale kept_by_steps =
  fixes step :: "'s \<Rightarrow> 's \<Rightarrow> bool" and inv :: "'s \<Rightarrow> bool"
  assumes step_keeps: "step s s' \<Longrightarrow> inv s \<Longrightarrow> inv s'"
begin

lemma run_keeps: "step\<^sup>*\<^sup>* s s' \<Longrightarrow> inv s \<Longrightarrow> inv s'"
  by (induction rule: rtranclp_induct) (auto intro: step_keeps)

lemma bounded_run_keeps: "(step ^^ n) s s' \<Longrightarrow> inv s \<Longrightarrow> inv s'"
  by (rule run_keeps) (auto intro: relpowp_imp_rtranclp)

end

text \<open>\<open>left\<close> counts what a state has still to do; a state that is not \<open>final\<close> has a next step.\<close>

locale ending_machine =
  fixes step :: "'s \<Rightarrow> 's \<Rightarrow> bool" and left :: "'s \<Rightarrow> nat" and final :: "'s \<Rightarrow> bool"
  assumes step_less: "step s s' \<Longrightarrow> left s' < left s"
    and not_stuck: "\<not> final s \<Longrightarrow> \<exists>s'. step s s'"
begin

lemma wf_steps: "wfp (\<lambda>s' s. step s s')"
  by (rule wfp_if_convertible_to_nat [where f = left]) (rule step_less)

lemma reaches_final: "\<exists>s'. step\<^sup>*\<^sup>* s s' \<and> final s'"
proof (induction "left s" arbitrary: s rule: less_induct)
  case less
  show ?case
  proof (cases "final s")
    case False
    then obtain s1 where s1: "step s s1" using not_stuck by blast
    from less [OF step_less [OF s1]] s1 show ?thesis by (meson converse_rtranclp_into_rtranclp)
  qed blast
qed

lemma run_bounded: "(step ^^ n) s s' \<Longrightarrow> n + left s' \<le> left s"
proof (induction n arbitrary: s')
  case (Suc n)
  then obtain s1 where s1: "(step ^^ n) s s1" "step s1 s'" by auto
  from Suc.IH [OF s1(1)] step_less [OF s1(2)] show ?case by simp
qed simp

end

section \<open>Fair executions\<close>

text \<open>
  An execution takes a step or waits at every moment. An action is treated fairly when it is not
  enabled for ever: it is taken, and taking it disables it, or it is disabled by others. When
  nothing but the goal disables it, being enabled leads to the goal.
\<close>

definition execution :: "('s \<Rightarrow> 's \<Rightarrow> bool) \<Rightarrow> (nat \<Rightarrow> 's) \<Rightarrow> bool" where
  "execution step s \<longleftrightarrow> (\<forall>i. s (Suc i) = s i \<or> step (s i) (s (Suc i)))"

definition weakly_fair :: "('s \<Rightarrow> bool) \<Rightarrow> (nat \<Rightarrow> 's) \<Rightarrow> bool" where
  "weakly_fair enabled s \<longleftrightarrow> (\<forall>i. \<exists>j\<ge>i. \<not> enabled (s j))"

context kept_by_steps
begin

lemma execution_keeps: "execution step s \<Longrightarrow> inv (s 0) \<Longrightarrow> inv (s i)"
proof (induction i)
  case (Suc i)
  then show ?case unfolding execution_def by (metis step_keeps)
qed

end

locale fair_action = kept_by_steps step inv for step :: "'s \<Rightarrow> 's \<Rightarrow> bool" and inv :: "'s \<Rightarrow> bool" +
  fixes enabled :: "'s \<Rightarrow> bool" and goal :: "'s \<Rightarrow> bool"
  assumes unless: "step s s' \<Longrightarrow> inv s \<Longrightarrow> enabled s \<Longrightarrow> enabled s' \<or> goal s'"
begin

lemma enabled_or_reached:
  assumes "execution step s" "inv (s 0)" "enabled (s i)" "i \<le> j"
  shows "enabled (s j) \<or> (\<exists>k\<ge>i. goal (s k))"
  using assms(4)
proof (induction j rule: dec_induct)
  case base
  then show ?case using assms(3) by simp
next
  case (step j)
  have "inv (s j)" using execution_keeps [OF assms(1,2)] .
  with step assms(1) unless [of "s j" "s (Suc j)"] show ?case
    unfolding execution_def by (metis le_SucI)
qed

lemma leads_to_goal:
  assumes "execution step s" "inv (s 0)" "weakly_fair enabled s" "enabled (s i)"
  shows "\<exists>k\<ge>i. goal (s k)"
  using assms(3) enabled_or_reached [OF assms(1,2,4)] unfolding weakly_fair_def by blast

end

section \<open>Contracts\<close>

text \<open>
  A contract is a deterministic automaton over what a system shows of itself: it takes an event
  or refuses it. A system refines a contract when whatever a step shows is taken, and the
  contract's state stays the abstraction of the system's.
\<close>

primrec accept :: "('a \<Rightarrow> 'e \<Rightarrow> 'a option) \<Rightarrow> 'a \<Rightarrow> 'e list \<Rightarrow> 'a option" where
  "accept contract st [] = Some st"
| "accept contract st (e # es) = Option.bind (contract st e) (\<lambda>st'. accept contract st' es)"

lemma accept_append:
  "accept contract st (xs @ ys) = Option.bind (accept contract st xs) (\<lambda>st'. accept contract st' ys)"
  by (induction xs arbitrary: st) (simp_all add: bind_assoc)

lemma accept_keeps:
  assumes "\<And>st e st'. contract st e = Some st' \<Longrightarrow> I st \<Longrightarrow> I st'" "accept contract st es = Some st'" "I st"
  shows "I st'"
  using assms(2,3) by (induction es arbitrary: st) (auto simp: bind_eq_Some_conv dest: assms(1))

locale refines_contract =
  fixes step :: "'s \<Rightarrow> 's \<Rightarrow> bool" and inv :: "'s \<Rightarrow> bool" and shown :: "'s \<Rightarrow> 'e list"
    and abs :: "'s \<Rightarrow> 'a" and contract :: "'a \<Rightarrow> 'e \<Rightarrow> 'a option"
  assumes step_inv: "step s s' \<Longrightarrow> inv s \<Longrightarrow> inv s'"
    and step_accepted: "step s s' \<Longrightarrow> inv s \<Longrightarrow>
      \<exists>new. shown s' = shown s @ new \<and> accept contract (abs s) new = Some (abs s')"

sublocale refines_contract \<subseteq> kept_by_steps step inv
  by unfold_locales (rule step_inv)

context refines_contract
begin

lemma run_accepted:
  assumes "step\<^sup>*\<^sup>* s s'" "inv s"
  shows "\<exists>new. shown s' = shown s @ new \<and> accept contract (abs s) new = Some (abs s')"
  using assms
proof (induction rule: rtranclp_induct)
  case (step s1 s2)
  then obtain xs where xs: "shown s1 = shown s @ xs" "accept contract (abs s) xs = Some (abs s1)" by blast
  from step_accepted [OF step.hyps(2) run_keeps [OF step.hyps(1) step.prems]] obtain ys where
    "shown s2 = shown s1 @ ys" "accept contract (abs s1) ys = Some (abs s2)" by blast
  with xs show ?case by (intro exI [of _ "xs @ ys"]) (simp add: accept_append)
qed simp

end

end
