(* ===== verification/Lifecycle_Props.thy ===== *)
theory Lifecycle_Props
  imports Lifecycle State_Machine
begin

text \<open>
  What the base Starter promises: the order of Start, Drain and Stop calls, the unwinding
  of a failed Start, the joined errors of a Stop, and that no sequence of operations in
  which a Start follows a Stop can panic.
\<close>

named_theorems life_simps \<open>frame equations of the lifecycle operations\<close>

section \<open>The trace of each loop\<close>

definition started_trace :: "('w, 'k) component list \<Rightarrow> event list" where
  "started_trace xs =
     concat (map (\<lambda>x. [StartCall (c_name x), StartedLog (c_name x) (c_tier x)]) xs)"

definition stopped_trace :: "('w, 'k) component list \<Rightarrow> event list" where
  "stopped_trace xs = map (\<lambda>x. StopCall (c_name x)) xs"

definition drained_trace :: "('w, 'k) component list \<Rightarrow> event list" where
  "drained_trace xs =
     concat (map (\<lambda>x. if c_drain x = None then []
                      else [DrainCall (c_name x), DrainedLog (c_name x)]) xs)"

lemma started_trace_Nil [simp]: "started_trace [] = []"
  by (simp add: started_trace_def)

lemma started_trace_Cons [simp]:
  "started_trace (x # xs) =
     StartCall (c_name x) # StartedLog (c_name x) (c_tier x) # started_trace xs"
  by (simp add: started_trace_def)

lemma drained_trace_Nil [simp]: "drained_trace [] = []"
  by (simp add: drained_trace_def)

lemma drained_trace_Cons [simp]:
  "drained_trace (x # xs) =
     (if c_drain x = None then [] else [DrainCall (c_name x), DrainedLog (c_name x)]) @
     drained_trace xs"
  by (simp add: drained_trace_def)

lemma stopped_trace_Nil [simp]: "stopped_trace [] = []"
  by (simp add: stopped_trace_def)

lemma stopped_trace_Cons [simp]:
  "stopped_trace (x # xs) = StopCall (c_name x) # stopped_trace xs"
  by (simp add: stopped_trace_def)

lemma trace_emit [simp]: "trace (emit ev w) = trace w @ [ev]"
  by (simp add: emit_def)

lemma clock_emit [simp]: "clock (emit ev w) = clock w"
  by (simp add: emit_def)

lemma env_emit [simp]: "env (emit ev w) = env w"
  by (simp add: emit_def)

lemma perform_trace: "perform ev f c w = (r, w') \<Longrightarrow> trace w' = trace w @ [ev]"
  by (auto simp: perform_def split: prod.splits)

lemma trace_snd_perform [simp]: "trace (snd (perform ev f c w)) = trace w @ [ev]"
  by (simp add: perform_def split: prod.splits)

text \<open>The fields no step of the start loop writes.\<close>

definition same_frame :: "('w, 'k) app \<Rightarrow> ('w, 'k) app \<Rightarrow> bool" where
  "same_frame a b \<longleftrightarrow>
     a_order b = a_order a \<and> a_comps b = a_comps a \<and> a_life b = a_life a \<and>
     a_epoch b = a_epoch a \<and> a_stop_open b = a_stop_open a \<and> a_closed b = a_closed a \<and>
     a_ready b = a_ready a \<and> a_death b = a_death a \<and> a_level b = a_level a"

lemma same_frame_refl [simp]: "same_frame a a"
  by (simp add: same_frame_def)

lemma watch_frame: "same_frame a (watch n ch (a\<lparr>a_started := k\<rparr>))"
  by (simp add: same_frame_def watch_def split: option.splits)

lemma watch_started [simp]: "a_started (watch n ch a) = a_started a"
  by (simp add: watch_def split: option.splits)

lemma same_frame_trans: "same_frame a b \<Longrightarrow> same_frame b c \<Longrightarrow> same_frame a c"
  by (simp add: same_frame_def)

lemma start_loop_None:
  "start_loop c xs a w = (None, a', w') \<Longrightarrow>
     a_started a' = a_started a + length xs \<and> same_frame a a' \<and>
     trace w' = trace w @ started_trace xs"
proof (induction xs arbitrary: a w)
  case Nil
  then show ?case by simp
next
  case (Cons x xs)
  then obtain ch w1 where p: "perform (StartCall (c_name x)) (c_start x) c w = (Inr ch, w1)"
    and r: "start_loop c xs (watch (c_name x) ch (a\<lparr>a_started := Suc (a_started a)\<rparr>))
              (emit (StartedLog (c_name x) (c_tier x)) w1) = (None, a', w')"
    by (auto split: prod.splits sum.splits)
  from Cons.IH [OF r] perform_trace [OF p] watch_frame [of a "c_name x" ch "Suc (a_started a)"]
  show ?case by (auto dest: same_frame_trans)
qed

lemma start_loop_Some:
  "start_loop c xs a w = (Some e, a', w') \<Longrightarrow>
     \<exists>k e'. k < length xs \<and> a_started a' = a_started a + k \<and> same_frame a a' \<and>
       e = ErrWrap (''start '' @ c_name (xs ! k) @ '': '') e' \<and>
       trace w' = trace w @ started_trace (take k xs) @ [StartCall (c_name (xs ! k))]"
proof (induction xs arbitrary: a w)
  case Nil
  then show ?case by simp
next
  case (Cons x xs)
  show ?case
  proof (cases "fst (perform (StartCall (c_name x)) (c_start x) c w)")
    case (Inl er)
    then obtain w1 where p: "perform (StartCall (c_name x)) (c_start x) c w = (Inl er, w1)"
      by (metis prod.collapse)
    with Cons.prems perform_trace [OF p] show ?thesis
      by (intro exI [of _ 0] exI [of _ er]) auto
  next
    case (Inr ch)
    then obtain w1 where p: "perform (StartCall (c_name x)) (c_start x) c w = (Inr ch, w1)"
      by (metis prod.collapse)
    let ?a = "watch (c_name x) ch (a\<lparr>a_started := Suc (a_started a)\<rparr>)"
    from p Cons.prems have "start_loop c xs ?a (emit (StartedLog (c_name x) (c_tier x)) w1)
        = (Some e, a', w')" by simp
    from Cons.IH [OF this] obtain k e' where k: "k < length xs"
      "a_started a' = Suc (a_started a) + k" "same_frame ?a a'"
      "e = ErrWrap (''start '' @ c_name (xs ! k) @ '': '') e'"
      "trace w' = trace (emit (StartedLog (c_name x) (c_tier x)) w1) @
         started_trace (take k xs) @ [StartCall (c_name (xs ! k))]" by auto
    have "same_frame a a'"
      using watch_frame k(3) by (rule same_frame_trans)
    with k perform_trace [OF p] show ?thesis
      by (intro exI [of _ "Suc k"] exI [of _ e']) auto
  qed
qed

text \<open>The watchers a start loop adds belong to its Components and to its epoch.\<close>

definition fresh_watchers :: "('w, 'k) component list \<Rightarrow> nat \<Rightarrow> watcher list \<Rightarrow> bool" where
  "fresh_watchers xs ep vs \<longleftrightarrow>
     (\<forall>x \<in> set vs. wt_epoch x = ep \<and> wt_name x \<in> set (map c_name xs))"

lemma watch_watchers:
  "\<exists>vs. a_watchers (watch (c_name x) ch a) = a_watchers a @ vs \<and>
     fresh_watchers (x # xs) (a_epoch a) vs"
  by (auto simp: watch_def fresh_watchers_def split: option.splits)

lemma start_loop_watchers:
  "start_loop c xs a w = (r, a', w') \<Longrightarrow>
     \<exists>vs. a_watchers a' = a_watchers a @ vs \<and> fresh_watchers xs (a_epoch a) vs"
proof (induction xs arbitrary: a w)
  case Nil
  then show ?case by (simp add: fresh_watchers_def)
next
  case (Cons x xs)
  show ?case
  proof (cases "fst (perform (StartCall (c_name x)) (c_start x) c w)")
    case (Inl er)
    with Cons.prems show ?thesis
      by (intro exI [of _ "[]"]) (auto simp: fresh_watchers_def split: prod.splits)
  next
    case (Inr ch)
    let ?a = "watch (c_name x) ch (a\<lparr>a_started := Suc (a_started a)\<rparr>)"
    from Inr Cons.prems obtain v where "start_loop c xs ?a v = (r, a', w')"
      by (auto split: prod.splits)
    from Cons.IH [OF this] obtain vs where vs: "a_watchers a' = a_watchers ?a @ vs"
      "fresh_watchers xs (a_epoch ?a) vs" by blast
    obtain us where us: "a_watchers ?a = a_watchers a @ us" "fresh_watchers (x # xs) (a_epoch a) us"
      using watch_watchers [of x ch "a\<lparr>a_started := Suc (a_started a)\<rparr>" xs] by auto
    have "a_epoch ?a = a_epoch a"
      using watch_frame [of a "c_name x" ch "Suc (a_started a)"] by (simp add: same_frame_def)
    with us vs show ?thesis
      by (intro exI [of _ "us @ vs"]) (auto simp: fresh_watchers_def)
  qed
qed

text \<open>The errors of the Stop calls on a list of Components, each with its Component's name.\<close>

fun stop_failures :: "ctx \<Rightarrow> ('w, 'k) component list \<Rightarrow> time \<Rightarrow> 'w \<Rightarrow> (string \<times> 'k goerr) list" where
  "stop_failures c [] t e = []"
| "stop_failures c (x # xs) t e =
     (case c_stop x c t e of
        (None, t', e') \<Rightarrow> stop_failures c xs t' e'
      | (Some er, t', e') \<Rightarrow> (c_name x, er) # stop_failures c xs t' e')"

lemma stop_failures_names: "fst ` set (stop_failures c xs t e) \<subseteq> set (map c_name xs)"
proof (induction xs arbitrary: t e)
  case Nil
  then show ?case by simp
next
  case (Cons x xs)
  obtain r t' e' where "c_stop x c t e = (r, t', e')" by (metis prod_cases3)
  with Cons.IH [of t' e'] show ?case by (cases r) auto
qed

definition stop_error :: "string \<times> 'k goerr \<Rightarrow> 'k goerr" where
  "stop_error = (\<lambda>(n, e). ErrWrap (''stop '' @ n @ '': '') e)"

lemma stop_loop_spec:
  assumes "\<forall>i \<in> set is. i < length ord"
  shows "\<exists>err' w'. stop_loop c ord is err w = Some (err', w') \<and>
     trace w' = trace w @ stopped_trace (map ((!) ord) is) \<and>
     leaves_of err' = leaves_of err @
       map stop_error (stop_failures c (map ((!) ord) is) (clock w) (env w))"
  using assms
proof (induction "is" arbitrary: err w)
  case Nil
  then show ?case by simp
next
  case (Cons i "is")
  obtain r t e where s: "c_stop (ord ! i) c (clock w) (env w) = (r, t, e)"
    by (metis prod_cases3)
  let ?w = "w\<lparr>clock := t, env := e, trace := trace w @ [StopCall (c_name (ord ! i))]\<rparr>"
  have p: "perform (StopCall (c_name (ord ! i))) (c_stop (ord ! i)) c w = (r, ?w)"
    using s by (simp add: perform_def)
  let ?err = "case r of None \<Rightarrow> err
     | Some er \<Rightarrow> errors_join [err, Some (ErrWrap (''stop '' @ c_name (ord ! i) @ '': '') er)]"
  have "stop_loop c ord (i # is) err w = stop_loop c ord is ?err ?w"
    using Cons.prems p by (auto split: option.splits)
  moreover from Cons.IH [of ?err ?w] Cons.prems obtain err' w' where
    "stop_loop c ord is ?err ?w = Some (err', w')"
    "trace w' = trace ?w @ stopped_trace (map ((!) ord) is)"
    "leaves_of err' = leaves_of ?err @ map stop_error (stop_failures c (map ((!) ord) is) t e)"
    by auto
  ultimately show ?case using s by (auto simp: stop_error_def split: option.splits)
qed

lemma drain_loop_spec:
  assumes "\<forall>i \<in> set is. i < length ord"
  shows "\<exists>w'. drain_loop c ord is w = Some w' \<and>
     trace w' = trace w @ drained_trace (map ((!) ord) is)"
  using assms
proof (induction "is" arbitrary: w)
  case Nil
  then show ?case by simp
next
  case (Cons i "is")
  show ?case
  proof (cases "c_drain (ord ! i)")
    case None
    with Cons show ?thesis by simp
  next
    case (Some d)
    let ?w = "emit (DrainedLog (c_name (ord ! i)))
                (snd (perform (DrainCall (c_name (ord ! i))) d c w))"
    from Cons.IH [of ?w] Cons.prems Some show ?thesis by auto
  qed
qed

lemma map_nth_upt: "n \<le> length xs \<Longrightarrow> map ((!) xs) [0..<n] = take n xs"
  by (auto intro: nth_equalityI)

lemma map_nth_rev_upt: "n \<le> length xs \<Longrightarrow> map ((!) xs) (rev [0..<n]) = rev (take n xs)"
  by (simp add: rev_map [symmetric] map_nth_upt)

section \<open>The invariant of the lifecycle\<close>

text \<open>
  What the operations keep between them: the number of running Components never passes the
  length of the order, a stopWatch that is open has not been closed, readiness is only on
  while the whole order runs and its watchers are watched, and no watcher is newer than the
  current channels.
\<close>

definition life_inv :: "('w, 'k) app \<Rightarrow> bool" where
  "life_inv a \<longleftrightarrow>
     a_started a \<le> length (a_order a) \<and>
     (\<forall>ep \<in> set (a_closed a). ep \<le> a_epoch a) \<and>
     (a_stop_open a \<longrightarrow> a_epoch a \<notin> set (a_closed a)) \<and>
     (a_ready a \<longrightarrow> a_started a = length (a_order a) \<and> a_stop_open a) \<and>
     (\<forall>x \<in> set (a_watchers a). wt_epoch x \<le> a_epoch a)"

text \<open>An App that is not running: new, or stopped.\<close>

definition app_idle :: "('w, 'k) app \<Rightarrow> bool" where
  "app_idle a \<longleftrightarrow> life_inv a \<and> a_started a = 0 \<and> \<not> a_ready a"

lemma begin_shutdown_ok:
  assumes "life_inv a"
  shows "\<exists>a'. begin_shutdown a = Some a' \<and> life_inv a' \<and> a_started a' = a_started a \<and>
    a_order a' = a_order a \<and> a_life a' = a_life a \<and> a_comps a' = a_comps a \<and>
    \<not> a_ready a' \<and> \<not> a_stop_open a' \<and> a_epoch a' = a_epoch a"
  using assms by (cases "a_stop_open a") (simp_all add: begin_shutdown_def life_inv_def)

lemma stop_started_spec:
  assumes "a_started a \<le> length (a_order a)"
  shows "\<exists>err w'. stop_started c a w = Some (err, a\<lparr>a_started := 0\<rparr>, w') \<and>
     trace w' = trace w @ stopped_trace (rev (take (a_started a) (a_order a))) \<and>
     leaves_of err = map stop_error
       (stop_failures (with_timeout (clock w) (stop_timeout (a_life a)) c)
          (rev (take (a_started a) (a_order a))) (clock w) (env w))"
proof -
  let ?c = "with_timeout (clock w) (stop_timeout (a_life a)) c"
  from assms have "\<forall>i \<in> set (rev [0..<a_started a]). i < length (a_order a)" by auto
  from stop_loop_spec [OF this, of ?c None w] obtain err w' where
    "stop_loop ?c (a_order a) (rev [0..<a_started a]) None w = Some (err, w')"
    "trace w' = trace w @ stopped_trace (map ((!) (a_order a)) (rev [0..<a_started a]))"
    "leaves_of err = map stop_error
       (stop_failures ?c (map ((!) (a_order a)) (rev [0..<a_started a])) (clock w) (env w))"
    by auto
  then show ?thesis using assms by (auto simp: stop_started_def map_nth_rev_upt)
qed

lemma app_drain_spec:
  assumes "a_started a \<le> length (a_order a)"
  shows "\<exists>w'. app_drain c a w = Some w' \<and>
     trace w' = trace w @ drained_trace (take (a_started a) (a_order a)) @ [DelayWait]"
proof -
  from assms have "\<forall>i \<in> set [0..<a_started a]. i < length (a_order a)" by auto
  from drain_loop_spec [OF this, of c w] obtain w' where
    "drain_loop c (a_order a) [0..<a_started a] w = Some w'"
    "trace w' = trace w @ drained_trace (map ((!) (a_order a)) [0..<a_started a])"
    by auto
  then show ?thesis using assms by (auto simp: app_drain_def map_nth_upt)
qed

lemma trace_shutdown_events [simp]:
  "trace (shutdown_events a w) =
     trace w @ ReadyStore False # (if a_stop_open a then [CloseWatchers] else [])"
  by (simp add: shutdown_events_def)

definition stop_trace :: "('w, 'k) app \<Rightarrow> event list" where
  "stop_trace a =
     ReadyStore False # (if a_stop_open a then [CloseWatchers] else []) @
     drained_trace (take (a_started a) (a_order a)) @ [DelayWait] @
     stopped_trace (rev (take (a_started a) (a_order a)))"

lemma app_stop_spec:
  assumes "life_inv a"
  shows "\<exists>err a' w'. app_stop c a w = Some (err, a', w') \<and> life_inv a' \<and>
     a_started a' = 0 \<and> \<not> a_ready a' \<and> \<not> a_stop_open a' \<and> a_order a' = a_order a \<and>
     a_comps a' = a_comps a \<and> trace w' = trace w @ stop_trace a"
proof -
  from begin_shutdown_ok [OF assms] obtain a1 where a1: "begin_shutdown a = Some a1"
    "life_inv a1" "a_started a1 = a_started a" "a_order a1 = a_order a"
    "a_comps a1 = a_comps a" "\<not> a_ready a1" "\<not> a_stop_open a1" by blast
  then have le: "a_started a1 \<le> length (a_order a1)" by (simp add: life_inv_def)
  from app_drain_spec [OF le] obtain w1 where w1:
    "app_drain c a1 (shutdown_events a w) = Some w1"
    "trace w1 = trace (shutdown_events a w) @
       drained_trace (take (a_started a1) (a_order a1)) @ [DelayWait]" by blast
  from stop_started_spec [OF le] obtain err w2 where w2:
    "stop_started c a1 w1 = Some (err, a1\<lparr>a_started := 0\<rparr>, w2)"
    "trace w2 = trace w1 @ stopped_trace (rev (take (a_started a1) (a_order a1)))" by blast
  have "life_inv (a1\<lparr>a_started := 0\<rparr>)"
    using a1 by (simp add: life_inv_def)
  with a1 w1 w2 show ?thesis by (simp add: app_stop_def stop_trace_def)
qed

section \<open>Start\<close>

lemma reject_duplicates_from_None:
  "reject_duplicates_from seen cs = None \<longleftrightarrow>
     distinct (map c_name cs) \<and> set seen \<inter> set (map c_name cs) = {}"
  by (induction cs arbitrary: seen) auto

lemma reject_None: "reject_duplicate_names a = None \<longleftrightarrow> distinct (map c_name (a_comps a))"
  by (simp add: reject_duplicate_names_def reject_duplicates_from_None)

lemma reject_duplicates_from_Some:
  "reject_duplicates_from seen cs = Some e \<Longrightarrow>
     \<exists>n \<in> set (map c_name cs). e = ErrText (''duplicate component name '' @ quote n)"
  by (induction cs arbitrary: seen) (auto split: if_splits)

lemma filter_sort_key: "filter (\<lambda>x. f x = t) (sort_key f xs) = filter (\<lambda>x. f x = t) xs"
  using sort_key_stable [of f t xs] by simp

definition start_frame :: "('w, 'k) app \<Rightarrow> ('w, 'k) app" where
  "start_frame a = a\<lparr>a_order := sort_key c_tier (a_comps a), a_epoch := Suc (a_epoch a),
                     a_death := None, a_stop_open := True\<rparr>"

lemma start_frame_watchers:
  assumes "start_loop c xs (start_frame a) w = (r, a2, w2)" "life_inv a"
  shows "\<forall>x \<in> set (a_watchers a2). wt_epoch x \<le> Suc (a_epoch a)"
  using start_loop_watchers [OF assms(1)] assms(2)
  by (fastforce simp: fresh_watchers_def start_frame_def life_inv_def)

lemma app_start_cases:
  assumes "app_start c a w = Some (r, a', w')" "distinct (map c_name (a_comps a))"
  obtains (ok) a2 w2 where "r = None" "a' = a2\<lparr>a_ready := True\<rparr>"
      "w' = emit (ReadyStore True) w2"
      "start_loop (with_timeout (clock w) (start_timeout (a_life a)) c)
         (sort_key c_tier (a_comps a)) (start_frame a) w = (None, a2, w2)"
  | (failed) e a2 w2 a3 e2 where
      "start_loop (with_timeout (clock w) (start_timeout (a_life a)) c)
         (sort_key c_tier (a_comps a)) (start_frame a) w = (Some e, a2, w2)"
      "begin_shutdown a2 = Some a3" "r = errors_join [Some e, e2]"
      "stop_started (without_cancel c) a3 (shutdown_events a2 w2) = Some (e2, a', w')"
proof -
  have "reject_duplicate_names a = None" using assms(2) by (simp add: reject_None)
  with assms(1) show thesis
    by (auto simp: app_start_def Let_def start_frame_def
        split: prod.splits option.splits intro: that)
qed

text \<open>
  C1: A Start that returns no error has started every Component, from the lowest Tier to
  the highest; Components of one Tier keep the order they were added in; and the App turns
  ready only after the last of them.
\<close>

theorem start_in_tier_order:
  assumes "app_start c a w = Some (None, a', w')"
  shows "distinct (map c_name (a_comps a)) \<and>
    mset (a_order a') = mset (a_comps a) \<and> sorted (map c_tier (a_order a')) \<and>
    (\<forall>t. filter (\<lambda>x. c_tier x = t) (a_order a') = filter (\<lambda>x. c_tier x = t) (a_comps a)) \<and>
    trace w' = trace w @ started_trace (a_order a') @ [ReadyStore True] \<and>
    a_ready a' \<and> a_started a' = a_started a + length (a_comps a)"
proof -
  have d: "distinct (map c_name (a_comps a))"
    using assms by (auto simp: app_start_def reject_None [symmetric] split: option.splits)
  from assms d show ?thesis
  proof (cases rule: app_start_cases)
    case (ok a2 w2)
    from start_loop_None [OF ok(4)] ok d show ?thesis
      by (simp add: same_frame_def start_frame_def filter_sort_key)
  next
    case (failed e a2 w2 a3 e2)
    then show ?thesis by (metis errors_join_pair_None option.distinct(1))
  qed
qed

definition ex_component :: "string \<Rightarrow> int \<Rightarrow> (unit, unit) component" where
  "ex_component n t = \<lparr>c_name = n, c_tier = t, c_start = (\<lambda>c t w. (Inr None, t, w)),
     c_stop = (\<lambda>c t w. (None, t, w)), c_drain = Some (\<lambda>c t w. ((), t, w)), c_check = None\<rparr>"

definition ex_failing :: "string \<Rightarrow> int \<Rightarrow> (unit, unit) component" where
  "ex_failing n t = (ex_component n t)\<lparr>c_start := (\<lambda>c t w. (Inl (ErrText ''no port''), t, w)),
     c_stop := (\<lambda>c t w. (Some (ErrText ''stuck''), t, w))\<rparr>"

definition ex_app :: "(unit, unit) component list \<Rightarrow> (unit, unit) app" where
  "ex_app cs = \<lparr>a_level = 0, a_json = False,
     a_life = \<lparr>start_timeout = 30, drain_delay = 5, stop_timeout = 10\<rparr>, a_comps = cs,
     a_order = [], a_started = 0, a_ready = False, a_epoch = 0, a_death = None,
     a_stop_open = False, a_closed = [], a_watchers = []\<rparr>"

definition ex_world :: "unit world" where
  "ex_world = \<lparr>clock = 0, env = (), trace = []\<rparr>"

definition ex_ctx :: ctx where
  "ex_ctx = \<lparr>done_at = None\<rparr>"

lemmas ex_defs = ex_component_def ex_failing_def ex_app_def ex_world_def ex_ctx_def

lemmas life_defs = app_start_def reject_duplicate_names_def start_frame_def watch_def
  perform_def emit_def Let_def begin_shutdown_def stop_started_def shutdown_events_def
  app_stop_def app_drain_def

theorem start_in_tier_order_witness:
  "\<exists>a' w'. app_start ex_ctx (ex_app [ex_component ''web'' 2, ex_component ''db'' 1]) ex_world
      = Some (None, a', w') \<and> a_ready a' \<and> a_started a' = 2 \<and>
      trace w' = started_trace (a_order a') @ [ReadyStore True] \<and>
      sorted (map c_tier (a_order a'))"
proof -
  obtain a' w' where s: "app_start ex_ctx
      (ex_app [ex_component ''web'' 2, ex_component ''db'' 1]) ex_world = Some (None, a', w')"
    by (simp add: life_defs ex_defs)
  from start_in_tier_order [OF s] s show ?thesis by (auto simp: ex_app_def ex_world_def)
qed

lemma failed_start_unwinds_lemma:
  assumes "app_idle a" "distinct (map c_name (a_comps a))"
    and "app_start c a w = Some (Some e, a', w')"
  shows "\<exists>k er fs. k < length (a_comps a) \<and>
    (let ord = sort_key c_tier (a_comps a) in
       trace w' = trace w @ started_trace (take k ord) @
         [StartCall (c_name (ord ! k)), ReadyStore False, CloseWatchers] @
         stopped_trace (rev (take k ord)) \<and>
       err_leaves e = ErrWrap (''start '' @ c_name (ord ! k) @ '': '') er # map stop_error fs \<and>
       fst ` set fs \<subseteq> set (map c_name (take k ord))) \<and>
    app_idle a'"
  using assms(3,2)
proof (cases rule: app_start_cases)
  case (failed e1 a2 w2 a3 e2)
  let ?ord = "sort_key c_tier (a_comps a)"
  from start_loop_Some [OF failed(1)] assms(1) obtain k er where k: "k < length ?ord"
    "a_started a2 = k" "same_frame (start_frame a) a2"
    "e1 = ErrWrap (''start '' @ c_name (?ord ! k) @ '': '') er"
    "trace w2 = trace w @ started_trace (take k ?ord) @ [StartCall (c_name (?ord ! k))]"
    by (auto simp: start_frame_def app_idle_def)
  have inv2: "life_inv a2" "a_stop_open a2" "a_order a2 = ?ord"
    using k assms(1) start_frame_watchers [OF failed(1)]
    by (auto simp: app_idle_def life_inv_def same_frame_def start_frame_def)
  from begin_shutdown_ok [OF inv2(1)] failed(2) have a3: "life_inv a3" "a_started a3 = k"
    "a_order a3 = ?ord" "\<not> a_ready a3" "\<not> a_stop_open a3"
    using k(2) inv2(3) by auto
  then have le: "a_started a3 \<le> length (a_order a3)" by (simp add: life_inv_def)
  from stop_started_spec [OF le, of "without_cancel c" "shutdown_events a2 w2"] failed(4) a3(2,3)
  obtain fs where fs: "leaves_of e2 = map stop_error fs"
      "fs = stop_failures (with_timeout (clock (shutdown_events a2 w2))
         (stop_timeout (a_life a3)) (without_cancel c)) (rev (take k ?ord))
         (clock (shutdown_events a2 w2)) (env (shutdown_events a2 w2))"
    and w': "trace w' = trace (shutdown_events a2 w2) @ stopped_trace (rev (take k ?ord))"
    and a': "a' = a3\<lparr>a_started := 0\<rparr>" by auto
  have "app_idle a'" using a3 a' by (simp add: life_inv_def app_idle_def)
  moreover have "leaves_of (Some e) = err_leaves e1 @ map stop_error fs"
    using failed(3) fs(1) by (metis concat.simps leaves_of_Some leaves_of_join
        append_Nil2 list.simps(8,9))
  moreover have "fst ` set fs \<subseteq> set (map c_name (take k ?ord))"
    using stop_failures_names fs(2) by (metis (no_types, lifting) set_rev rev_map)
  ultimately show ?thesis
    using k a3 a' inv2 w' by (intro exI [of _ k] exI [of _ er] exI [of _ fs]) (auto simp: Let_def)
qed simp



lemma duplicate_names_lemma:
  assumes "\<not> distinct (map c_name (a_comps a))"
  shows "\<exists>n \<in> set (map c_name (a_comps a)).
    app_start c a w = Some (Some (ErrText (''duplicate component name '' @ quote n)), a, w)"
proof -
  from assms obtain e where e: "reject_duplicate_names a = Some e"
    using reject_None [of a] by auto
  from reject_duplicates_from_Some [OF e [unfolded reject_duplicate_names_def]] e
  show ?thesis by (auto simp: app_start_def)
qed

text \<open>
  Two Components with one name are refused before anything starts: Start returns an
  error that names one of them, and neither the App nor the world has changed.
\<close>

theorem duplicate_names_refused:
  assumes "\<not> distinct (map c_name (a_comps a))"
  shows "\<exists>n \<in> set (map c_name (a_comps a)).
    app_start c a w = Some (Some (ErrText (''duplicate component name '' @ quote n)), a, w)"
  using assms by (rule duplicate_names_lemma)

theorem duplicate_names_refused_witness:
  "\<exists>n \<in> {''web''}. app_start ex_ctx (ex_app [ex_component ''web'' 2, ex_component ''web'' 0])
     ex_world = Some (Some (ErrText (''duplicate component name '' @ quote n)),
       ex_app [ex_component ''web'' 2, ex_component ''web'' 0], ex_world)"
  using duplicate_names_refused [of "ex_app [ex_component ''web'' 2, ex_component ''web'' 0]"
      ex_ctx ex_world] by (simp add: ex_defs)

section \<open>Stop\<close>

text \<open>
  A Stop runs its phases in order: the App is not ready and the watchers are let go;
  then every Drainer among the running Components is drained, in Start order; then the
  drain delay; then every running Component is stopped, in reverse, and nothing runs.
\<close>

theorem stop_phases_in_order:
  assumes "life_inv a"
  shows "\<exists>err a' w'. app_stop c a w = Some (err, a', w') \<and>
    trace w' = trace w @
      ReadyStore False # (if a_stop_open a then [CloseWatchers] else []) @
      drained_trace (take (a_started a) (a_order a)) @ [DelayWait] @
      stopped_trace (rev (take (a_started a) (a_order a))) \<and> app_idle a'"
  using app_stop_spec [OF assms, of c w] by (auto simp: stop_trace_def app_idle_def)

definition ex_running :: "(unit, unit) app" where
  "ex_running = (ex_app [])\<lparr>a_order := [ex_component ''db'' 1, ex_component ''web'' 2],
     a_started := 2, a_ready := True, a_stop_open := True, a_epoch := 1\<rparr>"

theorem stop_phases_in_order_witness:
  "\<exists>err a' w'. app_stop ex_ctx ex_running ex_world = Some (err, a', w') \<and> app_idle a' \<and>
    trace w' = [ReadyStore False, CloseWatchers, DrainCall ''db'', DrainedLog ''db'',
      DrainCall ''web'', DrainedLog ''web'', DelayWait, StopCall ''web'', StopCall ''db'']"
proof -
  have "life_inv ex_running"
    by (simp add: life_inv_def ex_running_def ex_app_def)
  from stop_phases_in_order [OF this, of ex_ctx ex_world] show ?thesis
    by (auto simp: ex_running_def ex_defs)
qed

text \<open>
  C19: One bad Stop does not hide the rest: Stop is called on every running Component under
  one deadline, and the error that comes back holds exactly the errors of the calls that
  failed, in the order of the calls, each under its Component's name.
\<close>

theorem stop_joins_every_error:
  assumes "a_started a \<le> length (a_order a)"
  shows "\<exists>err w'. stop_started c a w = Some (err, a\<lparr>a_started := 0\<rparr>, w') \<and>
    leaves_of err =
      map (\<lambda>(n, e). ErrWrap (''stop '' @ n @ '': '') e)
        (stop_failures (with_timeout (clock w) (stop_timeout (a_life a)) c)
           (rev (take (a_started a) (a_order a))) (clock w) (env w))"
  using stop_started_spec [OF assms, of c w] by (auto simp: stop_error_def)

theorem stop_joins_every_error_witness:
  "\<exists>err w'. stop_started ex_ctx
      (ex_running\<lparr>a_order := [ex_failing ''db'' 1, ex_failing ''web'' 2]\<rparr>) ex_world =
        Some (err, ex_running\<lparr>a_order := [ex_failing ''db'' 1, ex_failing ''web'' 2],
                              a_started := 0\<rparr>, w') \<and>
    leaves_of err = [ErrWrap ''stop web: '' (ErrText ''stuck''),
                     ErrWrap ''stop db: '' (ErrText ''stuck'')]"
proof -
  let ?a = "ex_running\<lparr>a_order := [ex_failing ''db'' 1, ex_failing ''web'' 2]\<rparr>"
  have "a_started ?a \<le> length (a_order ?a)" by (simp add: ex_running_def)
  from stop_joins_every_error [OF this, of ex_ctx ex_world] show ?thesis
    by (auto simp: ex_running_def ex_defs)
qed

section \<open>Reachable Apps\<close>

text \<open>
  The states an App goes through when one goroutine drives it as goboot.App asks: a Start
  only when nothing is running. Add, Stop, the watcher goroutines and Run's receive from
  the death channel may come at any time.
\<close>

inductive life_reachable :: "('w, 'k) app \<Rightarrow> bool" where
  reach_new: "app_new cfg = Inr a \<Longrightarrow> life_reachable a"
| reach_add: "life_reachable a \<Longrightarrow> life_reachable (app_add cs a)"
| reach_start: "life_reachable a \<Longrightarrow> a_started a = 0 \<Longrightarrow> \<not> a_ready a \<Longrightarrow>
    app_start c a w = Some (r, a', w') \<Longrightarrow> life_reachable a'"
| reach_stop: "life_reachable a \<Longrightarrow> app_stop c a w = Some (r, a', w') \<Longrightarrow> life_reachable a'"
| reach_watch: "life_reachable a \<Longrightarrow> watch_step a a' \<Longrightarrow> life_reachable a'"
| reach_receive: "life_reachable a \<Longrightarrow> life_reachable (a\<lparr>a_death := None\<rparr>)"

lemma life_inv_new: "app_new cfg = Inr a \<Longrightarrow> life_inv a"
  by (auto simp: app_new_def Let_def life_inv_def split: if_splits sum.splits)

lemma app_start_idle:
  assumes "app_idle a" "app_start c a w = Some (r, a', w')"
  shows "life_inv a' \<and> (r = None \<longrightarrow> a_order a' = sort_key c_tier (a_comps a) \<and>
           a_started a' = length (a_comps a)) \<and> (r \<noteq> None \<longrightarrow> app_idle a')"
proof (cases "distinct (map c_name (a_comps a))")
  case True
  from assms(2) True show ?thesis
  proof (cases rule: app_start_cases)
    case (ok a2 w2)
    from start_loop_None [OF ok(4)] start_frame_watchers [OF ok(4)] ok assms(1) show ?thesis
      by (auto simp: same_frame_def start_frame_def life_inv_def app_idle_def)
  next
    case (failed e a2 w2 a3 e2)
    then obtain e' where "r = Some e'" by (cases r) (auto simp: errors_join_def split: list.splits)
    then have "app_idle a'"
      using failed_start_unwinds_lemma [OF assms(1) True, of c w e' a' w'] assms(2) by blast
    with \<open>r = Some e'\<close> show ?thesis by (simp add: app_idle_def)
  qed
next
  case False
  from duplicate_names_lemma [OF False, of c w] assms show ?thesis
    by (auto simp: app_idle_def)
qed

lemma watch_step_frame:
  "watch_step a a' \<Longrightarrow> a_order a' = a_order a \<and> a_started a' = a_started a \<and>
     a_ready a' = a_ready a \<and> a_comps a' = a_comps a \<and> a_epoch a' = a_epoch a \<and>
     a_stop_open a' = a_stop_open a \<and> a_closed a' = a_closed a \<and>
     set (a_watchers a') \<subseteq> set (a_watchers a)"
  by (induction rule: watch_step.induct) (auto simp: offer_death_def)

lemma life_reachable_inv: "life_reachable a \<Longrightarrow> life_inv a"
proof (induction rule: life_reachable.induct)
  case (reach_new cfg a)
  then show ?case by (rule life_inv_new)
next
  case (reach_add a cs)
  then show ?case by (simp add: life_inv_def app_add_def)
next
  case (reach_start a c w r a' w')
  then have "app_idle a" by (simp add: app_idle_def)
  from app_start_idle [OF this reach_start(4)] show ?case by simp
next
  case (reach_stop a c w r a' w')
  from app_stop_spec [OF reach_stop(3), of c w] reach_stop(2) show ?case by auto
next
  case (reach_watch a a')
  then show ?case using watch_step_frame [of a a'] by (auto simp: life_inv_def)
next
  case (reach_receive a)
  then show ?case by (simp add: life_inv_def)
qed

lemma app_start_never_panics:
  assumes idle: "app_idle a"
  shows "app_start c a w \<noteq> None"
proof (cases "distinct (map c_name (a_comps a))")
  case False
  then show ?thesis using duplicate_names_lemma [OF False, of c w] by auto
next
  case True
  let ?ord = "sort_key c_tier (a_comps a)"
  let ?c = "with_timeout (clock w) (start_timeout (a_life a)) c"
  obtain r a2 w2 where s: "start_loop ?c ?ord (start_frame a) w = (r, a2, w2)"
    by (metis prod_cases3)
  have d: "reject_duplicate_names a = None" using True by (simp add: reject_None)
  show ?thesis
  proof (cases r)
    case None
    with s d show ?thesis by (simp add: app_start_def start_frame_def)
  next
    case (Some e)
    from start_loop_Some [OF s [unfolded Some]] start_frame_watchers [OF s] idle have "life_inv a2"
      by (auto simp: start_frame_def same_frame_def app_idle_def life_inv_def)
    then obtain a3 where a3: "begin_shutdown a2 = Some a3" "a_started a3 \<le> length (a_order a3)"
      using begin_shutdown_ok [of a2] by (auto simp: life_inv_def)
    obtain e2 w4 where "stop_started (without_cancel c) a3 (shutdown_events a2 w2) =
        Some (e2, a3\<lparr>a_started := 0\<rparr>, w4)"
      using stop_started_spec [OF a3(2)] by blast
    with s d a3(1) Some show ?thesis by (simp add: app_start_def start_frame_def)
  qed
qed

text \<open>
  C4: However an App is driven, as long as it is started only when it is not running, no
  operation panics (no index out of a.order, no second close of a channel), and the App
  reports ready only while every Component of its order is running.
\<close>

theorem driven_app_never_panics:
  assumes "life_reachable a"
  shows "app_stop c a w \<noteq> None \<and>
    (app_idle a \<longrightarrow> app_start c a w \<noteq> None) \<and>
    (app_is_ready a \<longrightarrow> a_started a = length (a_order a) \<and> a_stop_open a)"
proof -
  have inv: "life_inv a" using assms by (rule life_reachable_inv)
  with app_stop_spec [OF inv, of c w] app_start_never_panics [of a c w] show ?thesis
    by (auto simp: app_is_ready_def life_inv_def)
qed

definition ex_config :: app_config where
  "ex_config = \<lparr>cfg_log = \<lparr>log_level = [], log_format = ''text''\<rparr>,
     cfg_lifecycle = \<lparr>start_timeout = 0, drain_delay = 0, stop_timeout = 0\<rparr>\<rparr>"

theorem driven_app_never_panics_witness:
  "\<exists>a :: (unit, unit) app. app_new ex_config = (Inr a :: unit goerr + _) \<and>
    app_stop ex_ctx (app_add [ex_component ''db'' 1] a) ex_world \<noteq> None"
proof -
  obtain a :: "(unit, unit) app" where a: "app_new ex_config = (Inr a :: unit goerr + _)"
    by (simp add: app_new_def Let_def ex_config_def)
  then have "life_reachable (app_add [ex_component ''db'' 1] a)"
    by (blast intro: life_reachable.intros)
  from driven_app_never_panics [OF this, of ex_ctx ex_world] a show ?thesis by auto
qed

section \<open>Stopping twice, starting twice\<close>

text \<open>
  A second Stop is harmless: it calls no Component, closes nothing, returns no error
  and leaves the App as the first one left it.
\<close>

theorem second_stop_is_harmless:
  assumes "life_inv a" "app_stop c a w = Some (e1, a1, w1)"
  shows "\<exists>w2. app_stop c' a1 w1' = Some (None, a1, w2) \<and>
    trace w2 = trace w1' @ [ReadyStore False, DelayWait]"
proof -
  from app_stop_spec [OF assms(1), of c w] assms(2) have a1:
    "a_started a1 = 0" "\<not> a_ready a1" "\<not> a_stop_open a1" by auto
  then have "a1\<lparr>a_ready := False, a_started := 0\<rparr> = a1" by (cases a1) simp
  with a1 show ?thesis
    by (simp add: app_stop_def begin_shutdown_def app_drain_def stop_started_def
        shutdown_events_def)
qed

theorem second_stop_is_harmless_witness:
  "\<exists>e1 a1 w1 w2. app_stop ex_ctx ex_running ex_world = Some (e1, a1, w1) \<and>
    app_stop ex_ctx a1 w1 = Some (None, a1, w2) \<and>
    trace w2 = trace w1 @ [ReadyStore False, DelayWait]"
proof -
  have inv: "life_inv ex_running"
    by (simp add: life_inv_def ex_running_def ex_app_def)
  obtain e1 a1 w1 where s: "app_stop ex_ctx ex_running ex_world = Some (e1, a1, w1)"
    using app_stop_spec [OF inv, of ex_ctx ex_world] by blast
  from second_stop_is_harmless [OF inv s, of ex_ctx w1] s show ?thesis by blast
qed

lemma drain_loop_out_of_range:
  "\<exists>i \<in> set is. length ord \<le> i \<Longrightarrow> drain_loop c ord is w = None"
  by (induction "is" arbitrary: w) (auto split: option.splits)

lemma app_drain_out_of_range:
  "length (a_order a) < a_started a \<Longrightarrow> app_drain c a w = None"
proof -
  assume gt: "length (a_order a) < a_started a"
  then have "\<exists>i \<in> set [0..<a_started a]. length (a_order a) \<le> i"
    by (intro bexI [of _ "length (a_order a)"]) auto
  from drain_loop_out_of_range [OF this] show ?thesis by (simp add: app_drain_def)
qed

lemma app_stop_out_of_range:
  "length (a_order a) < a_started a \<Longrightarrow> app_stop c a w = None"
  by (auto simp: app_stop_def begin_shutdown_def app_drain_out_of_range split: option.splits)

text \<open>
  What the App asks of its caller is needed: Start counts on from where an earlier
  Start left off, so after a second Start without a Stop between, a Stop (Run's own
  included) indexes a.order out of range and panics.
\<close>

theorem stop_after_second_start_panics:
  assumes "app_start c a w = Some (None, a1, w1)" "0 < a_started a1"
    and "app_start c' a1 w1' = Some (None, a2, w2)"
  shows "app_stop c'' a2 w2' = None"
proof -
  have d: "distinct (map c_name (a_comps a1))"
    using assms(3) by (auto simp: app_start_def reject_None [symmetric] split: option.splits)
  from assms(3) d show ?thesis
  proof (cases rule: app_start_cases)
    case (ok a3 w3)
    from start_loop_None [OF ok(4)] have "a_order a3 = sort_key c_tier (a_comps a1)"
      "a_started a3 = a_started a1 + length (a_comps a1)"
      by (auto simp: same_frame_def start_frame_def)
    with ok(2) assms(2) have gt: "length (a_order a2) < a_started a2" by simp
    then show ?thesis by (rule app_stop_out_of_range)
  next
    case (failed e a2 w2 a3 e2)
    then show ?thesis by (metis errors_join_pair_None option.distinct(1))
  qed
qed

theorem stop_after_second_start_panics_witness:
  "\<exists>a1 w1 a2 w2. app_start ex_ctx (ex_app [ex_component ''db'' 1]) ex_world = Some (None, a1, w1) \<and>
    app_start ex_ctx a1 w1 = Some (None, a2, w2) \<and> app_stop ex_ctx a2 w2 = None"
proof -
  obtain a1 w1 where s1: "app_start ex_ctx (ex_app [ex_component ''db'' 1]) ex_world
      = Some (None, a1, w1)" and "0 < a_started a1" and a1: "a_comps a1 = [ex_component ''db'' 1]"
    by (simp add: life_defs ex_defs)
  moreover obtain a2 w2 where "app_start ex_ctx a1 w1 = Some (None, a2, w2)"
    using a1 by (simp add: life_defs ex_defs)
  ultimately show ?thesis
    using stop_after_second_start_panics [of ex_ctx _ ex_world a1 w1 ex_ctx w1 a2 w2 ex_ctx w2]
    by blast
qed

section \<open>Run\<close>

fun started_names :: "event list \<Rightarrow> string list" where
  "started_names [] = []"
| "started_names (StartedLog n t # es) = n # started_names es"
| "started_names (e # es) = started_names es"

fun stopped_names :: "event list \<Rightarrow> string list" where
  "stopped_names [] = []"
| "stopped_names (StopCall n # es) = n # stopped_names es"
| "stopped_names (e # es) = stopped_names es"

lemma started_names_append [simp]: "started_names (xs @ ys) = started_names xs @ started_names ys"
  by (induction xs rule: started_names.induct) auto

lemma stopped_names_append [simp]: "stopped_names (xs @ ys) = stopped_names xs @ stopped_names ys"
  by (induction xs rule: stopped_names.induct) auto

lemma names_of_traces [simp]:
  "started_names (started_trace xs) = map c_name xs"
  "stopped_names (started_trace xs) = []"
  "started_names (stopped_trace xs) = []"
  "stopped_names (stopped_trace xs) = map c_name xs"
  "started_names (drained_trace xs) = []"
  "stopped_names (drained_trace xs) = []"
  by (induction xs) auto

lemma watch_steps_frame:
  "watch_step\<^sup>*\<^sup>* a a' \<Longrightarrow> a_order a' = a_order a \<and> a_started a' = a_started a \<and>
     a_ready a' = a_ready a \<and> a_comps a' = a_comps a \<and> a_epoch a' = a_epoch a \<and>
     a_stop_open a' = a_stop_open a \<and> a_closed a' = a_closed a \<and>
     set (a_watchers a') \<subseteq> set (a_watchers a)"
  by (induction rule: rtranclp_induct) (auto dest: watch_step_frame)

lemma start_trace_ok:
  fixes a :: "('w, 'k) app"
  assumes "app_start c a w = Some (None, a1, w1)"
  shows "\<exists>xs :: ('w, 'k) component list. trace w1 = trace w @ started_trace xs @ [ReadyStore True]"
proof -
  have d: "distinct (map c_name (a_comps a))"
    using assms by (auto simp: app_start_def reject_None [symmetric] split: option.splits)
  from assms d show ?thesis
  proof (cases rule: app_start_cases)
    case (ok b v)
    then have "trace w1 = trace w @ started_trace (sort_key c_tier (a_comps a)) @ [ReadyStore True]"
      using start_loop_None [OF ok(4)] by simp
    then show ?thesis by blast
  next
    case (failed e b v b3 e2)
    then show ?thesis by (metis errors_join_pair_None option.distinct(1))
  qed
qed

text \<open>The trace of a Start that returned no error, and that its stopWatch is open.\<close>

lemma started_in_order:
  assumes "app_idle a" "app_start c a w = Some (None, a1, w1)"
  shows "trace w1 = trace w @ started_trace (sort_key c_tier (a_comps a)) @ [ReadyStore True] \<and> a_stop_open a1"
proof -
  have d: "distinct (map c_name (a_comps a))"
    using assms(2) by (auto simp: app_start_def reject_None [symmetric] split: option.splits)
  from assms(2) d show ?thesis
  proof (cases rule: app_start_cases)
    case (ok a2 w2)
    from start_loop_None [OF ok(4)] ok show ?thesis by (auto simp: same_frame_def start_frame_def)
  next
    case (failed e a2 w2 a3 e2)
    then show ?thesis by (metis errors_join_pair_None option.distinct(1))
  qed
qed

text \<open>Start and then Stop, with only watcher steps between, stops what it started.\<close>

lemma start_then_stop_balanced:
  assumes idle: "app_idle a" and start: "app_start cc a w = Some (None, a1, w1)"
    and frame: "a_order a2 = a_order a1" "a_started a2 = a_started a1" "life_inv a2"
    and stop: "app_stop c a2 w2 = Some (err, a3, w3)"
    and tr: "trace w2 = trace w1 @ mid" "started_names mid = []" "stopped_names mid = []"
  shows "app_idle a3 \<and> (\<exists>new. trace w3 = trace w @ new \<and>
           stopped_names new = rev (started_names new))"
proof -
  let ?ord = "sort_key c_tier (a_comps a)"
  have w1: "trace w1 = trace w @ started_trace ?ord @ [ReadyStore True]"
    using started_in_order [OF idle start] by simp
  from app_start_idle [OF idle start] have a1: "a_order a1 = ?ord" "a_started a1 = length ?ord"
    by auto
  from app_stop_spec [OF frame(3), of c w2] stop have s:
    "app_idle a3" "trace w3 = trace w2 @ stop_trace a2"
    by (auto simp: app_idle_def)
  have "started_names (stop_trace a2) = []" "stopped_names (stop_trace a2) = map c_name (rev ?ord)"
    using frame a1 by (simp_all add: stop_trace_def)
  with s w1 tr show ?thesis by (auto simp: rev_map)
qed

lemma run_balanced:
  assumes "app_idle a" "app_run c sig a w r a' w'"
  shows "app_idle a' \<and> (\<exists>new. trace w' = trace w @ new \<and>
           stopped_names new = rev (started_names new))"
  using assms(2)
proof cases
  case (run_start_fails e)
  show ?thesis
  proof (cases "distinct (map c_name (a_comps a))")
    case False
    from duplicate_names_lemma [OF False, of "notify_context c sig" w] run_start_fails assms(1)
    show ?thesis by auto
  next
    case True
    from failed_start_unwinds_lemma [OF assms(1) True run_start_fails(2)] show ?thesis
      by (auto simp: Let_def rev_map)
  qed
next
  case (run_signal a1 w1 a2 t e err)
  have inv: "life_inv a2"
    using app_start_idle [OF assms(1) run_signal(2)] watch_steps_frame [OF run_signal(3)]
    by (auto simp: life_inv_def)
  show ?thesis
    by (rule start_then_stop_balanced [OF assms(1) run_signal(2) _ _ inv run_signal(6)])
       (use watch_steps_frame [OF run_signal(3)] in auto)
next
  case (run_death a1 w1 a2 t d e err)
  have inv: "life_inv (a2\<lparr>a_death := None\<rparr>)"
    using app_start_idle [OF assms(1) run_death(2)] watch_steps_frame [OF run_death(3)]
    by (auto simp: life_inv_def)
  show ?thesis
    by (rule start_then_stop_balanced [OF assms(1) run_death(2) _ _ inv run_death(6)])
       (use watch_steps_frame [OF run_death(3)] in auto)
qed

text \<open>
  Whichever way a Run ends (a Start that fails, a signal, a death), every Component it
  started has been stopped, exactly once and in the reverse order, and the App is idle.
\<close>

theorem run_stops_what_it_started:
  assumes "app_idle a" "app_run c sig a w r a' w'"
  shows "app_idle a' \<and> (\<exists>new. trace w' = trace w @ new \<and>
           stopped_names new = rev (started_names new))"
  using assms by (rule run_balanced)

definition ex_dying :: "string \<Rightarrow> int \<Rightarrow> (unit, unit) component" where
  "ex_dying n t = (ex_component n t)\<lparr>c_start := (\<lambda>c t w. (Inr (Some 7), t, w))\<rparr>"

text \<open>A Run of one Component that dies: its watcher's step, and the wake-up by the death.\<close>

lemma ex_run_by_death:
  "\<exists>r a' w'. app_run ex_ctx None (ex_app [ex_dying ''web'' 2]) ex_world r a' w' \<and>
     trace w' = [StartCall ''web'', StartedLog ''web'' 2, ReadyStore True, RunningLog, DiedLog,
       ShuttingDownLog, ReadyStore False, CloseWatchers, DrainCall ''web'', DrainedLog ''web'',
       DelayWait, StopCall ''web''] \<and> app_idle (ex_app [ex_dying ''web'' 2])"
proof -
  let ?a = "ex_app [ex_dying ''web'' 2]"
  have nc: "notify_context ex_ctx None = ex_ctx" by (simp add: notify_context_def)
  have "\<exists>a1 w1. app_start ex_ctx ?a ex_world = Some (None, a1, w1) \<and>
      a_watchers a1 = [\<lparr>wt_name = ''web'', wt_chan = 7, wt_epoch = 1\<rparr>] \<and>
      a_epoch a1 = 1 \<and> a_death a1 = None \<and> clock w1 = 0 \<and> a_order a1 = [ex_dying ''web'' 2] \<and>
      a_started a1 = 1 \<and> a_closed a1 = [] \<and> a_stop_open a1 \<and>
      trace w1 = [StartCall ''web'', StartedLog ''web'' 2, ReadyStore True]"
    by (simp add: life_defs ex_defs ex_dying_def)
  then obtain a1 w1 where s: "app_start ex_ctx ?a ex_world = Some (None, a1, w1)"
    and a1: "a_watchers a1 = [\<lparr>wt_name = ''web'', wt_chan = 7, wt_epoch = 1\<rparr>]"
      "a_epoch a1 = 1" "a_death a1 = None" "clock w1 = 0" "a_order a1 = [ex_dying ''web'' 2]"
      "a_started a1 = 1" "a_closed a1 = []" "a_stop_open a1"
      "trace w1 = [StartCall ''web'', StartedLog ''web'' 2, ReadyStore True]"
    by blast
  let ?d = "death_error ''web'' (Some (ErrText ''eof''))"
  let ?a2 = "a1\<lparr>a_watchers := [], a_death := Some ?d\<rparr>"
  have "watch_step a1 (offer_death 1 ?d (a1\<lparr>a_watchers := [] @ []\<rparr>))"
    using watcher_dies [of a1 "[]" "\<lparr>wt_name = ''web'', wt_chan = 7, wt_epoch = 1\<rparr>" "[]"
        "Some (ErrText ''eof'')"] a1 by simp
  then have st: "watch_step\<^sup>*\<^sup>* a1 ?a2" using a1 by (simp add: offer_death_def)
  let ?w2 = "emit ShuttingDownLog (emit DiedLog (emit RunningLog w1\<lparr>clock := 9, env := ()\<rparr>))"
  have "life_inv (?a2\<lparr>a_death := None\<rparr>)" using a1 by (simp add: life_inv_def)
  from app_stop_spec [OF this, of "without_cancel ex_ctx" ?w2] obtain err a3 w3 where
    stop: "app_stop (without_cancel ex_ctx) (?a2\<lparr>a_death := None\<rparr>) ?w2 = Some (err, a3, w3)"
    and "trace w3 = trace ?w2 @ stop_trace (?a2\<lparr>a_death := None\<rparr>)" by blast
  then have t3: "trace w3 = [StartCall ''web'', StartedLog ''web'' 2, ReadyStore True, RunningLog,
      DiedLog, ShuttingDownLog, ReadyStore False, CloseWatchers, DrainCall ''web'',
      DrainedLog ''web'', DelayWait, StopCall ''web'']"
    using a1 by (simp add: stop_trace_def ex_dying_def ex_component_def)
  have "app_run ex_ctx None ?a ex_world (errors_join [Some ?d, err]) a3 w3"
    using run_death [of ex_ctx None ?a ex_world a1 w1 ?a2 9 ?d "()" err a3 w3] s st stop a1
    by (simp add: nc)
  moreover have "app_idle ?a" by (simp add: app_idle_def life_inv_def ex_app_def)
  ultimately show ?thesis using t3 by blast
qed

theorem run_stops_what_it_started_witness:
  "\<exists>r a' w'. app_run ex_ctx None (ex_app [ex_dying ''web'' 2]) ex_world r a' w' \<and>
     app_idle a' \<and> (\<exists>new. trace w' = trace ex_world @ new \<and>
       stopped_names new = rev (started_names new))"
proof -
  obtain r a' w' where r: "app_run ex_ctx None (ex_app [ex_dying ''web'' 2]) ex_world r a' w'"
    "app_idle (ex_app [ex_dying ''web'' 2])" using ex_run_by_death by blast
  from run_stops_what_it_started [OF r(2,1)] r(1) show ?thesis by blast
qed

text \<open>A death in the current channel came from a watcher this Start made.\<close>

definition deaths_from :: "string set \<Rightarrow> ('w, 'k) app \<Rightarrow> bool" where
  "deaths_from ns a \<longleftrightarrow>
     (\<forall>x \<in> set (a_watchers a). wt_epoch x = a_epoch a \<longrightarrow> wt_name x \<in> ns) \<and>
     (\<forall>d. a_death a = Some d \<longrightarrow> (\<exists>n \<in> ns. \<exists>e. d = death_error n e))"

lemma deaths_from_start:
  assumes "app_idle a" "app_start c a w = Some (None, a1, w1)"
  shows "deaths_from (set (map c_name (a_comps a))) a1"
proof -
  have d: "distinct (map c_name (a_comps a))"
    using assms(2) by (auto simp: app_start_def reject_None [symmetric] split: option.splits)
  from assms(2) d show ?thesis
  proof (cases rule: app_start_cases)
    case (ok a2 w2)
    from start_loop_watchers [OF ok(4)] start_loop_None [OF ok(4)] ok(2) assms(1) show ?thesis
      by (fastforce simp: deaths_from_def fresh_watchers_def same_frame_def start_frame_def
          app_idle_def life_inv_def)
  next
    case (failed e a2 w2 a3 e2)
    then show ?thesis by (metis errors_join_pair_None option.distinct(1))
  qed
qed

lemma watch_step_deaths: "watch_step a a' \<Longrightarrow> deaths_from ns a \<Longrightarrow> deaths_from ns a'"
  by (induction rule: watch_step.induct)
     (auto simp: deaths_from_def offer_death_def split: if_splits)

interpretation deaths: kept_by_steps watch_step "deaths_from ns" for ns
  by unfold_locales (rule watch_step_deaths)

lemmas watch_steps_deaths = deaths.run_keeps

lemma no_DiedLog_started [simp]: "DiedLog \<notin> set (started_trace xs)"
  by (induction xs) auto

lemma no_DiedLog_stopped [simp]: "DiedLog \<notin> set (stopped_trace xs)"
  by (induction xs) auto

lemma no_DiedLog_drained [simp]: "DiedLog \<notin> set (drained_trace xs)"
  by (induction xs) auto

lemma no_DiedLog_stop [simp]: "DiedLog \<notin> set (stop_trace a)"
  by (simp add: stop_trace_def)

text \<open>
  When Run comes back because a Component died, its error is not nil and begins with
  that death, under the name of a Component of the App; the errors of Stop follow it.
\<close>

theorem run_reports_the_death:
  fixes a :: "('w, 'k) app"
  assumes "app_idle a" "app_run c sig a w r a' w'" "trace w' = trace w @ new" "DiedLog \<in> set new"
  shows "\<exists>x \<in> set (a_comps a). \<exists>e err. r = errors_join [Some (death_error (c_name x) e), err] \<and>
    leaves_of r = death_error (c_name x) e # leaves_of err"
  using assms(2)
proof cases
  case (run_start_fails e)
  have "DiedLog \<notin> set new"
  proof (cases "distinct (map c_name (a_comps a))")
    case False
    from duplicate_names_lemma [OF False, of "notify_context c sig" w] run_start_fails assms(3)
    show ?thesis by auto
  next
    case True
    from failed_start_unwinds_lemma [OF assms(1) True run_start_fails(2)] assms(3) show ?thesis
      by (auto simp: Let_def)
  qed
  with assms(4) show ?thesis by simp
next
  case (run_signal a1 w1 a2 t e err)
  have inv: "life_inv a2"
    using app_start_idle [OF assms(1) run_signal(2)] watch_steps_frame [OF run_signal(3)]
    by (auto simp: life_inv_def)
  from app_stop_spec [OF inv, of "without_cancel c"
      "emit ShuttingDownLog (emit RunningLog w1\<lparr>clock := t, env := e\<rparr>)"] run_signal(6)
  have "trace w' = trace w1 @ [RunningLog, ShuttingDownLog] @ stop_trace a2" by auto
  moreover from start_trace_ok [OF run_signal(2)] obtain xs :: "('w, 'k) component list" where
    "trace w1 = trace w @ started_trace xs @ [ReadyStore True]" by blast
  ultimately have "DiedLog \<notin> set new" using assms(3) by auto
  with assms(4) show ?thesis by simp
next
  case (run_death a1 w1 a2 t d e err)
  have "deaths_from (set (map c_name (a_comps a))) a2"
    using deaths_from_start [OF assms(1) run_death(2)] run_death(3) by (auto intro: watch_steps_deaths)
  then obtain x er where "x \<in> set (a_comps a)" "d = death_error (c_name x) er"
    using run_death(5) by (auto simp: deaths_from_def)
  moreover have "err_leaves (death_error (c_name x) er) = [death_error (c_name x) er]"
    by (simp add: death_error_def split: option.splits)
  ultimately show ?thesis using run_death(1)
    by (intro bexI [of _ x] exI [of _ er] exI [of _ err]) simp_all
qed

theorem run_reports_the_death_witness:
  "\<exists>r a' w'. app_run ex_ctx None (ex_app [ex_dying ''web'' 2]) ex_world r a' w' \<and>
     (\<exists>e err. r = errors_join [Some (death_error ''web'' e), err])"
proof -
  obtain r a' w' where r: "app_run ex_ctx None (ex_app [ex_dying ''web'' 2]) ex_world r a' w'"
    "DiedLog \<in> set (trace w')" "app_idle (ex_app [ex_dying ''web'' 2])"
    using ex_run_by_death by auto
  from run_reports_the_death [OF r(3,1) _ r(2)] r(1) show ?thesis
    by (auto simp: ex_world_def ex_app_def ex_dying_def ex_component_def)
qed

end
