(* ===== verification/Config.thy ===== *)
theory Config
  imports Go_Errors "HOL-Library.AList" "HOL-Library.List_Lexorder" "HOL-Library.Char_ord"
    "HOL-Library.Multiset"
begin

text \<open>
  goboot.Load (config.go): the layers it reads, the relaxed key of every layer, the merge,
  and the typing of the text values of the environment and of properties files.

  A \<open>map[string]any\<close> is an association list with distinct keys; where the code ranges
  over such a map, the order of the list is the order the range happens to take. Values
  the merge never looks into (floats, lists, nulls) come from outside as \<open>COther\<close>.
  What the code takes from elsewhere is collected in \<open>externals\<close>: the YAML decoder, the
  binary floating-point numbers of strconv, and the lower case of the runes outside ASCII.
\<close>

datatype 'y cval =
    CBool bool
  | CInt int
  | CStr string
  | COther 'y
  | CMap "(string \<times> 'y cval) list"

type_synonym 'y cmap = "(string \<times> 'y cval) list"

text \<open>
  \<open>x_lower\<close> maps the bytes of one rune outside ASCII to the bytes of its lower case;
  \<open>x_float\<close> is the float a text stands for, where formatting that float gives the text
  back; \<open>x_flow_list\<close> is the YAML decoder on a flow list; \<open>x_yaml\<close> is the YAML decoder
  on a document.
\<close>

record ('y, 'k) externals =
  x_lower :: "string \<Rightarrow> string"
  x_float :: "string \<Rightarrow> 'y option"
  x_flow_list :: "string \<Rightarrow> 'y option"
  x_yaml :: "string \<Rightarrow> 'k goerr + 'y cmap"

section \<open>The relaxed key\<close>

text \<open>
  unicode.ToLower on one rune of a range loop; an ill-formed byte has become U+FFFD, whose
  encoding WriteRune writes.
\<close>

definition rune_error :: string where
  "rune_error = [CHR 0xEF, CHR 0xBF, CHR 0xBD]"

definition lower_rune :: "('y, 'k) externals \<Rightarrow> string \<Rightarrow> string" where
  "lower_rune x r =
     (case r of
        [c] \<Rightarrow> if byte_of c < (128::nat) then [lower_byte c] else rune_error
      | _ \<Rightarrow> x_lower x r)"

definition canon :: "('y, 'k) externals \<Rightarrow> string \<Rightarrow> string" where
  "canon x k =
     concat (map (lower_rune x) (filter (\<lambda>r. r \<noteq> ''-'' \<and> r \<noteq> ''_'') (runes k)))"

fun canon_map_from :: "('y, 'k) externals \<Rightarrow> (string \<times> string) list \<Rightarrow> 'y cmap \<Rightarrow> 'y cmap \<Rightarrow>
    'k goerr + 'y cmap" where
  "canon_map_from x seen out [] = Inr out"
| "canon_map_from x seen out ((k, CMap sub) # m) =
     (case map_of seen (canon x k) of
        Some first \<Rightarrow> Inl (ErrText (quote first @ '' and '' @ quote k @ '' are the same key''))
      | None \<Rightarrow>
          (case canon_map_from x [] [] sub of
             Inl e \<Rightarrow> Inl (ErrWrap (k @ '': '') e)
           | Inr s \<Rightarrow> canon_map_from x (AList.update (canon x k) k seen)
                       (AList.update (canon x k) (CMap s) out) m))"
| "canon_map_from x seen out ((k, v) # m) =
     (case map_of seen (canon x k) of
        Some first \<Rightarrow> Inl (ErrText (quote first @ '' and '' @ quote k @ '' are the same key''))
      | None \<Rightarrow> canon_map_from x (AList.update (canon x k) k seen)
                 (AList.update (canon x k) v out) m)"

definition canon_map :: "('y, 'k) externals \<Rightarrow> 'y cmap \<Rightarrow> 'k goerr + 'y cmap" where
  "canon_map x m = canon_map_from x [] [] m"

text \<open>
  \<open>set\<close> of config.go. strings.Split never returns an empty path, so the first equation is
  never used.
\<close>

fun set_path :: "('y, 'k) externals \<Rightarrow> string list \<Rightarrow> 'y cval \<Rightarrow> 'y cmap \<Rightarrow> 'y cmap" where
  "set_path x [] v m = m"
| "set_path x [p] v m = AList.update (canon x p) v m"
| "set_path x (p # q # ps) v m =
     (let next = (case map_of m (canon x p) of Some (CMap s) \<Rightarrow> s | _ \<Rightarrow> [])
      in AList.update (canon x p) (CMap (set_path x (q # ps) v next)) m)"

text \<open>merge lays src over dst; the range over src is the recursion.\<close>

fun merge :: "'y cmap \<Rightarrow> 'y cmap \<Rightarrow> 'y cmap" where
  "merge dst [] = dst"
| "merge dst ((k, CMap sub) # src) =
     merge (AList.update k
              (case map_of dst k of Some (CMap cur) \<Rightarrow> CMap (merge cur sub) | _ \<Rightarrow> CMap sub) dst)
       src"
| "merge dst ((k, v) # src) = merge (AList.update k v dst) src"

section \<open>Typed values\<close>

definition parse_value :: "('y, 'k) externals \<Rightarrow> string \<Rightarrow> 'y cval" where
  "parse_value x v =
     (if v = ''true'' then CBool True
      else if v = ''false'' then CBool False
      else (case (case parse_int64 v of
                    Some n \<Rightarrow> if format_int n = v then Some n else None
                  | None \<Rightarrow> None) of
              Some n \<Rightarrow> CInt n
            | None \<Rightarrow>
                (case x_float x v of
                   Some f \<Rightarrow> COther f
                 | None \<Rightarrow>
                     if has_prefix v ''['' then
                       (case x_flow_list x v of Some l \<Rightarrow> COther l | None \<Rightarrow> CStr v)
                     else CStr v)))"

definition first_separator :: "string \<Rightarrow> nat option" where
  "first_separator s =
     (case (str_index s ''='', str_index s '':'') of
        (None, colon) \<Rightarrow> colon
      | (Some eq, None) \<Rightarrow> Some eq
      | (Some eq, Some colon) \<Rightarrow> Some (min eq colon))"

section \<open>Properties files\<close>

datatype property_line = SkipLine | BadLine string | KeyValue "string list" string

definition properties_line :: "string \<Rightarrow> property_line" where
  "properties_line line =
     (let s = trim_space line in
      if s = [] \<or> has_prefix s ''#'' \<or> has_prefix s ''!'' then SkipLine
      else if contains s [CHR 0x5C, CHR ''u'']
        then BadLine (CHR 0x5C # ''uXXXX escapes are not supported'')
      else if has_suffix s [CHR 0x5C] then BadLine ''line continuations are not supported''
      else (case first_separator s of
              None \<Rightarrow> BadLine ''no = or : separator''
            | Some i \<Rightarrow>
                (let key = trim_space (take i s) in
                 if key = [] then BadLine ''empty key''
                 else if contains key [CHR 0x5C]
                   then BadLine ''an escape inside a key is not supported''
                 else if contains_any key ''[]''
                   then BadLine ''indexed keys are not supported; use YAML, or bare commas''
                 else KeyValue (split_on key ''.'') (trim_space (drop (Suc i) s)))))"

fun parse_properties_from :: "('y, 'k) externals \<Rightarrow> nat \<Rightarrow> string list \<Rightarrow> 'y cmap \<Rightarrow>
    'k goerr + 'y cmap" where
  "parse_properties_from x i [] m = Inr m"
| "parse_properties_from x i (line # ls) m =
     (case properties_line line of
        SkipLine \<Rightarrow> parse_properties_from x (Suc i) ls m
      | BadLine msg \<Rightarrow> Inl (ErrText (''line '' @ format_int (int (i + 1)) @ '': '' @ msg))
      | KeyValue path v \<Rightarrow>
          parse_properties_from x (Suc i) ls (set_path x path (parse_value x v) m))"

definition parse_properties :: "('y, 'k) externals \<Rightarrow> string \<Rightarrow> 'k goerr + 'y cmap" where
  "parse_properties x b = parse_properties_from x 0 (split_on b newline) []"

definition parse_yaml :: "('y, 'k) externals \<Rightarrow> string \<Rightarrow> 'k goerr + 'y cmap" where
  "parse_yaml x b = (case x_yaml x b of Inl e \<Rightarrow> Inl e | Inr m \<Rightarrow> canon_map x m)"

section \<open>Paths\<close>

text \<open>filepath.Ext and filepath.Base with the separator \<open>/\<close>.\<close>

definition path_ext :: "string \<Rightarrow> string" where
  "path_ext p =
     (let r = takeWhile (\<lambda>c. c \<noteq> CHR ''.'' \<and> c \<noteq> CHR ''/'') (rev p);
          rest = drop (length r) (rev p)
      in case rest of c # _ \<Rightarrow> if c = CHR ''.'' then CHR ''.'' # rev r else [] | [] \<Rightarrow> [])"

definition path_base :: "string \<Rightarrow> string" where
  "path_base p =
     (if p = [] then ''.''
      else (let q = dropWhile (\<lambda>c. c = CHR ''/'') (rev p)
            in if q = [] then ''/'' else rev (takeWhile (\<lambda>c. c \<noteq> CHR ''/'') q)))"

definition profile_name :: "string \<Rightarrow> string \<Rightarrow> string" where
  "profile_name path profile =
     (let ext = path_ext path in trim_suffix path ext @ ''-'' @ profile @ ext)"

datatype config_format = Yaml | Properties

definition parser_for :: "string \<Rightarrow> 'k goerr + config_format" where
  "parser_for path =
     (let ext = path_ext path in
      if ext = ''.yaml'' \<or> ext = ''.yml'' then Inr Yaml
      else if ext = ''.properties'' then Inr Properties
      else Inl (ErrText (''config '' @ path @ '': unsupported file extension '' @ quote ext)))"

definition parse_as :: "('y, 'k) externals \<Rightarrow> config_format \<Rightarrow> string \<Rightarrow> 'k goerr + 'y cmap" where
  "parse_as x f = (case f of Yaml \<Rightarrow> parse_yaml x | Properties \<Rightarrow> parse_properties x)"

section \<open>Layers\<close>

datatype source = Embedded string | Disk string

record layer =
  l_label :: string
  l_source :: source
  l_required :: bool

definition file_layers :: "bool \<Rightarrow> string \<Rightarrow> string \<Rightarrow> layer list" where
  "file_layers has_defaults path profile =
     (if has_defaults then
        (let base = path_base path in
         \<lparr>l_label = ''embedded '' @ base, l_source = Embedded base, l_required = True\<rparr> #
         (if profile \<noteq> [] then
            (let name = profile_name base profile in
             [\<lparr>l_label = ''embedded '' @ name, l_source = Embedded name, l_required = False\<rparr>])
          else []))
      else []) @
     \<lparr>l_label = path, l_source = Disk path, l_required = \<not> has_defaults\<rparr> #
     (if profile \<noteq> [] then
        (let name = profile_name path profile in
         [\<lparr>l_label = name, l_source = Disk name, l_required = False\<rparr>])
      else [])"

text \<open>os.Environ is a list of \<open>KEY=value\<close> strings.\<close>

fun profile_of :: "('y, 'k) externals \<Rightarrow> string \<Rightarrow> string list \<Rightarrow> string" where
  "profile_of x prefix [] = []"
| "profile_of x prefix (kv # environ) =
     (case cut kv ''='' of
        (k, v, _) \<Rightarrow>
          if has_prefix k prefix \<and> canon x (trim_prefix k prefix) = ''profile'' then v
          else profile_of x prefix environ)"

definition env_entry :: "('y, 'k) externals \<Rightarrow> string \<Rightarrow> string \<Rightarrow> 'y cmap \<Rightarrow> 'y cmap" where
  "env_entry x prefix kv m =
     (case cut kv ''='' of
        (k, v, _) \<Rightarrow>
          if \<not> has_prefix k prefix then m
          else (let name = trim_prefix k prefix in
                if canon x name = ''profile'' then m
                else set_path x (split_on name ''__'') (parse_value x v) m))"

definition env_layer :: "('y, 'k) externals \<Rightarrow> string \<Rightarrow> string list \<Rightarrow> 'y cmap" where
  "env_layer x prefix environ = fold (env_entry x prefix) (sort environ) []"

section \<open>Load\<close>

text \<open>
  What Load reads of the machine: \<open>m_read\<close> is fs.ReadFile on the embedded file system and
  os.ReadFile on the disk; \<open>m_not_exist\<close> is the test for fs.ErrNotExist on the errors of
  the two; \<open>m_environ\<close> is os.Environ.
\<close>

record 'k machine =
  m_has_defaults :: bool
  m_read :: "source \<Rightarrow> 'k goerr + string"
  m_not_exist :: "'k \<Rightarrow> bool"
  m_environ :: "string list"

fun load_layers :: "('y, 'k) externals \<Rightarrow> 'k machine \<Rightarrow> config_format \<Rightarrow> layer list \<Rightarrow> 'y cmap \<Rightarrow>
    'k goerr + 'y cmap" where
  "load_layers x mc f [] merged = Inr merged"
| "load_layers x mc f (l # ls) merged =
     (case m_read mc (l_source l) of
        Inl e \<Rightarrow>
          if errors_is (m_not_exist mc) e \<and> \<not> l_required l then load_layers x mc f ls merged
          else Inl (ErrWrap (''config '' @ l_label l @ '': '') e)
      | Inr b \<Rightarrow>
          (case parse_as x f b of
             Inl e \<Rightarrow> Inl (ErrWrap (''config '' @ l_label l @ '': '') e)
           | Inr m \<Rightarrow> load_layers x mc f ls (merge merged m)))"

text \<open>The merged map Load decodes, or its error.\<close>

definition load_map :: "('y, 'k) externals \<Rightarrow> 'k machine \<Rightarrow> string \<Rightarrow> string \<Rightarrow> 'k goerr + 'y cmap" where
  "load_map x mc path prefix =
     (if prefix = [] then Inl (ErrText ''config: the environment prefix must not be empty'')
      else (case parser_for path of
              Inl e \<Rightarrow> Inl e
            | Inr f \<Rightarrow>
                (case load_layers x mc f
                        (file_layers (m_has_defaults mc) path
                           (profile_of x prefix (m_environ mc))) [] of
                   Inl e \<Rightarrow> Inl e
                 | Inr merged \<Rightarrow> Inr (merge merged (env_layer x prefix (m_environ mc))))))"

text \<open>
  \<open>dec\<close> is the mapstructure decoder built from decode's options: it binds a map onto the
  value that is already there.
\<close>

definition decode :: "('y cmap \<Rightarrow> 'o \<Rightarrow> 'k goerr + 'o) \<Rightarrow> 'y cmap \<Rightarrow> 'o \<Rightarrow> 'k goerr + 'o" where
  "decode dec m out = (case dec m out of Inl e \<Rightarrow> Inl (ErrWrap ''config: '' e) | Inr o' \<Rightarrow> Inr o')"

definition load :: "('y, 'k) externals \<Rightarrow> ('y cmap \<Rightarrow> 'o \<Rightarrow> 'k goerr + 'o) \<Rightarrow> 'k machine \<Rightarrow>
    string \<Rightarrow> string \<Rightarrow> 'o \<Rightarrow> 'k goerr + 'o" where
  "load x dec mc path prefix out =
     (case load_map x mc path prefix of Inl e \<Rightarrow> Inl e | Inr m \<Rightarrow> decode dec m out)"

end
