(* ===== verification/Config_Props.thy ===== *)
theory Config_Props
  imports Config
begin

text \<open>
  What Load promises: later layers win leaf by leaf and leave everything else alone, every
  key is canonical before the merge, a typed value survives a round trip, and the first bad
  line of a properties file is the one the error names.
\<close>

named_theorems conf_simps \<open>equations of lookups in configuration trees\<close>

section \<open>Lookups\<close>

fun conf_get :: "string list \<Rightarrow> 'y cval \<Rightarrow> 'y cval option" where
  "conf_get [] v = Some v"
| "conf_get (k # ks) (CMap m) = (case map_of m k of None \<Rightarrow> None | Some v \<Rightarrow> conf_get ks v)"
| "conf_get (k # ks) v = None"

fun is_section :: "'y cval \<Rightarrow> bool" where
  "is_section (CMap m) = True"
| "is_section v = False"

text \<open>Keys are distinct in every section, as in a Go map.\<close>

fun conf_wf :: "'y cval \<Rightarrow> bool" where
  "conf_wf (CMap m) = (distinct (map fst m) \<and> list_all (\<lambda>e. conf_wf (snd e)) m)"
| "conf_wf v = True"

lemma map_of_update [simp, conf_simps]:
  "map_of (AList.update k v m) = (map_of m)(k \<mapsto> v)"
  by (rule update_conv')

lemma conf_wf_lookup: "conf_wf (CMap m) \<Longrightarrow> map_of m k = Some v \<Longrightarrow> conf_wf v"
  by (auto simp: list_all_iff dest!: map_of_SomeD)

section \<open>Merge\<close>

definition overlay :: "'y cval option \<Rightarrow> 'y cval \<Rightarrow> 'y cval" where
  "overlay d v =
     (case v of
        CMap sub \<Rightarrow> (case d of Some (CMap cur) \<Rightarrow> CMap (merge cur sub) | _ \<Rightarrow> CMap sub)
      | _ \<Rightarrow> v)"

lemma merge_Cons:
  "merge dst ((k, v) # src) = merge (AList.update k (overlay (map_of dst k) v) dst) src"
  by (cases v) (simp_all add: overlay_def)

lemma map_of_merge [conf_simps]:
  "distinct (map fst src) \<Longrightarrow>
     map_of (merge dst src) k =
       (case map_of src k of None \<Rightarrow> map_of dst k | Some v \<Rightarrow> Some (overlay (map_of dst k) v))"
proof (induction src arbitrary: dst)
  case Nil
  then show ?case by simp
next
  case (Cons e src)
  obtain k' v where e: "e = (k', v)" by force
  with Cons.prems have "map_of src k' = None"
    by (auto simp: map_of_eq_None_iff)
  with Cons e show ?case by (auto simp: merge_Cons split: option.splits)
qed

text \<open>A layer says nothing about a path when it neither sets it nor replaces a part of it.\<close>

fun says_nothing :: "'y cmap \<Rightarrow> string list \<Rightarrow> bool" where
  "says_nothing m [] = (m = [])"
| "says_nothing m (k # ks) =
     (case map_of m k of
        None \<Rightarrow> True
      | Some (CMap s) \<Rightarrow> ks \<noteq> [] \<and> says_nothing s ks
      | Some _ \<Rightarrow> False)"

lemma merge_leaf:
  "conf_wf (CMap src) \<Longrightarrow> conf_get p (CMap src) = Some v \<Longrightarrow> \<not> is_section v \<Longrightarrow>
     conf_get p (CMap (merge dst src)) = Some v"
proof (induction p arbitrary: src dst)
  case Nil
  then show ?case by auto
next
  case (Cons k ks)
  then obtain u where u: "map_of src k = Some u" "conf_get ks u = Some v"
    by (auto split: option.splits)
  have "conf_get ks (overlay (map_of dst k) u) = Some v"
  proof (cases "\<exists>sub cur. u = CMap sub \<and> map_of dst k = Some (CMap cur)")
    case True
    then show ?thesis using Cons.IH [of _ _] u conf_wf_lookup [OF Cons.prems(1) u(1)] Cons.prems(3)
      by (auto simp: overlay_def)
  next
    case False
    then have "overlay (map_of dst k) u = u"
      by (auto simp: overlay_def split: cval.splits option.splits)
    with u show ?thesis by simp
  qed
  with Cons.prems(1) u show ?case by (simp add: map_of_merge)
qed

lemma merge_silent:
  "conf_wf (CMap src) \<Longrightarrow> says_nothing src p \<Longrightarrow> conf_get p (CMap dst) = Some v \<Longrightarrow>
     conf_get p (CMap (merge dst src)) = Some v"
proof (induction p arbitrary: src dst)
  case Nil
  then show ?case by simp
next
  case (Cons k ks)
  from Cons.prems(3) obtain d where d: "map_of dst k = Some d" "conf_get ks d = Some v"
    by (auto split: option.splits)
  show ?case
  proof (cases "map_of src k")
    case None
    with Cons.prems(1) d show ?thesis by (simp add: map_of_merge)
  next
    case (Some u)
    with Cons.prems(2) obtain sub where sub: "u = CMap sub" "ks \<noteq> []" "says_nothing sub ks"
      by (cases u) auto
    with d obtain cur where cur: "d = CMap cur" by (cases ks; cases d) auto
    have "conf_get ks (CMap (merge cur sub)) = Some v"
      using Cons.IH [of sub cur] conf_wf_lookup [OF Cons.prems(1) Some] sub cur d by simp
    with Cons.prems(1) Some sub d cur show ?thesis by (simp add: map_of_merge overlay_def)
  qed
qed

text \<open>
  C8: In a merge the later layer wins for every value it holds, lists and numbers
  wholesale, and a value it says nothing about keeps what the earlier layers gave it.
\<close>

theorem later_layer_wins:
  assumes "conf_wf (CMap src)" "\<not> is_section v"
  shows "(conf_get p (CMap src) = Some v \<longrightarrow> conf_get p (CMap (merge dst src)) = Some v) \<and>
    (says_nothing src p \<longrightarrow> conf_get p (CMap dst) = Some v \<longrightarrow>
       conf_get p (CMap (merge dst src)) = Some v)"
  using assms merge_leaf merge_silent by blast

theorem later_layer_wins_witness:
  "conf_get [''web'', ''addr''] (CMap (merge
       [(''web'', CMap [(''addr'', CStr '':8080''), (''maxbodybytes'', CInt 5)])]
       [(''web'', CMap [(''addr'', CStr '':9090'')])])) = Some (CStr '':9090'' :: unit cval) \<and>
   conf_get [''web'', ''maxbodybytes''] (CMap (merge
       [(''web'', CMap [(''addr'', CStr '':8080''), (''maxbodybytes'', CInt 5)])]
       [(''web'', CMap [(''addr'', CStr '':9090'')])])) = Some (CInt 5 :: unit cval)"
proof -
  let ?src = "[(''web'', CMap [(''addr'', CStr '':9090'')])] :: unit cmap"
  have "conf_wf (CMap ?src)" by simp
  note T = later_layer_wins [OF this]
  show ?thesis
    using T [of "CStr '':9090''" "[''web'', ''addr'']"] T [of "CInt 5" "[''web'', ''maxbodybytes'']"]
    by simp
qed

lemma conf_wf_iff:
  "conf_wf (CMap m) \<longleftrightarrow> distinct (map fst m) \<and> (\<forall>k v. map_of m k = Some v \<longrightarrow> conf_wf v)"
proof (intro iffI conjI allI impI)
  assume wf: "conf_wf (CMap m)"
  then show "distinct (map fst m)" by simp
  show "conf_wf v" if "map_of m k = Some v" for k v using conf_wf_lookup [OF wf that] .
next
  assume "distinct (map fst m) \<and> (\<forall>k v. map_of m k = Some v \<longrightarrow> conf_wf v)"
  then show "conf_wf (CMap m)" by (auto simp: list_all_iff)
qed

lemma wf_update: "conf_wf (CMap m) \<Longrightarrow> conf_wf v \<Longrightarrow> conf_wf (CMap (AList.update k v m))"
  by (simp add: conf_wf_iff distinct_update del: conf_wf.simps)

lemma conf_wf_tail: "conf_wf (CMap (e # m)) \<Longrightarrow> conf_wf (snd e) \<and> conf_wf (CMap m)"
  by simp

lemma merge_wf: "conf_wf (CMap src) \<Longrightarrow> conf_wf (CMap dst) \<Longrightarrow> conf_wf (CMap (merge dst src))"
proof (induction dst src rule: merge.induct)
  case (2 dst k sub src)
  have "conf_wf (case map_of dst k of Some (CMap cur) \<Rightarrow> CMap (merge cur sub) | _ \<Rightarrow> CMap sub)"
    using 2 conf_wf_lookup [OF 2(4), of k] by (auto split: option.splits cval.splits simp del: conf_wf.simps(1)) (simp_all)
  with 2 show ?case by (simp del: conf_wf.simps(1) add: wf_update) simp
qed (auto simp: wf_update simp del: conf_wf.simps(1) split: option.splits dest: conf_wf_tail)

section \<open>Canonical keys\<close>

text \<open>
  What the program relies on in the lower case of a rune outside ASCII: it is one rune, it
  is not a separator, and it is its own lower case.
\<close>

definition lower_laws :: "('y, 'k) externals \<Rightarrow> bool" where
  "lower_laws x \<longleftrightarrow>
     (\<forall>r. one_rune r \<and> 1 < length r \<longrightarrow>
        one_rune (x_lower x r) \<and> x_lower x r \<noteq> ''-'' \<and> x_lower x r \<noteq> ''_'' \<and>
        lower_rune x (x_lower x r) = x_lower x r) \<and>
     x_lower x rune_error = rune_error"

lemma runes_pieces: "r \<in> set (runes s) \<Longrightarrow> one_rune r \<or> (\<exists>c. r = [c] \<and> 128 \<le> byte_of c)"
proof (induction s rule: runes.induct)
  case (1 s)
  show ?case
  proof (cases "s = []")
    case True
    with 1(2) show ?thesis by simp
  next
    case False
    have "one_rune (take (rune_len s) s) \<or> (\<exists>c. take (rune_len s) s = [c] \<and> 128 \<le> byte_of c)"
      using False by (auto simp: rune_len_def one_rune_def not_less split: list.splits if_splits)
    with 1 False show ?thesis by (auto simp: runes_unfold)
  qed
qed

lemma one_rune_rune_error: "one_rune rune_error"
  by (simp add: one_rune_def rune_error_def rune3_def is_cont_def between_def)

lemma lower_byte_separator:
  "c \<noteq> CHR ''-'' \<Longrightarrow> lower_byte c \<noteq> CHR ''-''"
  "c \<noteq> CHR ''_'' \<Longrightarrow> lower_byte c \<noteq> CHR ''_''"
proof -
  have "byte_of (lower_byte c) = byte_of c \<or> 97 \<le> byte_of (lower_byte c) \<and> byte_of (lower_byte c) \<le> (122::nat)"
    by (auto simp: byte_of_lower_byte between_def)
  then have *: "lower_byte c = c \<or> 97 \<le> byte_of (lower_byte c) \<and> byte_of (lower_byte c) \<le> (122::nat)"
    by (metis of_char_eq_iff)
  show "lower_byte c \<noteq> CHR ''-''" if "c \<noteq> CHR ''-''" using * that by auto
  show "lower_byte c \<noteq> CHR ''_''" if "c \<noteq> CHR ''_''" using * that by auto
qed

definition settled :: "('y, 'k) externals \<Rightarrow> string \<Rightarrow> bool" where
  "settled x r \<longleftrightarrow> one_rune r \<and> r \<noteq> ''-'' \<and> r \<noteq> ''_'' \<and> lower_rune x r = r"

lemma lower_rune_ascii: "byte_of c < (128::nat) \<Longrightarrow> lower_rune x [c] = [lower_byte c]"
  by (simp add: lower_rune_def)

lemma lower_rune_long: "1 < length r \<Longrightarrow> lower_rune x r = x_lower x r"
  by (cases r) (auto simp: lower_rune_def split: list.splits)

lemma settled_rune_error: "lower_laws x \<Longrightarrow> settled x rune_error"
  using one_rune_rune_error
  by (auto simp: settled_def lower_laws_def lower_rune_long rune_error_def)

lemma settled_lower_rune:
  assumes "lower_laws x" "r \<in> set (runes k)" "r \<noteq> ''-''" "r \<noteq> ''_''"
  shows "settled x (lower_rune x r)"
proof -
  consider (ascii) c where "r = [c]" "byte_of c < (128::nat)"
    | (bad) c where "r = [c]" "128 \<le> byte_of c"
    | (long) "1 < length r" "one_rune r"
    using runes_pieces [OF assms(2)] by (auto simp: one_rune_def split: list.splits)
  then show ?thesis
  proof cases
    case ascii
    then have "byte_of (lower_byte c) < 128"
      by (simp add: byte_of_lower_byte between_def)
    with ascii assms(3,4) show ?thesis
      by (simp add: settled_def lower_rune_ascii one_rune_def lower_byte_separator)
  next
    case bad
    then have "lower_rune x r = rune_error" by (simp add: lower_rune_def)
    with assms(1) show ?thesis by (simp add: settled_rune_error)
  next
    case long
    with assms(1) show ?thesis by (simp add: settled_def lower_laws_def lower_rune_long)
  qed
qed

lemma canon_settled:
  assumes "list_all (settled x) rs"
  shows "canon x (concat rs) = concat rs"
proof -
  have "list_all one_rune rs" using assms by (simp add: list_all_iff settled_def)
  then have "runes (concat rs) = rs" by (rule runes_concat)
  moreover have "filter (\<lambda>r. r \<noteq> ''-'' \<and> r \<noteq> ''_'') rs = rs"
    using assms by (auto simp: list_all_iff settled_def intro: filter_True)
  moreover have "map (lower_rune x) rs = rs"
    using assms by (auto simp: list_all_iff settled_def intro: map_idI)
  ultimately show ?thesis by (simp add: canon_def)
qed

lemma canon_idem:
  assumes "lower_laws x"
  shows "canon x (canon x k) = canon x k"
proof -
  have "list_all (settled x) (map (lower_rune x) (filter (\<lambda>r. r \<noteq> ''-'' \<and> r \<noteq> ''_'') (runes k)))"
    using settled_lower_rune [OF assms] by (auto simp: list_all_iff)
  from canon_settled [OF this] show ?thesis by (simp add: canon_def)
qed

lemma canon_ascii:
  "ascii k \<Longrightarrow> canon x k = map lower_byte (filter (\<lambda>c. c \<noteq> CHR ''-'' \<and> c \<noteq> CHR ''_'') k)"
proof -
  assume "ascii k"
  moreover from this have "concat (map (lower_rune x) (filter (\<lambda>r. r \<noteq> ''-'' \<and> r \<noteq> ''_'') (map (\<lambda>c. [c]) k)))
      = map lower_byte (filter (\<lambda>c. c \<noteq> CHR ''-'' \<and> c \<noteq> CHR ''_'') k)"
    by (induction k) (auto simp: ascii_def lower_rune_ascii)
  ultimately show ?thesis by (simp add: canon_def runes_ascii)
qed

text \<open>Every key of every section is canonical, and no section has a key twice.\<close>

fun canonical :: "('y, 'k) externals \<Rightarrow> 'y cval \<Rightarrow> bool" where
  "canonical x (CMap m) =
     (distinct (map fst m) \<and> list_all (\<lambda>e. canon x (fst e) = fst e \<and> canonical x (snd e)) m)"
| "canonical x v = True"

lemma canonical_iff:
  "canonical x (CMap m) \<longleftrightarrow>
     distinct (map fst m) \<and> (\<forall>k v. map_of m k = Some v \<longrightarrow> canon x k = k \<and> canonical x v)"
proof (intro iffI conjI allI impI)
  assume c: "canonical x (CMap m)"
  then show "distinct (map fst m)" by simp
  show "canon x k = k" "canonical x v" if "map_of m k = Some v" for k v
    using c map_of_SomeD [OF that] by (auto simp: list_all_iff)
next
  assume "distinct (map fst m) \<and> (\<forall>k v. map_of m k = Some v \<longrightarrow> canon x k = k \<and> canonical x v)"
  then show "canonical x (CMap m)" by (auto simp: list_all_iff)
qed

lemma canonical_Nil [simp]: "canonical x (CMap [])"
  by simp

declare canonical.simps(1) [simp del]

lemma canonical_update:
  "canonical x (CMap m) \<Longrightarrow> canon x k = k \<Longrightarrow> canonical x v \<Longrightarrow>
     canonical x (CMap (AList.update k v m))"
  by (simp add: canonical_iff distinct_update)

lemma canonical_tail:
  "canonical x (CMap (e # m)) \<Longrightarrow>
     canon x (fst e) = fst e \<and> canonical x (snd e) \<and> canonical x (CMap m)"
  by (simp add: canonical.simps(1))

lemma canonical_lookup: "canonical x (CMap m) \<Longrightarrow> map_of m k = Some v \<Longrightarrow> canonical x v"
  by (simp add: canonical_iff)

lemma canonical_wf: "canonical x v \<Longrightarrow> conf_wf v"
  by (induction v rule: conf_wf.induct) (auto simp: list_all_iff canonical.simps(1))

lemma merge_canonical:
  "canonical x (CMap src) \<Longrightarrow> canonical x (CMap dst) \<Longrightarrow> canonical x (CMap (merge dst src))"
proof (induction dst src rule: merge.induct)
  case (2 dst k sub src)
  let ?v = "case map_of dst k of Some (CMap cur) \<Rightarrow> CMap (merge cur sub) | _ \<Rightarrow> CMap sub"
  have k: "canon x k = k" "canonical x (CMap sub)" "canonical x (CMap src)"
    using canonical_tail [OF 2(3)] by simp_all
  have "canonical x ?v"
    using 2(1) k canonical_lookup [OF 2(4), of k]
    by (auto split: option.splits cval.splits)
  from 2(2) [OF k(3) canonical_update [OF 2(4) k(1) this]] show ?case by simp
qed (auto simp: canonical_update split: option.splits dest: canonical_tail)

lemma set_path_canonical:
  "lower_laws x \<Longrightarrow> canonical x (CMap m) \<Longrightarrow> canonical x v \<Longrightarrow>
     canonical x (CMap (set_path x p v m))"
proof (induction x p v m rule: set_path.induct)
  case (3 x p q ps v m)
  let ?next = "case map_of m (canon x p) of Some (CMap s) \<Rightarrow> s | _ \<Rightarrow> []"
  have "canonical x (CMap ?next)"
    using canonical_lookup [OF 3(3), of "canon x p"]
    by (auto split: option.splits cval.splits)
  from 3(1) [OF refl 3(2) this 3(4)] 3(2,3) show ?case
    unfolding set_path.simps Let_def by (intro canonical_update canon_idem)
qed (simp_all add: canonical_update canon_idem)

lemma canonical_parse_value: "canonical x (parse_value x v)"
  by (auto simp: parse_value_def split: option.splits)

lemma env_layer_canonical: "lower_laws x \<Longrightarrow> canonical x (CMap (env_layer x prefix environ))"
proof -
  assume L: "lower_laws x"
  have "canonical x (CMap m) \<Longrightarrow> canonical x (CMap (fold (env_entry x prefix) es m))" for es m
  proof (induction es arbitrary: m)
    case Nil
    then show ?case by simp
  next
    case (Cons kv es)
    have "canonical x (CMap (env_entry x prefix kv m))"
      using Cons.prems set_path_canonical [OF L Cons.prems canonical_parse_value]
      by (simp add: env_entry_def Let_def split: prod.splits)
    from Cons.IH [OF this] show ?case by simp
  qed
  then show ?thesis by (simp add: env_layer_def)
qed

lemma parse_properties_from_canonical:
  "lower_laws x \<Longrightarrow> canonical x (CMap m) \<Longrightarrow> parse_properties_from x i ls m = Inr m' \<Longrightarrow>
     canonical x (CMap m')"
proof (induction x i ls m rule: parse_properties_from.induct)
  case (2 x i line ls m)
  then show ?case
    by (auto split: property_line.splits
        intro: set_path_canonical canonical_parse_value)
qed simp

text \<open>
  \<open>seen\<close> and \<open>out\<close> hold the same canonical keys, and each value already converted is
  canonical.
\<close>

lemma canon_map_from_canonical:
  "lower_laws x \<Longrightarrow> canonical x (CMap out) \<Longrightarrow> canon_map_from x seen out m = Inr m' \<Longrightarrow>
     canonical x (CMap m')"
proof (induction x seen out m arbitrary: m' rule: canon_map_from.induct)
  case (2 x seen out k sub m)
  from 2(5) obtain s where s: "map_of seen (canon x k) = None" "canon_map_from x [] [] sub = Inr s"
    by (auto split: option.splits sum.splits)
  have "canonical x (CMap s)" by (rule 2(1) [OF s(1) 2(3) canonical_Nil s(2)])
  then have "canonical x (CMap (AList.update (canon x k) (CMap s) out))"
    using 2(4) canonical_update [OF 2(4)] canon_idem [OF 2(3)] by simp
  from 2(2) [OF s(1) s(2) 2(3) this] 2(5) s show ?case by simp
qed (simp_all add: canonical_update canon_idem split: option.splits)

lemma parse_as_canonical:
  "lower_laws x \<Longrightarrow> parse_as x f b = Inr m \<Longrightarrow> canonical x (CMap m)"
  by (auto simp: parse_as_def parse_yaml_def canon_map_def parse_properties_def
      split: config_format.splits sum.splits
      intro: canon_map_from_canonical [where out = "[]"]
        parse_properties_from_canonical [where m = "[]"])

lemma load_layers_canonical:
  "lower_laws x \<Longrightarrow> canonical x (CMap m) \<Longrightarrow> load_layers x mc f ls m = Inr m' \<Longrightarrow>
     canonical x (CMap m')"
proof (induction x mc f ls m rule: load_layers.induct)
  case (2 x mc f l ls m)
  then show ?case
    by (auto split: sum.splits if_splits
        intro: merge_canonical parse_as_canonical)
qed simp

lemma load_map_parts:
  assumes "load_map x mc path prefix = Inr m"
  shows "\<exists>f merged. prefix \<noteq> [] \<and>
    load_layers x mc f (file_layers (m_has_defaults mc) path (profile_of x prefix (m_environ mc))) []
      = Inr merged \<and>
    m = merge merged (env_layer x prefix (m_environ mc))"
  using assms by (auto simp: load_map_def split: if_splits sum.splits)

lemma lower_laws_identity:
  "lower_laws \<lparr>x_lower = (\<lambda>r. r), x_float = fl, x_flow_list = fls, x_yaml = ym\<rparr>"
  by (auto simp: lower_laws_def lower_rune_long one_rune_def)


section \<open>The environment\<close>

text \<open>Two paths that part at some key: neither is an initial part of the other.\<close>

fun diverge :: "string list \<Rightarrow> string list \<Rightarrow> bool" where
  "diverge (a # p) (b # q) = (a \<noteq> b \<or> diverge p q)"
| "diverge p q = False"

lemma diverge_sym: "diverge p q = diverge q p"
  by (induction p q rule: diverge.induct) auto

lemma set_path_get: "p \<noteq> [] \<Longrightarrow> conf_get (map (canon x) p) (CMap (set_path x p v m)) = Some v"
  by (induction x p v m rule: set_path.induct) (simp_all add: Let_def)

lemma conf_get_not_section: "q \<noteq> [] \<Longrightarrow> \<not> is_section v \<Longrightarrow> conf_get q v = None"
  by (cases q; cases v) auto

lemma set_path_other:
  "diverge (map (canon x) p) q \<Longrightarrow>
     conf_get q (CMap (set_path x p v m)) = conf_get q (CMap m)"
proof (induction x p v m arbitrary: q rule: set_path.induct)
  case (2 x p v m)
  then show ?case by (cases q) auto
next
  case (3 x p p' ps v m)
  then obtain k ks where q: "q = k # ks" by (cases q) auto
  show ?case
  proof (cases "k = canon x p")
    case True
    then have d: "diverge (map (canon x) (p' # ps)) ks" using 3(2) q by simp
    then have "ks \<noteq> []" by auto
    with 3(1) [OF refl d] True q show ?thesis
      by (auto simp: Let_def split: option.splits cval.splits)
        (cases ks; auto)+
  qed (use q in \<open>simp add: Let_def\<close>)
qed simp

text \<open>The path a variable sets, and its value as text.\<close>

definition env_path :: "('y, 'k) externals \<Rightarrow> string \<Rightarrow> string \<Rightarrow> string list option" where
  "env_path x prefix kv =
     (let k = fst (cut kv ''=''); name = trim_prefix k prefix in
      if has_prefix k prefix \<and> canon x name \<noteq> ''profile''
      then Some (map (canon x) (split_on name ''__'')) else None)"

definition env_value :: "string \<Rightarrow> string" where
  "env_value kv = fst (snd (cut kv ''=''))"

lemma env_entry_at:
  "env_path x prefix kv = Some p \<Longrightarrow>
     conf_get p (CMap (env_entry x prefix kv m)) = Some (parse_value x (env_value kv))"
  by (auto simp: env_path_def env_entry_def env_value_def Let_def set_path_get split_on_not_Nil
      split: prod.splits if_splits)

lemma env_entry_elsewhere:
  "(case env_path x prefix kv of None \<Rightarrow> True | Some q \<Rightarrow> diverge q p) \<Longrightarrow>
     conf_get p (CMap (env_entry x prefix kv m)) = conf_get p (CMap m)"
  by (auto simp: env_path_def env_entry_def Let_def set_path_other split: prod.splits if_splits)

lemma env_fold_get:
  assumes "env_path x prefix kv = Some p"
    and "\<And>kv'. kv' \<in> set es \<Longrightarrow> kv' \<noteq> kv \<Longrightarrow>
      (case env_path x prefix kv' of None \<Rightarrow> True | Some q \<Rightarrow> diverge q p)"
    and "kv \<in> set es \<or> conf_get p (CMap m) = Some (parse_value x (env_value kv))"
  shows "conf_get p (CMap (fold (env_entry x prefix) es m)) = Some (parse_value x (env_value kv))"
  using assms(2,3)
proof (induction es arbitrary: m)
  case Nil
  then show ?case by simp
next
  case (Cons a es)
  have "kv \<in> set es \<or> conf_get p (CMap (env_entry x prefix a m)) = Some (parse_value x (env_value kv))"
    using Cons.prems env_entry_at [OF assms(1)] env_entry_elsewhere [where kv = a and m = m and x = x and prefix = prefix and p = p]
    by (cases "a = kv") auto
  with Cons.IH [of "env_entry x prefix a m"] Cons.prems(1) show ?case by simp
qed

lemma parse_value_leaf: "\<not> is_section (parse_value x v)"
  by (auto simp: parse_value_def split: option.splits)


section \<open>Typed values and bad lines\<close>

lemma parse_int64_range: "parse_int64 s = Some n \<Longrightarrow> int64 n"
  by (auto simp: parse_int64_def Let_def split: option.splits if_splits prod.splits)

lemma format_int_not_word: "format_int n \<noteq> ''true'' \<and> format_int n \<noteq> ''false''"
proof -
  obtain c r where "nat_text (nat n) = c # r" "is_digit c" using nat_text_hd by blast
  then show ?thesis by (auto simp: format_int_def is_digit_def between_def)
qed

text \<open>
  A value of the environment or of a properties file becomes a number exactly when it
  is the decimal text of a 64-bit integer, so a leading zero, a plus sign, an underscore or
  an overflow leaves it the string it was.
\<close>

theorem only_decimal_text_is_a_number:
  "parse_value x v = CInt n \<longleftrightarrow> int64 n \<and> v = format_int n"
proof
  assume *: "parse_value x v = CInt n"
  then have "parse_int64 v = Some n \<and> format_int n = v"
    by (simp add: parse_value_def split: option.split_asm if_split_asm)
  then show "int64 n \<and> v = format_int n" using parse_int64_range by blast
next
  assume *: "int64 n \<and> v = format_int n"
  then have "parse_int64 v = Some n" using parse_format_int by blast
  with * format_int_not_word [of n] show "parse_value x v = CInt n"
    by (simp add: parse_value_def)
qed

lemma ex_nat_0_Suc: "(\<exists>i. P i) \<longleftrightarrow> P 0 \<or> (\<exists>i. P (Suc i))"
  by (metis not0_implies_Suc)

text \<open>The first bad line of a list of lines, counted from \<open>n\<close>, and its message.\<close>

definition first_bad :: "nat \<Rightarrow> string list \<Rightarrow> 'k goerr \<Rightarrow> bool" where
  "first_bad n ls e \<longleftrightarrow>
     (\<exists>i msg. i < length ls \<and> properties_line (ls ! i) = BadLine msg \<and>
        (\<forall>j < i. \<forall>w. properties_line (ls ! j) \<noteq> BadLine w) \<and>
        e = ErrText (''line '' @ format_int (int (n + i + 1)) @ '': '' @ msg))"

lemma first_bad_Cons:
  "first_bad n (a # ls) e \<longleftrightarrow>
     (case properties_line a of
        BadLine w \<Rightarrow> e = ErrText (''line '' @ format_int (int (n + 1)) @ '': '' @ w)
      | _ \<Rightarrow> first_bad (Suc n) ls e)"
  unfolding first_bad_def
  by (subst ex_nat_0_Suc) (auto simp: All_less_Suc2 split: property_line.splits)

lemma parse_properties_from_error:
  "parse_properties_from x n ls m = Inl e \<longleftrightarrow> first_bad n ls e"
proof (induction ls arbitrary: n m)
  case Nil
  then show ?case by (simp add: first_bad_def)
next
  case (Cons a ls)
  then show ?case by (cases "properties_line a") (auto simp: first_bad_Cons)
qed

text \<open>
  A properties file is refused exactly when a line of it is outside the supported
  subset, and the error names the first such line, counted from one.
\<close>

theorem properties_error_names_the_line:
  "parse_properties x b = Inl e \<longleftrightarrow>
     (\<exists>i msg. i < length (split_on b newline) \<and>
        properties_line (split_on b newline ! i) = BadLine msg \<and>
        (\<forall>j < i. \<forall>w. properties_line (split_on b newline ! j) \<noteq> BadLine w) \<and>
        e = ErrText (''line '' @ format_int (int (i + 1)) @ '': '' @ msg))"
  by (simp add: parse_properties_def parse_properties_from_error first_bad_def)

theorem properties_error_names_the_line_witness:
  "parse_properties (\<lparr>x_lower = (\<lambda>r. r), x_float = (\<lambda>v. None), x_flow_list = (\<lambda>v. None),
       x_yaml = (\<lambda>b. Inr [])\<rparr> :: (unit, unit) externals) (''a=1'' @ newline @ ''b'') =
   Inl (ErrText ''line 2: no = or : separator'')"
proof -
  let ?b = "''a=1'' @ newline @ ''b''"
  have ls: "split_on ?b newline = [''a=1'', ''b'']" by code_simp
  have "properties_line ''b'' = BadLine ''no = or : separator''"
    "properties_line ''a=1'' = KeyValue [''a''] ''1''" by code_simp+
  moreover have "format_int (int (1 + 1)) = ''2''" by code_simp
  ultimately show ?thesis
    unfolding properties_error_names_the_line ls
    by (intro exI [of _ 1] exI [of _ "''no = or : separator''"]) simp
qed

section \<open>Missing files\<close>

lemma load_layers_skip:
  assumes "\<And>l. l \<in> set ls \<Longrightarrow> \<not> l_required l \<and>
      (\<exists>e. m_read mc (l_source l) = Inl e \<and> errors_is (m_not_exist mc) e)"
  shows "load_layers x mc f ls m = Inr m"
  using assms
proof (induction ls)
  case Nil
  then show ?case by simp
next
  case (Cons l ls)
  from Cons.prems [of l] obtain e where
    "\<not> l_required l" "m_read mc (l_source l) = Inl e" "errors_is (m_not_exist mc) e" by auto
  with Cons show ?case by simp
qed

definition base_source :: "bool \<Rightarrow> string \<Rightarrow> source" where
  "base_source has_defaults path = (if has_defaults then Embedded (path_base path) else Disk path)"

definition base_label :: "bool \<Rightarrow> string \<Rightarrow> string" where
  "base_label has_defaults path =
     (if has_defaults then ''embedded '' @ path_base path else path)"

lemma file_layers_base:
  "\<exists>l ls. file_layers d path profile = l # ls \<and> l_source l = base_source d path \<and>
     l_label l = base_label d path \<and> l_required l \<and> (\<forall>l' \<in> set ls. \<not> l_required l')"
  by (auto simp: file_layers_def base_source_def base_label_def Let_def)

lemma path_ext_suffix: "has_suffix p (path_ext p)"
proof -
  let ?P = "\<lambda>c. c \<noteq> CHR ''.'' \<and> c \<noteq> CHR ''/''"
  obtain r w where r: "r = takeWhile ?P (rev p)" and w: "w = drop (length r) (rev p)" by blast
  then have "rev p = r @ w" by (metis append_take_drop_id takeWhile_eq_take)
  then have p: "p = rev w @ rev r" by (metis rev_append rev_rev_ident)
  have e: "path_ext p =
      (case w of c # _ \<Rightarrow> if c = CHR ''.'' then CHR ''.'' # rev r else [] | [] \<Rightarrow> [])"
    unfolding path_ext_def r w Let_def ..
  show ?thesis
  proof (cases "\<exists>w'. w = CHR ''.'' # w'")
    case True
    then obtain w' where "w = CHR ''.'' # w'" ..
    with e p have "path_ext p = CHR ''.'' # rev r" "p = rev w' @ CHR ''.'' # rev r" by simp_all
    then show ?thesis unfolding has_suffix_iff by metis
  next
    case False
    with e have "path_ext p = []" by (auto split: list.splits)
    then show ?thesis by (simp add: has_suffix_iff)
  qed
qed

lemma length_profile_name: "length (profile_name p q) = length p + 1 + length q"
proof -
  obtain t where "p = t @ path_ext p" using path_ext_suffix has_suffix_iff by metis
  then have "length (trim_suffix p (path_ext p)) + length (path_ext p) = length p"
    by (metis length_append trim_suffix_append)
  then show ?thesis by (simp add: profile_name_def Let_def)
qed

lemma other_layers_differ:
  "l \<in> set (tl (file_layers d path profile)) \<Longrightarrow> l_source l \<noteq> base_source d path"
  using length_profile_name [of path profile] length_profile_name [of "path_base path" profile]
  by (auto simp: file_layers_def base_source_def Let_def split: if_splits)

text \<open>
  Load refuses to run without the base file, the embedded one when there are defaults
  and else the one on disk, and its error names that file; every other file may be missing,
  and then the base file and the environment are the whole configuration.
\<close>

theorem only_the_base_file_is_required:
  assumes "prefix \<noteq> []" "parser_for path = (Inr f :: 'k goerr + config_format)"
    and "\<forall>s. s \<noteq> base_source (m_has_defaults mc) path \<longrightarrow>
      (\<exists>e. m_read mc s = Inl e \<and> errors_is (m_not_exist mc) e)"
  shows "load_map x mc path prefix =
    (case m_read mc (base_source (m_has_defaults mc) path) of
       Inl e \<Rightarrow> Inl (ErrWrap (''config '' @ base_label (m_has_defaults mc) path @ '': '') (e :: 'k goerr))
     | Inr b \<Rightarrow>
         (case parse_as x f b of
            Inl e \<Rightarrow> Inl (ErrWrap (''config '' @ base_label (m_has_defaults mc) path @ '': '') e)
          | Inr m \<Rightarrow> Inr (merge (merge [] m) (env_layer x prefix (m_environ mc)))))"
proof -
  obtain l ls where l: "file_layers (m_has_defaults mc) path (profile_of x prefix (m_environ mc)) = l # ls"
    "l_source l = base_source (m_has_defaults mc) path" "l_label l = base_label (m_has_defaults mc) path"
    "l_required l" "\<forall>l' \<in> set ls. \<not> l_required l'"
    using file_layers_base by blast
  have "load_layers x mc f ls m = Inr m" for m
  proof (rule load_layers_skip)
    fix l' assume l': "l' \<in> set ls"
    with l(1) have "l_source l' \<noteq> base_source (m_has_defaults mc) path"
      using other_layers_differ [of l' "m_has_defaults mc" path
          "profile_of x prefix (m_environ mc)"] by simp
    with assms(3) l(5) l' show "\<not> l_required l' \<and>
        (\<exists>e. m_read mc (l_source l') = Inl e \<and> errors_is (m_not_exist mc) e)" by blast
  qed
  with assms(1,2) l show ?thesis
    by (auto simp: load_map_def split: sum.splits)
qed

text \<open>A service with one YAML file and one variable, as the witnesses run it.\<close>

definition sample_externals :: "(unit, unit) externals" where
  "sample_externals =
     \<lparr>x_lower = (\<lambda>r. r), x_float = (\<lambda>v. None), x_flow_list = (\<lambda>v. None),
      x_yaml = (\<lambda>b. Inr [(''Web'', CMap [(''Addr'', CStr '':8080''), (''Max-Body'', CInt 5)])])\<rparr>"

definition sample_machine :: "unit machine" where
  "sample_machine =
     \<lparr>m_has_defaults = False,
      m_read = (\<lambda>s. if s = Disk ''app.yaml'' then Inr [] else Inl (ErrExt ())),
      m_not_exist = (\<lambda>e. True),
      m_environ = [''HOME=/'', ''APP_WEB__ADDR=:9090'']\<rparr>"

lemma sample_load:
  "load_map sample_externals sample_machine ''app.yaml'' ''APP_'' =
     Inr [(''web'', CMap [(''addr'', CStr '':9090''), (''maxbody'', CInt 5)])]"
  by code_simp

lemma sample_laws: "lower_laws sample_externals"
  unfolding sample_externals_def by (rule lower_laws_identity)



theorem only_the_base_file_is_required_witness:
  "load_map sample_externals sample_machine ''app.yaml'' ''APP_'' =
   Inr (merge (merge [] [(''web'', CMap [(''addr'', CStr '':8080''), (''maxbody'', CInt 5)])])
     [(''web'', CMap [(''addr'', CStr '':9090'')])])"
proof -
  have f: "parser_for ''app.yaml'' = (Inr Yaml :: unit goerr + _)" by code_simp
  have p: "parse_as sample_externals Yaml [] =
      Inr [(''web'', CMap [(''addr'', CStr '':8080''), (''maxbody'', CInt 5)])]" by code_simp
  have e: "env_layer sample_externals ''APP_'' (m_environ sample_machine) =
      [(''web'', CMap [(''addr'', CStr '':9090'')])]" by code_simp
  have l: "profile_of sample_externals ''APP_'' (m_environ sample_machine) = []" by code_simp
  show ?thesis
    using only_the_base_file_is_required [OF _ f, of "''APP_''" sample_machine sample_externals] p e l
    by (simp add: sample_machine_def base_source_def file_layers_def errors_is_def del: merge.simps)
qed

section \<open>The order of the environment\<close>

lemma env_layer_order: "mset e1 = mset e2 \<Longrightarrow> env_layer x prefix e1 = env_layer x prefix e2"
  by (metis env_layer_def properties_for_sort mset_sort sorted_sort)

text \<open>
  The variables' order does not matter for the keys they set, but it does for the
  profile: with two spellings of the reserved variable, the one the operating system lists
  first selects the profile.
\<close>

theorem profile_depends_on_environ_order:
  "\<exists>e1 e2. mset e1 = mset e2 \<and>
     (\<forall>p. env_layer sample_externals p e1 = env_layer sample_externals p e2) \<and>
     profile_of sample_externals ''APP_'' e1 = ''local'' \<and>
     profile_of sample_externals ''APP_'' e2 = ''prod''"
proof (intro exI conjI allI)
  let ?e = "[''APP_PROFILE=local'', ''APP_profile=prod'']"
  show "mset ?e = mset (rev ?e)" by simp
  show "env_layer sample_externals p ?e = env_layer sample_externals p (rev ?e)" for p
    by (rule env_layer_order) simp
  show "profile_of sample_externals ''APP_'' ?e = ''local''" by code_simp
  show "profile_of sample_externals ''APP_'' (rev ?e) = ''prod''" by code_simp
qed

end
