(* ===== verification/Web_Http.thy ===== *)
theory Web_Http
  imports Go_Errors Go_Slog
begin

text \<open>
  The part of net/http and encoding/json the HTTP Starter rests on: headers, the response
  writer of a connection, status texts, JSON string literals, and the writers go-boot wraps
  round that response writer (the recorder of web/middleware.go and the smaller one of
  web/metrics/metrics.go).
\<close>

named_theorems http_simps \<open>equations of headers and response writers\<close>

section \<open>Headers\<close>

text \<open>
  An http.Header with its keys in canonical form. Get takes the first value, the empty
  string when there is none.
\<close>

type_synonym headers = "(string \<times> string list) list"

definition hdr_get :: "string \<Rightarrow> headers \<Rightarrow> string" where
  "hdr_get k h = (case map_of h k of Some (v # _) \<Rightarrow> v | _ \<Rightarrow> [])"

definition hdr_set :: "string \<Rightarrow> string \<Rightarrow> headers \<Rightarrow> headers" where
  "hdr_set k v h = (k, [v]) # filter (\<lambda>e. fst e \<noteq> k) h"

definition hdr_add :: "string \<Rightarrow> string \<Rightarrow> headers \<Rightarrow> headers" where
  "hdr_add k v h =
     (k, (case map_of h k of None \<Rightarrow> [] | Some vs \<Rightarrow> vs) @ [v]) # filter (\<lambda>e. fst e \<noteq> k) h"

definition hdr_del :: "string \<Rightarrow> headers \<Rightarrow> headers" where
  "hdr_del k h = filter (\<lambda>e. fst e \<noteq> k) h"

definition hdr_values :: "string \<Rightarrow> headers \<Rightarrow> string list" where
  "hdr_values k h = (case map_of h k of None \<Rightarrow> [] | Some vs \<Rightarrow> vs)"

lemma map_of_filter_other [simp]:
  "k \<noteq> k' \<Longrightarrow> map_of (filter (\<lambda>e. fst e \<noteq> k') h) k = map_of h k"
  by (induction h) auto

lemma hdr_get_set [simp, http_simps]:
  "hdr_get k (hdr_set k' v h) = (if k = k' then v else hdr_get k h)"
  by (auto simp: hdr_get_def hdr_set_def)

lemma hdr_values_set [simp, http_simps]:
  "hdr_values k (hdr_set k' v h) = (if k = k' then [v] else hdr_values k h)"
  by (auto simp: hdr_values_def hdr_set_def)

lemma hdr_get_add_other [simp, http_simps]: "k \<noteq> k' \<Longrightarrow> hdr_get k (hdr_add k' v h) = hdr_get k h"
  by (auto simp: hdr_get_def hdr_add_def)

section \<open>The response writer of a connection\<close>

text \<open>
  \<open>wi_info\<close> holds the informational (1xx) responses sent; \<open>wi_sent\<close> is the header as it
  was when the status line was written; \<open>wi_room\<close> is how many body bytes the connection
  still takes before it fails (\<open>None\<close>: it does not fail); \<open>wi_flush\<close> says whether the
  writer can flush.
\<close>

record wire =
  wi_header :: headers
  wi_info :: "int list"
  wi_wrote :: bool
  wi_status :: int
  wi_sent :: headers
  wi_body :: string
  wi_room :: "nat option"
  wi_flush :: bool

definition informational :: "int \<Rightarrow> bool" where
  "informational n \<longleftrightarrow> 100 \<le> n \<and> n \<le> 199 \<and> n \<noteq> 101"

definition valid_status :: "int \<Rightarrow> bool" where
  "valid_status n \<longleftrightarrow> 100 \<le> n \<and> n \<le> 999"

definition body_allowed :: "int \<Rightarrow> bool" where
  "body_allowed n \<longleftrightarrow> \<not> (100 \<le> n \<and> n \<le> 199) \<and> n \<noteq> 204 \<and> n \<noteq> 304"

text \<open>
  WriteHeader of net/http: a second final status is ignored, a code outside 100 to 999
  panics, a 1xx (but 101) is sent straight out and is not the answer.
\<close>

definition wire_write_header :: "int \<Rightarrow> wire \<Rightarrow> panic option \<times> wire" where
  "wire_write_header n w =
     (if wi_wrote w then (None, w)
      else if \<not> valid_status n
        then (Some (PanicValue (''invalid WriteHeader code '' @ format_int n)), w)
      else if informational n then (None, w\<lparr>wi_info := wi_info w @ [n]\<rparr>)
      else (None, w\<lparr>wi_wrote := True, wi_status := n, wi_sent := wi_header w\<rparr>))"

definition wire_write :: "string \<Rightarrow> wire \<Rightarrow> nat \<times> wire" where
  "wire_write b w =
     (let w1 = snd (wire_write_header 200 w);
          n = (if body_allowed (wi_status w1)
               then (case wi_room w1 of None \<Rightarrow> length b | Some k \<Rightarrow> min k (length b)) else 0)
      in (n, w1\<lparr>wi_body := wi_body w1 @ take n b, wi_room := map_option (\<lambda>k. k - n) (wi_room w1)\<rparr>))"

definition wire_flush :: "wire \<Rightarrow> wire" where
  "wire_flush w = (if wi_flush w then snd (wire_write_header 200 w) else w)"

text \<open>What net/http does when the handler returns: an answer nobody wrote is a 200.\<close>

definition wire_finish :: "wire \<Rightarrow> wire" where
  "wire_finish w = snd (wire_write_header 200 w)"

definition new_wire :: wire where
  "new_wire = \<lparr>wi_header = [], wi_info = [], wi_wrote = False, wi_status = 0, wi_sent = [],
     wi_body = [], wi_room = None, wi_flush = True\<rparr>"

section \<open>The writers round it\<close>

record recorder =
  rec_status :: int
  rec_bytes :: nat
  rec_wrote :: bool

record meter =
  mt_status :: int
  mt_wrote :: bool

datatype rw = Wire wire | Recorder recorder rw | Metered meter rw

definition new_recorder :: recorder where
  "new_recorder = \<lparr>rec_status = 200, rec_bytes = 0, rec_wrote = False\<rparr>"

definition new_meter :: meter where
  "new_meter = \<lparr>mt_status = 200, mt_wrote = False\<rparr>"

text \<open>
  WriteHeader, Write, Flush and Header of the three writers. A recorder notes a status
  before it hands it on, so a panic below leaves the note behind.
\<close>

text \<open>The recorder of the metrics, on what the writer below it does with the same call.\<close>

definition meter_write_header :: "int \<Rightarrow> meter \<Rightarrow> rw \<Rightarrow> panic option \<times> rw \<Rightarrow> panic option \<times> rw" where
  [simp]: "meter_write_header n m w below =
     (if 100 \<le> n \<and> n \<le> 199 \<and> n \<noteq> 101 then (case below of (p, w') \<Rightarrow> (p, Metered m w'))
      else if mt_wrote m then (None, Metered m w)
      else (case below of (p, w') \<Rightarrow> (p, Metered (m\<lparr>mt_wrote := True, mt_status := n\<rparr>) w')))"

definition meter_write :: "meter \<Rightarrow> nat \<times> rw \<Rightarrow> nat \<times> rw" where
  [simp]: "meter_write m below = (case below of (n, w') \<Rightarrow> (n, Metered (m\<lparr>mt_wrote := True\<rparr>) w'))"

definition meter_flush :: "meter \<Rightarrow> rw \<Rightarrow> rw" where
  [simp]: "meter_flush m below = Metered (m\<lparr>mt_wrote := True\<rparr>) below"

fun rw_write_header :: "int \<Rightarrow> rw \<Rightarrow> panic option \<times> rw" where
  "rw_write_header n (Wire w) = (case wire_write_header n w of (p, w') \<Rightarrow> (p, Wire w'))"
| "rw_write_header n (Recorder r w) =
     (if 100 \<le> n \<and> n \<le> 199 \<and> n \<noteq> 101
      then (case rw_write_header n w of (p, w') \<Rightarrow> (p, Recorder r w'))
      else if rec_wrote r then (None, Recorder r w)
      else (case rw_write_header n w of
              (p, w') \<Rightarrow> (p, Recorder (r\<lparr>rec_wrote := True, rec_status := n\<rparr>) w')))"
| "rw_write_header n (Metered m w) = meter_write_header n m w (rw_write_header n w)"

fun rw_write :: "string \<Rightarrow> rw \<Rightarrow> nat \<times> rw" where
  "rw_write b (Wire w) = (case wire_write b w of (n, w') \<Rightarrow> (n, Wire w'))"
| "rw_write b (Recorder r w) =
     (case rw_write b w of
        (n, w') \<Rightarrow> (n, Recorder (r\<lparr>rec_wrote := True, rec_bytes := rec_bytes r + n\<rparr>) w'))"
| "rw_write b (Metered m w) = meter_write m (rw_write b w)"

fun rw_flush :: "rw \<Rightarrow> rw" where
  "rw_flush (Wire w) = Wire (wire_flush w)"
| "rw_flush (Recorder r w) = Recorder (r\<lparr>rec_wrote := True\<rparr>) (rw_flush w)"
| "rw_flush (Metered m w) = meter_flush m (rw_flush w)"

fun rw_wire :: "rw \<Rightarrow> wire" where
  "rw_wire (Wire w) = w"
| "rw_wire (Recorder r w) = rw_wire w"
| "rw_wire (Metered m w) = rw_wire w"

abbreviation rw_header :: "rw \<Rightarrow> headers" where
  "rw_header w \<equiv> wi_header (rw_wire w)"

fun rw_edit_header :: "(headers \<Rightarrow> headers) \<Rightarrow> rw \<Rightarrow> rw" where
  "rw_edit_header f (Wire w) = Wire (w\<lparr>wi_header := f (wi_header w)\<rparr>)"
| "rw_edit_header f (Recorder r w) = Recorder r (rw_edit_header f w)"
| "rw_edit_header f (Metered m w) = Metered m (rw_edit_header f w)"

fun rw_unwrap :: "rw \<Rightarrow> rw" where
  "rw_unwrap (Wire w) = Wire w"
| "rw_unwrap (Recorder r w) = w"
| "rw_unwrap (Metered m w) = w"

end
