(* ===== verification/Go_Json.thy ===== *)
theory Go_Json
  imports Go_Errors
begin

text \<open>
  The part of encoding/json the program writes with: objects of strings and numbers, with
  the encoder's string escapes, and http.StatusText. The encoder ends a document with a
  newline and hands it to the writer in one piece.
\<close>

datatype json = JString string | JInt int | JObject "(string \<times> json) list"

definition bslash :: char where
  "bslash = CHR 0x5C"

text \<open>One rune of a JSON string as encoding/json writes it (HTML escapes on).\<close>

definition json_rune :: "string \<Rightarrow> string" where
  "json_rune r =
     (if r = [CHR 0x22] then [bslash, CHR 0x22]
      else if r = [bslash] then [bslash, bslash]
      else if r = [CHR 8] then [bslash, CHR ''b'']
      else if r = [CHR 12] then [bslash, CHR ''f'']
      else if r = [CHR 10] then [bslash, CHR ''n'']
      else if r = [CHR 13] then [bslash, CHR ''r'']
      else if r = [CHR 9] then [bslash, CHR ''t'']
      else (case r of
              [c] \<Rightarrow>
                if byte_of c < (32::nat) \<or> c = CHR ''<'' \<or> c = CHR ''>'' \<or> c = CHR ''&''
                  then bslash # ''u00'' @ hex2 c
                else if byte_of c < (128::nat) then [c]
                else bslash # ''ufffd''
            | _ \<Rightarrow>
                if map byte_of r = [226, 128, 168::nat] then bslash # ''u2028''
                else if map byte_of r = [226, 128, 169::nat] then bslash # ''u2029''
                else r))"

definition json_string :: "string \<Rightarrow> string" where
  "json_string s = CHR 0x22 # concat (map json_rune (runes s)) @ [CHR 0x22]"

fun json_text :: "json \<Rightarrow> string" where
  "json_text (JString s) = json_string s"
| "json_text (JInt n) = format_int n"
| "json_text (JObject []) = ''{}''"
| "json_text (JObject (f # fs)) =
     ''{'' @ join (map (\<lambda>e. json_string (fst e) @ '':'' @ json_text (snd e)) (f # fs)) '','' @ ''}''"

definition json_encode :: "json \<Rightarrow> string" where
  "json_encode v = json_text v @ newline"

lemma json_encode_not_Nil [simp]: "json_encode v \<noteq> []"
  by (simp add: json_encode_def)

section \<open>http.StatusText\<close>

definition status_table :: "(int \<times> string) list" where
  "status_table =
     [(100, ''Continue''), (101, ''Switching Protocols''), (102, ''Processing''),
      (103, ''Early Hints''), (200, ''OK''), (201, ''Created''), (202, ''Accepted''),
      (203, ''Non-Authoritative Information''), (204, ''No Content''),
      (205, ''Reset Content''), (206, ''Partial Content''), (207, ''Multi-Status''),
      (208, ''Already Reported''), (226, ''IM Used''), (300, ''Multiple Choices''),
      (301, ''Moved Permanently''), (302, ''Found''), (303, ''See Other''),
      (304, ''Not Modified''), (305, ''Use Proxy''), (307, ''Temporary Redirect''),
      (308, ''Permanent Redirect''), (400, ''Bad Request''), (401, ''Unauthorized''),
      (402, ''Payment Required''), (403, ''Forbidden''), (404, ''Not Found''),
      (405, ''Method Not Allowed''), (406, ''Not Acceptable''),
      (407, ''Proxy Authentication Required''), (408, ''Request Timeout''),
      (409, ''Conflict''), (410, ''Gone''), (411, ''Length Required''),
      (412, ''Precondition Failed''), (413, ''Request Entity Too Large''),
      (414, ''Request URI Too Long''), (415, ''Unsupported Media Type''),
      (416, ''Requested Range Not Satisfiable''), (417, ''Expectation Failed''),
      (418, ''I'' @ [CHR 0x27] @ ''m a teapot''), (421, ''Misdirected Request''),
      (422, ''Unprocessable Entity''), (423, ''Locked''), (424, ''Failed Dependency''),
      (425, ''Too Early''), (426, ''Upgrade Required''), (428, ''Precondition Required''),
      (429, ''Too Many Requests''), (431, ''Request Header Fields Too Large''),
      (451, ''Unavailable For Legal Reasons''), (500, ''Internal Server Error''),
      (501, ''Not Implemented''), (502, ''Bad Gateway''), (503, ''Service Unavailable''),
      (504, ''Gateway Timeout''), (505, ''HTTP Version Not Supported''),
      (506, ''Variant Also Negotiates''), (507, ''Insufficient Storage''),
      (508, ''Loop Detected''), (510, ''Not Extended''),
      (511, ''Network Authentication Required'')]"

definition status_text :: "int \<Rightarrow> string" where
  "status_text n = (case map_of status_table n of Some t \<Rightarrow> t | None \<Rightarrow> [])"

end
