(* ===== verification/Web.thy ===== *)
theory Web
  imports Web_Http Go_Json
begin

text \<open>
  The HTTP Starter: web/middleware.go, web/respond.go and web/web.go.

  A handler takes the request and the state of its connection and gives back a panic or
  none, the request (a Go request is shared by pointer, and the mux writes the pattern
  into the one it was handed) and the connection. \<open>cn_w\<close> is the response writer the
  handler holds; a middleware that wraps it in a recorder hands the wrapped one down and
  goes on with its own when the call returns. \<open>cn_env\<close> is the rest of the process.
\<close>

section \<open>Loggers, requests and connections\<close>

datatype attr = AText string | ANum int | ATime duration

type_synonym attrs = "(string \<times> attr) list"

text \<open>
  \<open>lg_app\<close> tells the App's logger, whose level is the run-time level of the App, from
  slog.Default, which writes from INFO up.
\<close>

record logger =
  lg_app :: bool
  lg_attrs :: attrs

record log_entry =
  le_app :: bool
  le_level :: level
  le_msg :: string
  le_attrs :: attrs

definition log_with :: "attrs \<Rightarrow> logger \<Rightarrow> logger" where
  "log_with as lg = lg\<lparr>lg_attrs := lg_attrs lg @ as\<rparr>"

definition default_logger :: logger where
  "default_logger = \<lparr>lg_app = False, lg_attrs = []\<rparr>"

text \<open>
  \<open>rq_logger\<close>, \<open>rq_max_body\<close> and \<open>rq_claims\<close> are the values the Starters keep in the request's
  context.
\<close>

record 'c request =
  rq_method :: string
  rq_path :: string
  rq_pattern :: string
  rq_header :: headers
  rq_body :: string
  rq_ctx :: ctx
  rq_logger :: "logger option"
  rq_max_body :: "int option"
  rq_claims :: "'c option"

text \<open>
  \<open>cn_rand\<close> is the byte stream of crypto/rand, \<open>cn_drawn\<close> how much of it has been read;
  \<open>cn_series\<close> holds what the metrics recorded: route, status and duration of one request.
\<close>

record 'w conn =
  cn_w :: rw
  cn_log :: "log_entry list"
  cn_level :: level
  cn_clock :: time
  cn_rand :: "nat \<Rightarrow> char"
  cn_drawn :: nat
  cn_series :: "(string \<times> string \<times> duration) list"
  cn_env :: 'w

type_synonym ('c, 'w) handler =
  "'c request \<Rightarrow> 'w conn \<Rightarrow> panic option \<times> 'c request \<times> 'w conn"

type_synonym ('c, 'w) middleware = "('c, 'w) handler \<Rightarrow> ('c, 'w) handler"

definition enabled :: "logger \<Rightarrow> level \<Rightarrow> 'w conn \<Rightarrow> bool" where
  "enabled lg l c \<longleftrightarrow> (if lg_app lg then cn_level c else level_info) \<le> l"

definition log_line :: "logger \<Rightarrow> level \<Rightarrow> string \<Rightarrow> attrs \<Rightarrow> 'w conn \<Rightarrow> 'w conn" where
  "log_line lg l msg as c =
     (if enabled lg l c
      then c\<lparr>cn_log := cn_log c @
              [\<lparr>le_app = lg_app lg, le_level = l, le_msg = msg, le_attrs = lg_attrs lg @ as\<rparr>]\<rparr>
      else c)"

section \<open>logger.go\<close>

definition with_logger :: "logger option \<Rightarrow> 'c request \<Rightarrow> 'c request" where
  "with_logger lg r = (case lg of None \<Rightarrow> r | Some l \<Rightarrow> r\<lparr>rq_logger := Some l\<rparr>)"

definition logger_from :: "'c request \<Rightarrow> logger" where
  "logger_from r = (case rq_logger r of Some l \<Rightarrow> l | None \<Rightarrow> default_logger)"

section \<open>respond.go\<close>

definition default_max_body_bytes :: int where
  "default_max_body_bytes = 1048576"

definition with_max_body :: "int \<Rightarrow> 'c request \<Rightarrow> 'c request" where
  "with_max_body n r = r\<lparr>rq_max_body := Some n\<rparr>"

definition max_body_from :: "'c request \<Rightarrow> int" where
  "max_body_from r =
     (case rq_max_body r of Some n \<Rightarrow> if 0 < n then n else default_max_body_bytes
                          | None \<Rightarrow> default_max_body_bytes)"

definition problem_json :: "int \<Rightarrow> string \<Rightarrow> json" where
  "problem_json status detail =
     JObject ([(''type'', JString ''about:blank''),
               (''title'', JString (status_text status)),
               (''status'', JInt status)] @
              (if detail = [] then [] else [(''detail'', JString detail)]))"

text \<open>
  The shape WriteProblem and WriteJSON share: content type, status, one document. \<open>None\<close>
  as the document is a value the encoder cannot write.
\<close>

definition respond :: "string \<Rightarrow> int \<Rightarrow> json option \<Rightarrow> rw \<Rightarrow> panic option \<times> rw" where
  "respond ctype status doc w =
     (case rw_write_header status (rw_edit_header (hdr_set ''Content-Type'' ctype) w) of
        (Some p, w1) \<Rightarrow> (Some p, w1)
      | (None, w1) \<Rightarrow>
          (None, case doc of Some v \<Rightarrow> snd (rw_write (json_encode v) w1) | None \<Rightarrow> w1))"

definition write_problem :: "int \<Rightarrow> string \<Rightarrow> rw \<Rightarrow> panic option \<times> rw" where
  "write_problem status detail =
     respond ''application/problem+json'' status (Some (problem_json status detail))"

definition write_json :: "int \<Rightarrow> json option \<Rightarrow> rw \<Rightarrow> panic option \<times> rw" where
  "write_json status v = respond ''application/json'' status v"

text \<open>
  The errors of the JSON decoder and of the reader under it, as far as decodeError tells
  them apart.
\<close>

datatype json_err =
    SyntaxError int
  | TypeError string string
  | MaxBytesError int
  | UnexpectedEOF
  | PlainEOF
  | OtherDecode string

definition json_err_text :: "json_err \<Rightarrow> string" where
  "json_err_text e =
     (case e of
        SyntaxError n \<Rightarrow> ''invalid JSON''
      | TypeError field t \<Rightarrow> ''json: cannot unmarshal''
      | MaxBytesError n \<Rightarrow> ''http: request body too large''
      | UnexpectedEOF \<Rightarrow> ''unexpected EOF''
      | PlainEOF \<Rightarrow> ''EOF''
      | OtherDecode t \<Rightarrow> t)"

definition cut_prefix :: "string \<Rightarrow> string \<Rightarrow> string option" where
  "cut_prefix s p = (if has_prefix s p then Some (trim_prefix s p) else None)"

definition decode_error :: "json_err goerr \<Rightarrow> json_err goerr" where
  "decode_error e =
     (case errors_as (\<lambda>k. case k of MaxBytesError n \<Rightarrow> Some n | _ \<Rightarrow> None) e of
        Some limit \<Rightarrow>
          ErrWrap (''body is larger than the '' @ format_int limit @ '' byte limit: '') e
      | None \<Rightarrow>
     (case errors_as (\<lambda>k. case k of SyntaxError n \<Rightarrow> Some n | _ \<Rightarrow> None) e of
        Some off \<Rightarrow> ErrText (''body is malformed JSON at byte '' @ format_int off)
      | None \<Rightarrow>
     (if errors_is (\<lambda>k. k = UnexpectedEOF) e
        then ErrText ''body is malformed JSON: it ends part way through a value''
      else if errors_is (\<lambda>k. k = PlainEOF) e then ErrText ''body is empty''
      else
     (case errors_as (\<lambda>k. case k of TypeError f t \<Rightarrow> Some (f, t) | _ \<Rightarrow> None) e of
        Some (field, t) \<Rightarrow>
          if field \<noteq> [] then ErrText (''field '' @ quote field @ '' must be a '' @ t)
          else ErrText (''body must be a '' @ t)
      | None \<Rightarrow>
     (case cut_prefix (err_text json_err_text e) ''json: unknown field '' of
        Some name \<Rightarrow> ErrText (''unknown field '' @ name)
      | None \<Rightarrow> e)))))"

text \<open>
  http.MaxBytesReader: the bytes up to the cap, then the end of the body or the error of
  the cap. \<open>dec\<close> is the JSON decoder with unknown fields disallowed on what the reader
  gives; its second result is whether More finds another value.
\<close>

definition max_bytes_reader :: "int \<Rightarrow> string \<Rightarrow> string \<times> json_err" where
  "max_bytes_reader n body =
     (if int (length body) \<le> n then (body, PlainEOF) else (take (nat n) body, MaxBytesError n))"

definition decode_json :: "(string \<times> json_err \<Rightarrow> json_err goerr + 'v \<times> bool) \<Rightarrow> 'c request \<Rightarrow>
    json_err goerr + 'v" where
  "decode_json dec r =
     (case dec (max_bytes_reader (max_body_from r) (rq_body r)) of
        Inl e \<Rightarrow> Inl (decode_error e)
      | Inr (v, again) \<Rightarrow>
          if again then Inl (ErrText ''body must hold a single JSON value'') else Inr v)"

section \<open>middleware.go\<close>

definition max_request_id_len :: nat where
  "max_request_id_len = 64"

definition request_id_header :: string where
  "request_id_header = ''X-Request-Id''"

definition rpc_status_header :: string where
  "rpc_status_header = ''Grpc-Status''"

definition id_char :: "char \<Rightarrow> bool" where
  "id_char c \<longleftrightarrow> between 97 c 122 \<or> between 65 c 90 \<or> between 48 c 57 \<or> c \<in> set ''-_.''"

definition sane_request_id :: "string \<Rightarrow> bool" where
  "sane_request_id s \<longleftrightarrow> s \<noteq> [] \<and> length s \<le> max_request_id_len \<and> list_all id_char s"

definition new_request_id :: "'w conn \<Rightarrow> string \<times> 'w conn" where
  "new_request_id c =
     (concat (map (\<lambda>i. hex2 (cn_rand c i)) [cn_drawn c..<cn_drawn c + 16]),
      c\<lparr>cn_drawn := cn_drawn c + 16\<rparr>)"

definition request_id :: "('c, 'w) middleware" where
  "request_id next r c =
     (let (i, c1) = (if sane_request_id (hdr_get request_id_header (rq_header r))
                      then (hdr_get request_id_header (rq_header r), c) else new_request_id c)
      in next r (c1\<lparr>cn_w := rw_edit_header (hdr_set request_id_header i) (cn_w c1)\<rparr>))"

definition rpc_status :: "headers \<Rightarrow> string \<times> bool" where
  "rpc_status h =
     (let code0 = hdr_get (''Trailer:'' @ rpc_status_header) h;
          code = (if code0 = [] then hdr_get rpc_status_header h else code0)
      in (code, code \<noteq> [] \<and> code \<noteq> ''0''))"

definition is_probe_path :: "string \<Rightarrow> bool" where
  "is_probe_path p \<longleftrightarrow> p = ''/livez'' \<or> p = ''/readyz'' \<or> has_prefix p ''/actuator/''"

fun rec_of :: "rw \<Rightarrow> recorder" where
  "rec_of (Recorder r w) = r"
| "rec_of w = new_recorder"

definition access_line :: "logger \<Rightarrow> 'c request \<Rightarrow> time \<Rightarrow> 'w conn \<Rightarrow> 'w conn" where
  "access_line lg r start c =
     (let rec = rec_of (cn_w c);
          (code, failed) = rpc_status (rw_header (cn_w c))
      in log_line lg (if 500 \<le> rec_status rec \<or> failed then level_error else level_info) ''request''
           ([(''method'', AText (rq_method r)), (''path'', AText (rq_path r)),
             (''route'', AText (rq_pattern r)), (''status'', ANum (rec_status rec)),
             (''bytes'', ANum (int (rec_bytes rec))), (''duration'', ATime (cn_clock c - start))] @
            (if failed then [(''rpcCode'', AText code)] else [])) c)"

definition logging :: "logger \<Rightarrow> ('c, 'w) middleware" where
  "logging log next r c =
     (let req_log = log_with [(''requestId'', AText (hdr_get request_id_header (rw_header (cn_w c))))] log;
          r1 = with_logger (Some req_log) r
      in if is_probe_path (rq_path r1)
         then (case next r1 c of (p, _, c') \<Rightarrow> (p, r, c'))
         else (case next r1 (c\<lparr>cn_w := Recorder new_recorder (cn_w c)\<rparr>) of
                 (Some p, _, c2) \<Rightarrow> (Some p, r, c2\<lparr>cn_w := rw_unwrap (cn_w c2)\<rparr>)
               | (None, r2, c2) \<Rightarrow>
                   (None, r, (access_line req_log r2 (cn_clock c) c2)\<lparr>cn_w := rw_unwrap (cn_w c2)\<rparr>)))"

definition panic_text :: "panic \<Rightarrow> string" where
  "panic_text p = (case p of AbortHandler \<Rightarrow> ''net/http: abort Handler'' | PanicValue s \<Rightarrow> s)"

definition recover_handler :: "logger \<Rightarrow> panic option \<Rightarrow> 'c request \<Rightarrow> 'w conn \<Rightarrow>
    panic option \<times> 'w conn" where
  "recover_handler log p r c =
     (case p of
        None \<Rightarrow> (None, c)
      | Some AbortHandler \<Rightarrow> (Some AbortHandler, c)
      | Some v \<Rightarrow>
          (let c1 = log_line (log_with [(''requestId'',
                        AText (hdr_get request_id_header (rw_header (cn_w c))))] log) level_error ''panic''
                      [(''err'', AText (panic_text v)), (''method'', AText (rq_method r)),
                       (''path'', AText (rq_path r)), (''route'', AText (rq_pattern r))] c
           in if rec_wrote (rec_of (cn_w c1)) then (None, c1)
              else (case write_problem 500 ''internal error'' (cn_w c1) of
                      (p', w') \<Rightarrow> (p', c1\<lparr>cn_w := w'\<rparr>))))"

definition recovery :: "logger \<Rightarrow> ('c, 'w) middleware" where
  "recovery log next r c =
     (case cn_w c of
        Recorder rec w \<Rightarrow>
          (case next r c of
             (p, r2, c2) \<Rightarrow> (case recover_handler log p r2 c2 of (p', c3) \<Rightarrow> (p', r2, c3)))
      | _ \<Rightarrow>
          (case next r (c\<lparr>cn_w := Recorder new_recorder (cn_w c)\<rparr>) of
             (p, r2, c2) \<Rightarrow>
               (case recover_handler log p r2 c2 of
                  (p', c3) \<Rightarrow> (p', r2, c3\<lparr>cn_w := rw_unwrap (cn_w c3)\<rparr>))))"

definition default_middleware :: "logger \<Rightarrow> ('c, 'w) middleware list" where
  "default_middleware log = [request_id, logging log, recovery log]"

section \<open>web.go\<close>

record web_config =
  wc_addr :: string
  wc_read_header_timeout :: duration
  wc_idle_timeout :: duration
  wc_max_body :: int
  wc_cert_file :: string
  wc_key_file :: string

text \<open>
  The Server. \<open>sv_mux\<close> holds the patterns in the order they were mounted; \<open>sv_handler\<close> is
  what http.Server serves, \<open>None\<close> standing for the bare mux New puts there.
\<close>

record ('c, 'w) server =
  sv_app_log :: bool
  sv_mux :: "(string \<times> ('c, 'w) handler) list"
  sv_addr :: string
  sv_read_header_timeout :: duration
  sv_idle_timeout :: duration
  sv_handler :: "('c, 'w) handler option"
  sv_mw :: "('c, 'w) middleware list"
  sv_ln :: "string option"
  sv_max_body :: int
  sv_cert_file :: string
  sv_key_file :: string

definition web_new :: "web_config \<Rightarrow> bool \<Rightarrow> 'k goerr + ('c, 'w) server" where
  "web_new cfg has_log =
     (if (wc_cert_file cfg = []) \<noteq> (wc_key_file cfg = [])
      then Inl (ErrText ''web.tls: needs both certFile and keyFile, or neither'')
      else Inr \<lparr>sv_app_log = has_log, sv_mux = [],
                sv_addr = (if wc_addr cfg = [] then '':8080'' else wc_addr cfg),
                sv_read_header_timeout =
                  (if wc_read_header_timeout cfg = 0 then 5 * second else wc_read_header_timeout cfg),
                sv_idle_timeout =
                  (if wc_idle_timeout cfg = 0 then 120 * second else wc_idle_timeout cfg),
                sv_handler = None, sv_mw = [], sv_ln = None,
                sv_max_body =
                  (if wc_max_body cfg = 0 then default_max_body_bytes else wc_max_body cfg),
                sv_cert_file = wc_cert_file cfg, sv_key_file = wc_key_file cfg\<rparr>)"

text \<open>
  http.ServeMux panics (\<open>None\<close>) when a pattern is registered twice. \<open>pick\<close> is its
  routing: the pattern a request matches, or the status it answers when there is none.
\<close>

definition mux_handle :: "string \<Rightarrow> ('c, 'w) handler \<Rightarrow> (string \<times> ('c, 'w) handler) list \<Rightarrow>
    (string \<times> ('c, 'w) handler) list option" where
  "mux_handle p h m = (if p \<in> fst ` set m then None else Some (m @ [(p, h)]))"

definition web_handle :: "string \<Rightarrow> ('c, 'w) handler \<Rightarrow> ('c, 'w) server \<Rightarrow> ('c, 'w) server option" where
  "web_handle p h s = map_option (\<lambda>m. s\<lparr>sv_mux := m\<rparr>) (mux_handle p h (sv_mux s))"

text \<open>An http.HandlerFunc is a handler.\<close>

definition web_handle_func :: "string \<Rightarrow> ('c, 'w) handler \<Rightarrow> ('c, 'w) server \<Rightarrow> ('c, 'w) server option" where
  "web_handle_func p h s = web_handle p h s"

definition web_use :: "('c, 'w) middleware list \<Rightarrow> ('c, 'w) server \<Rightarrow> ('c, 'w) server" where
  "web_use mw s = s\<lparr>sv_mw := sv_mw s @ mw\<rparr>"

type_synonym router = "string list \<Rightarrow> string \<Rightarrow> string \<Rightarrow> string + int"

definition http_error :: "string \<Rightarrow> int \<Rightarrow> rw \<Rightarrow> panic option \<times> rw" where
  "http_error msg code w =
     (case rw_write_header code
             (rw_edit_header (\<lambda>h. hdr_set ''X-Content-Type-Options'' ''nosniff''
                (hdr_set ''Content-Type'' ''text/plain; charset=utf-8'' (hdr_del ''Content-Length'' h))) w) of
        (Some p, w1) \<Rightarrow> (Some p, w1)
      | (None, w1) \<Rightarrow> (None, snd (rw_write (msg @ newline) w1)))"

definition mux_serve :: "router \<Rightarrow> (string \<times> ('c, 'w) handler) list \<Rightarrow> ('c, 'w) handler" where
  "mux_serve pick m r c =
     (case pick (map fst m) (rq_method r) (rq_path r) of
        Inl p \<Rightarrow>
          (case map_of m p of
             Some h \<Rightarrow> h (r\<lparr>rq_pattern := p\<rparr>) c
           | None \<Rightarrow> (None, r, c))
      | Inr code \<Rightarrow>
          (case http_error (if code = 404 then ''404 page not found'' else status_text code) code (cn_w c) of
             (p, w') \<Rightarrow> (p, r, c\<lparr>cn_w := w'\<rparr>)))"

text \<open>The loop of Start from the last middleware to the first.\<close>

fun wrap_from :: "('c, 'w) middleware list \<Rightarrow> nat \<Rightarrow> ('c, 'w) handler \<Rightarrow> ('c, 'w) handler" where
  "wrap_from mw 0 h = h"
| "wrap_from mw (Suc i) h = wrap_from mw i ((mw ! i) h)"

definition web_wrap :: "router \<Rightarrow> ('c, 'w) server \<Rightarrow> ('c, 'w) handler" where
  "web_wrap pick s =
     (let h = wrap_from (sv_mw s) (length (sv_mw s)) (mux_serve pick (sv_mux s)) in
      (\<lambda>r c. case h (with_max_body (sv_max_body s) r) c of (p, _, c') \<Rightarrow> (p, r, c')))"

definition web_addr :: "('c, 'w) server \<Rightarrow> string" where
  "web_addr s = (case sv_ln s of None \<Rightarrow> sv_addr s | Some a \<Rightarrow> a)"

definition web_name :: string where "web_name = ''web''"

definition web_tier :: int where "web_tier = 2"

text \<open>
  \<open>listen\<close> is net.Listen, which gives the address it bound. The handler is set before the
  listener opens, so it is there when Start fails too. A Start that works gives the line it
  logs at INFO.
\<close>

type_synonym info_line = "string \<times> attrs"

definition listening :: "string \<Rightarrow> string \<Rightarrow> info_line" where
  "listening name addr = (''listening'', [(''component'', AText name), (''addr'', AText addr)])"

definition web_start :: "router \<Rightarrow> (string \<Rightarrow> 'k goerr + string) \<Rightarrow> ('c, 'w) server \<Rightarrow>
    ('k goerr + info_line) \<times> ('c, 'w) server" where
  "web_start pick listen s =
     (let s1 = s\<lparr>sv_handler := Some (web_wrap pick s)\<rparr> in
      case listen (sv_addr s1) of
        Inl e \<Rightarrow> (Inl e, s1)
      | Inr a \<Rightarrow> (Inr (listening web_name a), s1\<lparr>sv_ln := Some a\<rparr>))"

text \<open>What the serving goroutine sends on the death channel, and which listener it serves.\<close>

definition serve_death :: "('k \<Rightarrow> bool) \<Rightarrow> 'k goerr option \<Rightarrow> 'k goerr option" where
  "serve_death closed err =
     (case err of Some e \<Rightarrow> if errors_is closed e then None else Some e | None \<Rightarrow> None)"

datatype listener = PlainListener | TlsListener string string

definition web_serve :: "('c, 'w) server \<Rightarrow> listener" where
  "web_serve s =
     (if sv_cert_file s \<noteq> [] then TlsListener (sv_cert_file s) (sv_key_file s) else PlainListener)"

text \<open>What the port speaks: HTTP/1, HTTP/2 over TLS, and cleartext HTTP/2.\<close>

record protocols =
  proto_http1 :: bool
  proto_http2 :: bool
  proto_h2c :: bool

definition web_protocols :: protocols where
  "web_protocols = \<lparr>proto_http1 = True, proto_http2 = True, proto_h2c = True\<rparr>"

end
