(* ===== verification/Web_Contract.thy ===== *)
theory Web_Contract
  imports Web State_Machine
begin

text \<open>
  The contract between a middleware and the handler below it: a handler acts on the
  response only by the methods of its writer, with status codes net/http accepts, and only
  adds to the log. Every middleware of the Starter keeps the contract, so the contract of
  a whole stack follows from that of the handler at its bottom.
\<close>

section \<open>What a writer goes through\<close>

inductive rw_step :: "rw \<Rightarrow> rw \<Rightarrow> bool" where
  step_header: "rw_step w (rw_edit_header f w)"
| step_status: "valid_status n \<Longrightarrow> rw_step w (snd (rw_write_header n w))"
| step_body: "rw_step w (snd (rw_write b w))"
| step_flush: "rw_step w (rw_flush w)"

abbreviation rw_steps :: "rw \<Rightarrow> rw \<Rightarrow> bool" where
  "rw_steps \<equiv> rw_step\<^sup>*\<^sup>*"

lemma valid_status_200 [simp]: "valid_status 200" and valid_status_500 [simp]: "valid_status 500"
  by (simp_all add: valid_status_def)

lemma valid_no_panic [simp]: "valid_status n \<Longrightarrow> fst (rw_write_header n w) = None"
  by (induction n w rule: rw_write_header.induct)
    (auto simp: wire_write_header_def split: prod.splits)

lemma recorder_step:
  "rw_step (Recorder r w) x \<Longrightarrow> \<exists>r' w'. x = Recorder r' w' \<and> rw_steps w w'"
proof (induction "Recorder r w" x rule: rw_step.induct)
  case (step_status n)
  have "rw_steps w (snd (rw_write_header n w))"
    by (rule r_into_rtranclp) (rule rw_step.step_status [OF step_status])
  then show ?case by (auto split: prod.split)
next
  case (step_body b)
  then show ?case using rw_step.step_body [of w b] by (auto split: prod.split)
qed (auto intro: rw_step.intros)

lemma recorder_steps:
  "rw_steps (Recorder r w) x \<Longrightarrow> \<exists>r' w'. x = Recorder r' w' \<and> rw_steps w w'"
proof (induction rule: rtranclp_induct)
  case base
  then show ?case by blast
next
  case (step y z)
  then obtain r' w' where "y = Recorder r' w'" "rw_steps w w'" by blast
  with step(2) recorder_step [of r' w' z] show ?case by (meson rtranclp_trans)
qed

lemma metered_step:
  "rw_step (Metered m w) x \<Longrightarrow> \<exists>m' w'. x = Metered m' w' \<and> rw_steps w w'"
proof (induction "Metered m w" x rule: rw_step.induct)
  case (step_status n)
  have "rw_steps w (snd (rw_write_header n w))"
    by (rule r_into_rtranclp) (rule rw_step.step_status [OF step_status])
  then show ?case by (auto split: prod.split)
next
  case (step_body b)
  then show ?case using rw_step.step_body [of w b] by (auto split: prod.split)
qed (auto intro: rw_step.intros)

lemma metered_steps:
  "rw_steps (Metered m w) x \<Longrightarrow> \<exists>m' w'. x = Metered m' w' \<and> rw_steps w w'"
proof (induction rule: rtranclp_induct)
  case base
  then show ?case by blast
next
  case (step y z)
  then obtain r' w' where "y = Metered r' w'" "rw_steps w w'" by blast
  with step(2) metered_step [of r' w' z] show ?case by (meson rtranclp_trans)
qed

section \<open>Recorders that tell the truth\<close>

text \<open>
  Every recorder of the chain agrees with the wire under it: it has noted an answer exactly
  when the wire has one, and then the same status; before that it holds the 200 net/http
  would send.
\<close>

fun coherent :: "rw \<Rightarrow> bool" where
  "coherent (Wire w) = wi_flush w"
| "coherent (Recorder r w) =
     (coherent w \<and> rec_wrote r = wi_wrote (rw_wire w) \<and>
      rec_status r = (if wi_wrote (rw_wire w) then wi_status (rw_wire w) else 200))"
| "coherent (Metered m w) =
     (coherent w \<and> mt_wrote m = wi_wrote (rw_wire w) \<and>
      mt_status m = (if wi_wrote (rw_wire w) then wi_status (rw_wire w) else 200))"

lemma wire_edit_header [simp, http_simps]:
  "rw_wire (rw_edit_header f w) = (rw_wire w)\<lparr>wi_header := f (wi_header (rw_wire w))\<rparr>"
  by (induction w) auto

lemma wire_write_header_rw:
  "coherent w \<Longrightarrow> valid_status n \<Longrightarrow>
     rw_wire (snd (rw_write_header n w)) = snd (wire_write_header n (rw_wire w)) \<and>
     coherent (snd (rw_write_header n w))"
  by (induction n w rule: rw_write_header.induct)
    (auto simp: wire_write_header_def informational_def split: prod.splits)

lemma wire_write_count: "fst (rw_write b w) = fst (wire_write b (rw_wire w))"
  by (induction w) (auto split: prod.splits)

lemma wire_write_rw: "rw_wire (snd (rw_write b w)) = snd (wire_write b (rw_wire w))"
  by (induction w) (auto split: prod.splits)

lemma wire_flush_rw: "rw_wire (rw_flush w) = wire_flush (rw_wire w)"
  by (induction w) auto

lemma coherent_flushes: "coherent w \<Longrightarrow> wi_flush (rw_wire w)"
  by (induction w) auto

lemma coherent_edit_header [simp]: "coherent (rw_edit_header f w) = coherent w"
  by (induction w) auto

lemma wire_write_simps:
  "wi_wrote (snd (wire_write b x))"
  "wi_status (snd (wire_write b x)) = (if wi_wrote x then wi_status x else 200)"
  "wi_flush (snd (wire_write b x)) = wi_flush x"
  "length (wi_body (snd (wire_write b x))) = length (wi_body x) + fst (wire_write b x)"
  by (auto simp: wire_write_def wire_write_header_def Let_def informational_def body_allowed_def
      valid_status_def split: option.splits)

lemma coherent_write: "coherent w \<Longrightarrow> coherent (snd (rw_write b w))"
proof (induction w)
  case (Wire x)
  then show ?case by (auto simp: wire_write_simps split: prod.split dest: arg_cong [where f = snd])
      (metis snd_conv wire_write_simps(3))
next
  case (Recorder r w)
  have "rw_wire (snd (rw_write b w)) = snd (wire_write b (rw_wire w))" by (rule wire_write_rw)
  with Recorder show ?case by (auto simp: wire_write_simps split: prod.split)
next
  case (Metered m w)
  have "rw_wire (snd (rw_write b w)) = snd (wire_write b (rw_wire w))" by (rule wire_write_rw)
  with Metered show ?case by (auto simp: wire_write_simps split: prod.split)
qed

lemma wire_flush_simps:
  "wi_flush x \<Longrightarrow> wi_wrote (wire_flush x)"
  "wi_flush x \<Longrightarrow> wi_status (wire_flush x) = (if wi_wrote x then wi_status x else 200)"
  "wi_flush (wire_flush x) = wi_flush x"
  "wi_body (wire_flush x) = wi_body x"
  by (auto simp: wire_flush_def wire_write_header_def informational_def valid_status_def)

lemma coherent_flush: "coherent w \<Longrightarrow> coherent (rw_flush w)"
  by (induction w)
    (auto simp: wire_flush_simps wire_flush_rw coherent_flushes)

lemma coherent_step: "rw_step w w' \<Longrightarrow> coherent w \<Longrightarrow> coherent w'"
  by (induction rule: rw_step.induct)
    (auto simp: wire_write_header_rw coherent_write coherent_flush)

interpretation coherence: kept_by_steps rw_step coherent
  by unfold_locales (rule coherent_step)

lemmas coherent_steps = coherence.run_keeps

text \<open>The bytes a recorder counts are the bytes the wire takes.\<close>

definition byte_offset :: "rw \<Rightarrow> int" where
  "byte_offset w = int (rec_bytes (rec_of w)) - int (length (wi_body (rw_wire w)))"

fun is_recorder :: "rw \<Rightarrow> bool" where
  "is_recorder (Recorder r w) = True"
| "is_recorder w = False"

lemma body_write_header: "wi_body (rw_wire (snd (rw_write_header n w))) = wi_body (rw_wire w)"
  by (induction n w rule: rw_write_header.induct)
    (auto simp: wire_write_header_def split: prod.splits)

lemma bytes_step: "rw_step w w' \<Longrightarrow> is_recorder w \<Longrightarrow> byte_offset w' = byte_offset w"
proof (induction rule: rw_step.induct)
  case (step_header w f)
  then show ?case by (cases w) (auto simp: byte_offset_def)
next
  case (step_status n w)
  then show ?case using body_write_header [of n w]
    by (cases w) (auto simp: byte_offset_def split: prod.splits)
next
  case (step_body w b)
  then obtain r v where w: "w = Recorder r v" by (cases w) auto
  show ?case using wire_write_rw [of b v] wire_write_count [of b v]
      wire_write_simps(4) [of b "rw_wire v"]
    by (auto simp: w byte_offset_def split: prod.splits)
next
  case (step_flush w)
  then show ?case
    by (cases w) (auto simp: byte_offset_def wire_flush_rw wire_flush_simps)
qed

lemma bytes_steps: "rw_steps w w' \<Longrightarrow> is_recorder w \<Longrightarrow> byte_offset w' = byte_offset w"
proof (induction rule: rtranclp_induct)
  case (step y z)
  obtain r v where "w = Recorder r v" using step.prems by (cases w) auto
  with step.hyps(1) recorder_steps have "is_recorder y" by fastforce
  with step show ?case using bytes_step by simp
qed simp

section \<open>The contract\<close>

locale http_handler =
  fixes h :: "('c, 'w) handler"
  assumes acts: "h r c = (p, r', c') \<Longrightarrow> rw_steps (cn_w c) (cn_w c')"
    and logs: "h r c = (p, r', c') \<Longrightarrow> \<exists>es. cn_log c' = cn_log c @ es"
begin

lemma under_recorder:
  assumes "h r c = (p, r', c')" "cn_w c = Recorder rec w"
  shows "\<exists>rec' w'. cn_w c' = Recorder rec' w' \<and> rw_steps w w'"
  using acts [OF assms(1)] assms(2) recorder_steps by metis

lemma under_meter:
  assumes "h r c = (p, r', c')" "cn_w c = Metered m w"
  shows "\<exists>m' w'. cn_w c' = Metered m' w' \<and> rw_steps w w'"
  using acts [OF assms(1)] assms(2) metered_steps by metis

lemma keeps_coherent: "h r c = (p, r', c') \<Longrightarrow> coherent (cn_w c) \<Longrightarrow> coherent (cn_w c')"
  using acts coherent_steps by blast

lemma counts_bytes:
  "h r c = (p, r', c') \<Longrightarrow> is_recorder (cn_w c) \<Longrightarrow> byte_offset (cn_w c') = byte_offset (cn_w c)"
  using acts bytes_steps by blast

end

lemma steps_header: "rw_steps w (rw_edit_header f w)"
  by (rule r_into_rtranclp) (rule step_header)

lemma steps_status: "valid_status n \<Longrightarrow> rw_steps w (snd (rw_write_header n w))"
  by (rule r_into_rtranclp) (rule step_status)

lemma steps_body: "rw_steps w (snd (rw_write b w))"
  by (rule r_into_rtranclp) (rule step_body)

lemma respond_ok:
  assumes "valid_status n" "respond ct n doc w = (p, w')"
  shows "p = None \<and> rw_steps w w'"
proof -
  let ?w1 = "rw_edit_header (hdr_set ''Content-Type'' ct) w"
  obtain w2 where w2: "rw_write_header n ?w1 = (None, w2)"
    using valid_no_panic [OF assms(1), of ?w1] by (cases "rw_write_header n ?w1") auto
  have a: "rw_steps w ?w1" by (rule steps_header)
  have b: "rw_steps ?w1 w2" using steps_status [OF assms(1), of ?w1] w2 by simp
  have c: "rw_steps w2 w'"
    using assms(2) w2 steps_body by (auto simp: respond_def split: option.splits)
  from rtranclp_trans [OF rtranclp_trans [OF a b] c] assms(2) w2 show ?thesis
    by (simp add: respond_def)
qed

lemma http_error_ok:
  assumes "valid_status n" "http_error m n w = (p, w')"
  shows "p = None \<and> rw_steps w w'"
proof -
  let ?w1 = "rw_edit_header (\<lambda>h. hdr_set ''X-Content-Type-Options'' ''nosniff''
      (hdr_set ''Content-Type'' ''text/plain; charset=utf-8'' (hdr_del ''Content-Length'' h))) w"
  obtain w2 where w2: "rw_write_header n ?w1 = (None, w2)"
    using valid_no_panic [OF assms(1), of ?w1] by (cases "rw_write_header n ?w1") auto
  have a: "rw_steps w ?w1" by (rule steps_header)
  have b: "rw_steps ?w1 w2" using steps_status [OF assms(1), of ?w1] w2 by simp
  have c: "rw_steps w2 (snd (rw_write (m @ newline) w2))" by (rule steps_body)
  from rtranclp_trans [OF rtranclp_trans [OF a b] c] show ?thesis
    using assms(2) w2 by (simp add: http_error_def)
qed

text \<open>What log_line leaves alone.\<close>

lemma log_line_simps [simp, http_simps]:
  "cn_w (log_line lg l m as c) = cn_w c"
  "cn_level (log_line lg l m as c) = cn_level c"
  "cn_clock (log_line lg l m as c) = cn_clock c"
  "cn_series (log_line lg l m as c) = cn_series c"
  "cn_env (log_line lg l m as c) = cn_env c"
  "cn_log (log_line lg l m as c) = cn_log c @
     (if enabled lg l c
      then [\<lparr>le_app = lg_app lg, le_level = l, le_msg = m, le_attrs = lg_attrs lg @ as\<rparr>] else [])"
  by (simp_all add: log_line_def)

lemma access_line_simps [simp, http_simps]:
  "cn_w (access_line lg r t c) = cn_w c"
  "cn_level (access_line lg r t c) = cn_level c"
  by (simp_all add: access_line_def Let_def split: prod.split)

lemma access_line_log: "\<exists>es. cn_log (access_line lg r t c) = cn_log c @ es"
  by (simp add: access_line_def Let_def split: prod.split)

lemma new_request_id_simps [simp]:
  "cn_w (snd (new_request_id c)) = cn_w c" "cn_log (snd (new_request_id c)) = cn_log c"
  by (simp_all add: new_request_id_def)

lemma request_id_handler:
  assumes "http_handler h"
  shows "http_handler (request_id h)"
proof
  fix r c p r' c'
  assume run: "request_id h r c = (p, r', c')"
  define ic where "ic = (if sane_request_id (hdr_get request_id_header (rq_header r))
      then (hdr_get request_id_header (rq_header r), c) else new_request_id c)"
  let ?c1 = "snd ic\<lparr>cn_w := rw_edit_header (hdr_set request_id_header (fst ic)) (cn_w (snd ic))\<rparr>"
  have ic: "cn_w (snd ic) = cn_w c" "cn_log (snd ic) = cn_log c" by (simp_all add: ic_def)
  have h: "h r ?c1 = (p, r', c')"
    using run by (simp add: request_id_def ic_def [symmetric] Let_def split: prod.splits)
  have "rw_steps (cn_w c) (cn_w ?c1)" using ic steps_header by simp
  from rtranclp_trans [OF this http_handler.acts [OF assms h]]
  show "rw_steps (cn_w c) (cn_w c')" .
  show "\<exists>es. cn_log c' = cn_log c @ es" using http_handler.logs [OF assms h] ic by simp
qed

lemma logging_handler:
  assumes "http_handler h"
  shows "http_handler (logging log h)"
proof
  fix r c p r' c'
  assume run: "logging log h r c = (p, r', c')"
  define r1 where "r1 = with_logger
    (Some (log_with [(''requestId'', AText (hdr_get request_id_header (rw_header (cn_w c))))] log)) r"
  have "rw_steps (cn_w c) (cn_w c') \<and> (\<exists>es. cn_log c' = cn_log c @ es)"
  proof (cases "is_probe_path (rq_path r1)")
    case True
    obtain r2 where "h r1 c = (p, r2, c')"
      using run True by (auto simp: logging_def Let_def r1_def [symmetric] split: prod.splits)
    then show ?thesis using http_handler.acts [OF assms] http_handler.logs [OF assms] by blast
  next
    case False
    obtain p2 r2 c2 where h: "h r1 (c\<lparr>cn_w := Recorder new_recorder (cn_w c)\<rparr>) = (p2, r2, c2)"
      by (cases "h r1 (c\<lparr>cn_w := Recorder new_recorder (cn_w c)\<rparr>)") auto
    from http_handler.under_recorder [OF assms h] obtain rec' w'
      where w: "cn_w c2 = Recorder rec' w'" "rw_steps (cn_w c) w'" by auto
    from http_handler.logs [OF assms h] obtain es where es: "cn_log c2 = cn_log c @ es" by auto
    define lg where "lg =
      log_with [(''requestId'', AText (hdr_get request_id_header (rw_header (cn_w c))))] log"
    have "c' = (if p2 = None then access_line lg r2 (cn_clock c) c2 else c2)\<lparr>cn_w := rw_unwrap (cn_w c2)\<rparr>"
      using run h False
      by (cases p2) (auto simp: logging_def Let_def r1_def [symmetric] lg_def)
    moreover obtain es' where "cn_log (access_line lg r2 (cn_clock c) c2) = cn_log c2 @ es'"
      using access_line_log by blast
    ultimately show ?thesis using w es by auto
  qed
  then show "rw_steps (cn_w c) (cn_w c')" "\<exists>es. cn_log c' = cn_log c @ es" by blast+
qed

lemma write_problem_ok:
  "valid_status n \<Longrightarrow> write_problem n d w = (p, w') \<Longrightarrow> p = None \<and> rw_steps w w'"
  unfolding write_problem_def by (rule respond_ok)

lemma recover_handler_acts:
  assumes "recover_handler log p r c = (p', c')"
  shows "rw_steps (cn_w c) (cn_w c') \<and> (\<exists>es. cn_log c' = cn_log c @ es) \<and>
    (p' = None \<or> p' = Some AbortHandler)"
proof (cases "p = None \<or> p = Some AbortHandler")
  case True
  with assms show ?thesis by (auto simp: recover_handler_def)
next
  case False
  then obtain v where p: "p = Some (PanicValue v)" by (metis not_None_eq panic.exhaust)
  define c1 where "c1 = log_line (log_with [(''requestId'',
      AText (hdr_get request_id_header (rw_header (cn_w c))))] log) level_error ''panic''
      [(''err'', AText (panic_text (PanicValue v))), (''method'', AText (rq_method r)),
       (''path'', AText (rq_path r)), (''route'', AText (rq_pattern r))] c"
  have c1: "cn_w c1 = cn_w c" "\<exists>es. cn_log c1 = cn_log c @ es" by (simp_all add: c1_def)
  obtain p2 w2 where w2: "write_problem 500 ''internal error'' (cn_w c1) = (p2, w2)"
    by (cases "write_problem 500 ''internal error'' (cn_w c1)") auto
  have "(p', c') = (if rec_wrote (rec_of (cn_w c1)) then (None, c1) else (p2, c1\<lparr>cn_w := w2\<rparr>))"
    using assms p w2 by (auto simp: recover_handler_def c1_def [symmetric] Let_def)
  with c1 write_problem_ok [OF valid_status_500 w2] show ?thesis by (auto split: if_splits)
qed

lemma recovery_handler:
  assumes "http_handler h"
  shows "http_handler (recovery log h)"
proof
  fix r c p r' c'
  assume run: "recovery log h r c = (p, r', c')"
  define c1 where "c1 = (if is_recorder (cn_w c) then c else c\<lparr>cn_w := Recorder new_recorder (cn_w c)\<rparr>)"
  obtain p2 r2 c2 where h: "h r c1 = (p2, r2, c2)" by (cases "h r c1") auto
  obtain p3 c3 where rec: "recover_handler log p2 r2 c2 = (p3, c3)"
    by (cases "recover_handler log p2 r2 c2") auto
  have c': "cn_w c' = (if is_recorder (cn_w c) then cn_w c3 else rw_unwrap (cn_w c3))"
    "cn_log c' = cn_log c3"
    using run h rec by (auto simp: recovery_def c1_def split: rw.splits)
  have "rw_steps (cn_w c1) (cn_w c3)"
    using http_handler.acts [OF assms h] recover_handler_acts [OF rec] by (meson rtranclp_trans)
  then show "rw_steps (cn_w c) (cn_w c')"
    using c' recorder_steps [of new_recorder "cn_w c" "cn_w c3"] by (auto simp: c1_def split: if_splits)
  have "\<exists>es. cn_log c2 = cn_log c @ es"
    using http_handler.logs [OF assms h] by (auto simp: c1_def split: if_splits)
  then show "\<exists>es. cn_log c' = cn_log c @ es" using recover_handler_acts [OF rec] c' by auto
qed

text \<open>A mux of handlers that keep the contract keeps it.\<close>

lemma mux_handler:
  assumes "\<And>p h. (p, h) \<in> set m \<Longrightarrow> http_handler h"
    and "\<And>ps me pa code. pick ps me pa = Inr code \<Longrightarrow> valid_status code"
  shows "http_handler (mux_serve pick m)"
proof
  fix r c p r' c'
  assume run: "mux_serve pick m r c = (p, r', c')"
  have "rw_steps (cn_w c) (cn_w c') \<and> (\<exists>es. cn_log c' = cn_log c @ es)"
  proof (cases "pick (map fst m) (rq_method r) (rq_path r)")
    case (Inl q)
    show ?thesis
    proof (cases "map_of m q")
      case None
      with run Inl show ?thesis by (simp add: mux_serve_def)
    next
      case (Some h)
      then have "http_handler h" using assms(1) map_of_SomeD by metis
      with run Inl Some show ?thesis
        using http_handler.acts http_handler.logs by (fastforce simp: mux_serve_def)
    qed
  next
    case (Inr code)
    obtain p1 w1 where "http_error (if code = 404 then ''404 page not found'' else status_text code)
        code (cn_w c) = (p1, w1)" by (cases "http_error (if code = 404 then ''404 page not found''
        else status_text code) code (cn_w c)") auto
    with run Inr assms(2) [OF Inr] http_error_ok show ?thesis
      by (auto simp: mux_serve_def)
  qed
  then show "rw_steps (cn_w c) (cn_w c')" "\<exists>es. cn_log c' = cn_log c @ es" by blast+
qed

text \<open>The simplest handler of the Starter: one document with one status.\<close>

definition document_handler :: "(json option \<Rightarrow> rw \<Rightarrow> panic option \<times> rw) \<Rightarrow> json option \<Rightarrow>
    ('c, 'w) handler" where
  "document_handler write doc r c = (case write doc (cn_w c) of (p, w') \<Rightarrow> (p, r, c\<lparr>cn_w := w'\<rparr>))"

lemma document_handler_ok: "valid_status n \<Longrightarrow> http_handler (document_handler (write_json n) doc)"
  by unfold_locales
    (auto simp: document_handler_def write_json_def split: prod.splits dest: respond_ok)

end
