(* ===== verification/Web_Props.thy ===== *)
theory Web_Props
  imports Web_Contract
begin

text \<open>
  What the HTTP Starter promises: the access line tells what the client received, a panic
  becomes a 500 document and never leaves the stack, an abort passes through untouched,
  every response carries a request ID nobody can forge, and middleware nests in the order
  it is listed.
\<close>

section \<open>The access line\<close>

lemma wire_unwrap [simp]: "rw_wire (rw_unwrap w) = rw_wire w"
  by (cases w) auto

lemma finish_status:
  "wi_status (wire_finish x) = (if wi_wrote x then wi_status x else 200)"
  by (simp add: wire_finish_def wire_write_header_def informational_def valid_status_def)

definition request_logger :: "logger \<Rightarrow> 'w conn \<Rightarrow> logger" where
  "request_logger log c =
     log_with [(''requestId'', AText (hdr_get request_id_header (rw_header (cn_w c))))] log"

lemma logging_cases:
  assumes "logging log h r c = (p, r', c')" "\<not> is_probe_path (rq_path r)"
  shows "\<exists>r2 c2. h (with_logger (Some (request_logger log c)) r)
           (c\<lparr>cn_w := Recorder new_recorder (cn_w c)\<rparr>) = (p, r2, c2) \<and> r' = r \<and>
     c' = (if p = None then access_line (request_logger log c) r2 (cn_clock c) c2 else c2)
            \<lparr>cn_w := rw_unwrap (cn_w c2)\<rparr>"
proof -
  have "rq_path (with_logger (Some (request_logger log c)) r) = rq_path r"
    by (simp add: with_logger_def)
  with assms show ?thesis
    by (auto simp: logging_def request_logger_def [symmetric] Let_def
        split: prod.splits option.splits)
qed

text \<open>The line itself, written over the final state of the connection.\<close>

definition expected_line :: "logger \<Rightarrow> 'c request \<Rightarrow> string \<Rightarrow> 'w conn \<Rightarrow> 'w conn \<Rightarrow> log_entry" where
  "expected_line log r route c c' =
     (let status = wi_status (wire_finish (rw_wire (cn_w c')));
          (code, failed) = rpc_status (rw_header (cn_w c'))
      in \<lparr>le_app = lg_app log,
          le_level = (if 500 \<le> status \<or> failed then level_error else level_info),
          le_msg = ''request'',
          le_attrs = lg_attrs log @
            [(''requestId'', AText (hdr_get request_id_header (rw_header (cn_w c)))),
             (''method'', AText (rq_method r)), (''path'', AText (rq_path r)),
             (''route'', AText route), (''status'', ANum status),
             (''bytes'', ANum (int (length (wi_body (rw_wire (cn_w c'))))
                              - int (length (wi_body (rw_wire (cn_w c)))))),
             (''duration'', ATime (cn_clock c' - cn_clock c))] @
            (if failed then [(''rpcCode'', AText code)] else [])\<rparr>)"

text \<open>A handler may not change the method and the path it was asked for.\<close>

definition keeps_request :: "('c, 'w) handler \<Rightarrow> bool" where
  "keeps_request h \<longleftrightarrow>
     (\<forall>r c p r' c'. h r c = (p, r', c') \<longrightarrow> rq_method r' = rq_method r \<and> rq_path r' = rq_path r)"

lemma logging_line:
  assumes "http_handler h" "keeps_request h" "coherent (cn_w c)" "\<not> wi_wrote (rw_wire (cn_w c))"
    and "\<not> is_probe_path (rq_path r)" "logging log h r c = (None, r', c')"
  shows "\<exists>es route. cn_log c' = cn_log c @ es @
    (if enabled log (le_level (expected_line log r route c c')) c'
     then [expected_line log r route c c'] else [])"
proof -
  let ?c1 = "c\<lparr>cn_w := Recorder new_recorder (cn_w c)\<rparr>"
  let ?r1 = "with_logger (Some (request_logger log c)) r"
  obtain r2 c2 where h: "h ?r1 ?c1 = (None, r2, c2)"
    and c': "c' = (access_line (request_logger log c) r2 (cn_clock c) c2)\<lparr>cn_w := rw_unwrap (cn_w c2)\<rparr>"
    using logging_cases [OF assms(6,5)] by auto
  have w1: "coherent (cn_w ?c1)" "is_recorder (cn_w ?c1)" "byte_offset (cn_w ?c1)
      = - int (length (wi_body (rw_wire (cn_w c))))"
    using assms(3,4) by (simp_all add: new_recorder_def byte_offset_def)
  obtain rec w2 where w2: "cn_w c2 = Recorder rec w2"
    using http_handler.under_recorder [OF assms(1) h] by auto
  have "coherent (Recorder rec w2)"
    using http_handler.keeps_coherent [OF assms(1) h w1(1)] w2 by simp
  then have status: "rec_status rec = wi_status (wire_finish (rw_wire w2))"
    by (simp add: finish_status)
  have bytes: "int (rec_bytes rec) = int (length (wi_body (rw_wire w2)))
      - int (length (wi_body (rw_wire (cn_w c))))"
    using http_handler.counts_bytes [OF assms(1) h w1(2)] w1(3) w2 by (simp add: byte_offset_def)
  have req: "rq_method r2 = rq_method r" "rq_path r2 = rq_path r"
    using assms(2) h unfolding keeps_request_def by (force simp: with_logger_def)+
  obtain es where es: "cn_log c2 = cn_log c @ es" using http_handler.logs [OF assms(1) h] by auto
  have "cn_clock c' = cn_clock c2" "cn_level c' = cn_level c2" "rw_wire (cn_w c') = rw_wire w2"
    using c' w2 by (simp_all add: access_line_def Let_def split: prod.split)
  with c' w2 status bytes req es show ?thesis
    by (intro exI [of _ es] exI [of _ "rq_pattern r2"])
      (simp add: access_line_def expected_line_def request_logger_def log_with_def enabled_def Let_def
        split: prod.split)
qed


section \<open>Panics\<close>

definition under_recovery :: "'w conn \<Rightarrow> 'w conn" where
  "under_recovery c = (if is_recorder (cn_w c) then c else c\<lparr>cn_w := Recorder new_recorder (cn_w c)\<rparr>)"

lemma recovery_cases:
  assumes "h r (under_recovery c) = (p, r2, c2)"
    and "recover_handler log p r2 c2 = (p', c3)"
  shows "recovery log h r c =
    (p', r2, if is_recorder (cn_w c) then c3 else c3\<lparr>cn_w := rw_unwrap (cn_w c3)\<rparr>)"
  using assms by (auto simp: recovery_def under_recovery_def split: rw.split)

lemma under_recovery_coherent:
  "coherent (cn_w c) \<Longrightarrow> is_recorder (cn_w c) \<or> \<not> wi_wrote (rw_wire (cn_w c)) \<Longrightarrow>
     coherent (cn_w (under_recovery c)) \<and> is_recorder (cn_w (under_recovery c))"
  by (auto simp: under_recovery_def new_recorder_def)

lemma problem_on_wire:
  assumes "coherent w" "\<not> wi_wrote (rw_wire w)" "write_problem 500 d w = (p, w')"
  shows "p = None \<and> wi_wrote (rw_wire w') \<and> wi_status (rw_wire w') = 500 \<and>
    hdr_get ''Content-Type'' (wi_sent (rw_wire w')) = ''application/problem+json'' \<and>
    (wi_room (rw_wire w) = None \<longrightarrow>
       wi_body (rw_wire w') = wi_body (rw_wire w) @ json_encode (problem_json 500 d))"
proof -
  let ?w1 = "rw_edit_header (hdr_set ''Content-Type'' ''application/problem+json'') w"
  obtain w2 where w2: "rw_write_header 500 ?w1 = (None, w2)"
    using valid_no_panic [of 500 ?w1] by (cases "rw_write_header 500 ?w1") auto
  have wire2: "rw_wire w2 = snd (wire_write_header 500 (rw_wire ?w1))"
    using wire_write_header_rw [of ?w1 500] assms(1) w2 by simp
  have w': "p = None" "w' = snd (rw_write (json_encode (problem_json 500 d)) w2)"
    using assms(3) w2 by (simp_all add: write_problem_def respond_def)
  then have "rw_wire w' = snd (wire_write (json_encode (problem_json 500 d)) (rw_wire w2))"
    by (simp add: wire_write_rw)
  with wire2 w' assms(2) show ?thesis
    by (simp add: wire_write_def wire_write_header_def informational_def valid_status_def
        body_allowed_def Let_def)
qed

lemma recovery_on_panic:
  assumes "http_handler h" "coherent (cn_w c)" "is_recorder (cn_w c) \<or> \<not> wi_wrote (rw_wire (cn_w c))"
    and "h r (under_recovery c) = (Some (PanicValue v), r2, c2)"
  shows "\<exists>c'. recovery log h r c = (None, r2, c') \<and>
    (wi_wrote (rw_wire (cn_w c2)) \<longrightarrow> rw_wire (cn_w c') = rw_wire (cn_w c2)) \<and>
    (\<not> wi_wrote (rw_wire (cn_w c2)) \<longrightarrow>
       wi_wrote (rw_wire (cn_w c')) \<and> wi_status (rw_wire (cn_w c')) = 500 \<and>
       hdr_get ''Content-Type'' (wi_sent (rw_wire (cn_w c'))) = ''application/problem+json'' \<and>
       (wi_room (rw_wire (cn_w c2)) = None \<longrightarrow>
          wi_body (rw_wire (cn_w c')) =
            wi_body (rw_wire (cn_w c2)) @ json_encode (problem_json 500 ''internal error''))) \<and>
    cn_log c' = cn_log c2 @
      (if enabled log level_error c2
       then [\<lparr>le_app = lg_app log, le_level = level_error, le_msg = ''panic'',
              le_attrs = lg_attrs log @
                [(''requestId'', AText (hdr_get request_id_header (rw_header (cn_w c2)))),
                 (''err'', AText v), (''method'', AText (rq_method r2)),
                 (''path'', AText (rq_path r2)), (''route'', AText (rq_pattern r2))]\<rparr>] else [])"
proof -
  note u = under_recovery_coherent [OF assms(2,3)]
  then obtain rec0 w0 where u0: "cn_w (under_recovery c) = Recorder rec0 w0"
    by (cases "cn_w (under_recovery c)") auto
  obtain rec w2 where w2: "cn_w c2 = Recorder rec w2"
    using http_handler.under_recorder [OF assms(1,4) u0] by auto
  have coh: "coherent (cn_w c2)" using http_handler.keeps_coherent [OF assms(1,4)] u by blast
  then have wrote: "rec_wrote (rec_of (cn_w c2)) = wi_wrote (rw_wire (cn_w c2))" by (simp add: w2)
  define c3 where "c3 = log_line (log_with [(''requestId'',
      AText (hdr_get request_id_header (rw_header (cn_w c2))))] log) level_error ''panic''
      [(''err'', AText v), (''method'', AText (rq_method r2)),
       (''path'', AText (rq_path r2)), (''route'', AText (rq_pattern r2))] c2"
  obtain p w' where w': "write_problem 500 ''internal error'' (cn_w c2) = (p, w')"
    by (cases "write_problem 500 ''internal error'' (cn_w c2)") auto
  have c3: "cn_w c3 = cn_w c2" by (simp add: c3_def)
  have "recover_handler log (Some (PanicValue v)) r2 c2 =
      (if wi_wrote (rw_wire (cn_w c2)) then (None, c3) else (p, c3\<lparr>cn_w := w'\<rparr>))"
    using wrote w' c3 by (simp add: recover_handler_def panic_text_def c3_def [symmetric] Let_def)
  then obtain c4 where c4: "recover_handler log (Some (PanicValue v)) r2 c2 = (None, c4)"
    "c4 = (if wi_wrote (rw_wire (cn_w c2)) then c3 else c3\<lparr>cn_w := w'\<rparr>)"
    using problem_on_wire [OF coh _ w'] by (auto split: if_splits)
  have log: "cn_log c4 = cn_log c3" using c4(2) by simp
  show ?thesis
    unfolding recovery_cases [where h = h and r = r and c = c, OF assms(4) c4(1)]
    using c4(2) c3 log problem_on_wire [OF coh _ w']
    by (intro exI [of _ "if is_recorder (cn_w c) then c4 else c4\<lparr>cn_w := rw_unwrap (cn_w c4)\<rparr>"])
      (auto simp: c3_def log_with_def enabled_def)
qed


text \<open>
  A handler that aborts (http.ErrAbortHandler) gets its way: the abort comes out of
  Recovery and of Logging, neither of them writes a log line or a byte for it.
\<close>

theorem abort_passes_untouched:
  "(h r (under_recovery c) = (Some AbortHandler, r2, c2) \<longrightarrow>
     (\<exists>c'. recovery log h r c = (Some AbortHandler, r2, c') \<and> cn_log c' = cn_log c2 \<and>
        rw_wire (cn_w c') = rw_wire (cn_w c2))) \<and>
   (logging log h r c = (Some AbortHandler, r', c') \<longrightarrow>
     (\<exists>r2 c2. h (with_logger (Some (request_logger log c)) r)
          (if is_probe_path (rq_path r) then c else c\<lparr>cn_w := Recorder new_recorder (cn_w c)\<rparr>)
          = (Some AbortHandler, r2, c2) \<and> cn_log c' = cn_log c2 \<and>
        rw_wire (cn_w c') = rw_wire (cn_w c2)))"
proof (intro conjI impI)
  assume h: "h r (under_recovery c) = (Some AbortHandler, r2, c2)"
  show "\<exists>c'. recovery log h r c = (Some AbortHandler, r2, c') \<and> cn_log c' = cn_log c2 \<and>
        rw_wire (cn_w c') = rw_wire (cn_w c2)"
    using recovery_cases [where h = h and r = r and c = c and log = log, OF h]
    by (simp add: recover_handler_def)
next
  assume l: "logging log h r c = (Some AbortHandler, r', c')"
  show "\<exists>r2 c2. h (with_logger (Some (request_logger log c)) r)
          (if is_probe_path (rq_path r) then c else c\<lparr>cn_w := Recorder new_recorder (cn_w c)\<rparr>)
          = (Some AbortHandler, r2, c2) \<and> cn_log c' = cn_log c2 \<and>
        rw_wire (cn_w c') = rw_wire (cn_w c2)"
  proof (cases "is_probe_path (rq_path r)")
    case True
    with l show ?thesis
      by (auto simp: logging_def request_logger_def Let_def with_logger_def split: prod.splits)
  next
    case False
    from logging_cases [OF l False] False show ?thesis by force
  qed
qed

section \<open>Request IDs\<close>

definition after_request_id :: "'c request \<Rightarrow> 'w conn \<Rightarrow> 'w conn" where
  "after_request_id r c =
     (let (i, c1) = (if sane_request_id (hdr_get request_id_header (rq_header r))
                      then (hdr_get request_id_header (rq_header r), c) else new_request_id c)
      in c1\<lparr>cn_w := rw_edit_header (hdr_set request_id_header i) (cn_w c1)\<rparr>)"

lemma request_id_step: "request_id h r c = h r (after_request_id r c)"
  by (simp add: request_id_def after_request_id_def Let_def split: prod.split)

lemma after_request_id_simps [simp]:
  "cn_log (after_request_id r c) = cn_log c"
  "coherent (cn_w (after_request_id r c)) = coherent (cn_w c)"
  "wi_wrote (rw_wire (cn_w (after_request_id r c))) = wi_wrote (rw_wire (cn_w c))"
  by (simp_all add: after_request_id_def new_request_id_def Let_def split: prod.split)

lemma hex_char_id: "d < 16 \<Longrightarrow> id_char (hex_char d)"
  by (auto simp: id_char_def hex_char_def between_def)

lemma hex2_id: "list_all id_char (hex2 c) \<and> length (hex2 c) = 2"
proof -
  have "byte_of c < (256::nat)" using range_nat_of_char by auto
  then have "byte_of c div 16 < (16::nat)" by linarith
  then show ?thesis by (simp add: hex2_def hex_char_id)
qed

lemma new_request_id_sane: "sane_request_id (fst (new_request_id c))"
proof -
  have len: "length (concat (map (\<lambda>i. hex2 (f i)) xs)) = 2 * length xs" for f and xs :: "nat list"
    by (induction xs) (simp_all add: hex2_id)
  have all: "list_all id_char (concat (map (\<lambda>i. hex2 (f i)) xs))" for f and xs :: "nat list"
    using hex2_id by (induction xs) (simp_all add: list_all_append)
  let ?s = "concat (map (\<lambda>i. hex2 (cn_rand c i)) [cn_drawn c..<cn_drawn c + 16])"
  have "length ?s = 32" by (simp only: len length_upt)
  moreover from this have "?s \<noteq> []" by (metis list.size(3) zero_neq_numeral)
  ultimately show ?thesis using all [of "cn_rand c" "[cn_drawn c..<cn_drawn c + 16]"]
    unfolding new_request_id_def sane_request_id_def max_request_id_len_def fst_conv by simp
qed

lemma request_id_facts:
  "sane_request_id (hdr_get request_id_header (rw_header (cn_w (after_request_id r c))))"
  "sane_request_id (hdr_get request_id_header (rq_header r)) \<Longrightarrow>
     hdr_get request_id_header (rw_header (cn_w (after_request_id r c))) =
     hdr_get request_id_header (rq_header r)"
  using new_request_id_sane [of c]
  by (auto simp: after_request_id_def Let_def split: prod.split)

text \<open>
  C21: RequestID sets a request ID on every response before the handler runs: never empty,
  at most 64 bytes, letters, digits and \<open>-_.\<close> only, so it cannot forge a log line; it is
  the caller's own exactly when that one passes the same test, and is never a part of it.
\<close>

theorem request_id_cannot_be_forged:
  "\<exists>c1. request_id h r c = h r c1 \<and> cn_log c1 = cn_log c \<and>
     (let i = hdr_get request_id_header (rw_header (cn_w c1));
          own = hdr_get request_id_header (rq_header r)
      in 0 < length i \<and> length i \<le> 64 \<and> list_all id_char i \<and>
         (i = own) = sane_request_id own)"
proof -
  let ?c1 = "after_request_id r c"
  let ?i = "hdr_get request_id_header (rw_header (cn_w ?c1))"
  have "sane_request_id ?i" by (rule request_id_facts(1))
  then have i: "0 < length ?i" "length ?i \<le> 64" "list_all id_char ?i"
    by (simp_all add: sane_request_id_def max_request_id_len_def)
  have "(?i = hdr_get request_id_header (rq_header r)) =
      sane_request_id (hdr_get request_id_header (rq_header r))"
    using request_id_facts [of r c] by metis
  with i show ?thesis
    using request_id_step [of h r c] by (intro exI [of _ ?c1]) (simp add: Let_def)
qed

section \<open>The default stack\<close>

lemma recovery_keeps_request: "keeps_request h \<Longrightarrow> keeps_request (recovery log h)"
  unfolding keeps_request_def
  by (auto simp: recovery_def split: rw.splits prod.splits)

lemma recovery_contains:
  assumes "recovery log h r c = (p, r', c')"
  shows "p = None \<or> p = Some AbortHandler"
proof -
  obtain p2 r2 c2 where h: "h r (under_recovery c) = (p2, r2, c2)"
    by (cases "h r (under_recovery c)") auto
  obtain p3 c3 where rec: "recover_handler log p2 r2 c2 = (p3, c3)"
    by (cases "recover_handler log p2 r2 c2") auto
  have "p = p3" using assms recovery_cases [where h = h and r = r and c = c, OF h rec] by simp
  with recover_handler_acts [OF rec] show ?thesis by simp
qed

lemma logging_contains:
  assumes "\<And>r c p r' c'. h r c = (p, r', c') \<Longrightarrow> p = None \<or> p = Some AbortHandler"
    and "logging log h r c = (p, r', c')"
  shows "p = None \<or> p = Some AbortHandler"
proof (cases "is_probe_path (rq_path r)")
  case True
  with assms show ?thesis
    by (auto simp: logging_def Let_def with_logger_def split: prod.splits)
next
  case False
  from logging_cases [OF assms(2) False] assms(1) show ?thesis by metis
qed

lemma default_stack_unfold:
  "wrap_from (default_middleware log) (length (default_middleware log)) h =
     request_id (logging log (recovery log h))"
  by (simp add: default_middleware_def numeral_3_eq_3)


text \<open>
  The code's own document handlers keep the contract, so the library's lemmas apply to the
  default stack round them.
\<close>

interpretation document: http_handler "document_handler (write_json 200) doc" for doc
  by (rule document_handler_ok) simp

lemma document_keeps_request: "keeps_request (document_handler w doc)"
  by (auto simp: keeps_request_def document_handler_def split: prod.splits)

definition sample_request :: "unit request" where
  "sample_request =
     \<lparr>rq_method = ''GET'', rq_path = ''/hello'', rq_pattern = [],
      rq_header = [(''X-Request-Id'', [''abc-1''])], rq_body = [],
      rq_ctx = \<lparr>done_at = None\<rparr>, rq_logger = None, rq_max_body = None, rq_claims = None\<rparr>"

definition sample_conn :: "unit conn" where
  "sample_conn =
     \<lparr>cn_w = Wire new_wire, cn_log = [], cn_level = 0, cn_clock = 0, cn_rand = (\<lambda>i. CHR 0x2A),
      cn_drawn = 0, cn_series = [], cn_env = ()\<rparr>"

definition app_logger :: logger where
  "app_logger = \<lparr>lg_app = True, lg_attrs = []\<rparr>"

definition sample_document :: "(unit, unit) handler" where
  "sample_document = document_handler (write_json 200) (Some (JObject [(''ok'', JInt 1)]))"

definition panicking :: "(unit, unit) handler" where
  "panicking r c = (Some (PanicValue ''boom''), r, c)"

lemma panicking_ok: "http_handler panicking" "keeps_request panicking"
  by (unfold_locales) (auto simp: panicking_def keeps_request_def)

lemma sample_conn_ok [simp]:
  "coherent (cn_w sample_conn)" "\<not> wi_wrote (rw_wire (cn_w sample_conn))"
  "\<not> is_recorder (cn_w sample_conn)"
  by (simp_all add: sample_conn_def new_wire_def)



theorem abort_passes_untouched_witness:
  "\<exists>c'. recovery app_logger (\<lambda>r c. (Some AbortHandler, r, c)) sample_request sample_conn =
       (Some AbortHandler, sample_request, c') \<and> cn_log c' = cn_log (under_recovery sample_conn) \<and>
     rw_wire (cn_w c') = rw_wire (cn_w (under_recovery sample_conn))"
  using abort_passes_untouched [of "\<lambda>r c. (Some AbortHandler, r, c)" sample_request sample_conn
      sample_request "under_recovery sample_conn" app_logger sample_request sample_conn]
  by simp


text \<open>
  C23: What the contract asks about status codes is needed: a handler that calls
  WriteHeader with a code net/http does not know panics with nothing on the wire, but the
  recorder has already noted an answer, so Recovery writes no 500; the client receives an
  empty 200 and the access line reports the unknown code at INFO.
\<close>

definition bad_status :: "(unit, unit) handler" where
  "bad_status r c = (case rw_write_header 0 (cn_w c) of (p, w') \<Rightarrow> (p, r, c\<lparr>cn_w := w'\<rparr>))"

theorem bad_status_panic_becomes_an_empty_200:
  "case wrap_from (default_middleware app_logger)
      (length (default_middleware app_logger :: (unit, unit) middleware list))
      bad_status sample_request sample_conn of
     (p, r', c') \<Rightarrow> p = None \<and>
       fst (bad_status sample_request sample_conn) = Some (PanicValue ''invalid WriteHeader code 0'') \<and>
       \<not> wi_wrote (rw_wire (cn_w c')) \<and>
       wi_status (wire_finish (rw_wire (cn_w c'))) = 200 \<and>
       wi_body (wire_finish (rw_wire (cn_w c'))) = [] \<and>
       map (\<lambda>e. (le_level e, le_msg e)) (cn_log c') = [(level_error, ''panic''), (level_info, ''request'')] \<and>
       map_of (le_attrs (last (cn_log c'))) ''status'' = Some (ANum 0)"
  by code_simp

section \<open>The Server\<close>

lemma wrap_from_foldr: "n \<le> length mw \<Longrightarrow> wrap_from mw n h = foldr (\<lambda>m k. m k) (take n mw) h"
  by (induction n arbitrary: h) (simp_all add: take_Suc_conv_app_nth)

lemma web_wrap_foldr:
  "web_wrap pick s = (\<lambda>r c. case foldr (\<lambda>m k. m k) (sv_mw s) (mux_serve pick (sv_mux s))
      (with_max_body (sv_max_body s) r) c of (p, _, c') \<Rightarrow> (p, r, c'))"
  by (simp add: web_wrap_def wrap_from_foldr)

text \<open>
  Start nests the middleware in the order Use was given, the first outermost and the
  entries of a later Use inside, all of them round the mux; a second Start wraps the mux
  again and not what the first one built, so no middleware runs twice.
\<close>

theorem use_nests_in_order:
  "sv_handler (snd (web_start pick listen (web_use mw2 (web_use mw1 s)))) =
     Some (\<lambda>r c. case foldr (\<lambda>m k. m k) (sv_mw s @ mw1 @ mw2) (mux_serve pick (sv_mux s))
       (with_max_body (sv_max_body s) r) c of (p, _, c') \<Rightarrow> (p, r, c')) \<and>
   sv_handler (snd (web_start pick listen (snd (web_start pick listen s)))) =
     sv_handler (snd (web_start pick listen s))"
proof -
  have start: "sv_handler (snd (web_start pick listen t)) = Some (web_wrap pick t)" for t :: "('a, 'b) server"
    by (auto simp: web_start_def Let_def split: sum.split)
  have same: "web_wrap pick (snd (web_start pick listen s)) = web_wrap pick s"
    by (auto simp: web_start_def web_wrap_foldr Let_def split: sum.split)
  show ?thesis by (simp add: start same) (simp add: web_wrap_foldr web_use_def)
qed

text \<open>
  New refuses exactly the configurations that name one of the two TLS files without
  the other, so a Server built with a certificate serves TLS with the key that goes with
  it, and one built without serves plain HTTP; the zero fields have taken their defaults.
\<close>

theorem tls_is_both_keys_or_neither:
  "(case web_new cfg lg of
      Inl e \<Rightarrow> (wc_cert_file cfg = []) \<noteq> (wc_key_file cfg = [])
    | Inr s \<Rightarrow>
        (case web_serve s of
           PlainListener \<Rightarrow> wc_cert_file cfg = [] \<and> wc_key_file cfg = []
         | TlsListener cert key \<Rightarrow>
             cert = wc_cert_file cfg \<and> key = wc_key_file cfg \<and> cert \<noteq> [] \<and> key \<noteq> []) \<and>
        sv_addr s \<noteq> [] \<and> sv_read_header_timeout s \<noteq> 0 \<and> sv_idle_timeout s \<noteq> 0 \<and>
        sv_max_body s \<noteq> 0)"
  by (auto simp: web_new_def web_serve_def second_def default_max_body_bytes_def)

section \<open>Request bodies\<close>

lemma decode_error_keeps_limit:
  "errors_as (\<lambda>k. case k of MaxBytesError n \<Rightarrow> Some n | _ \<Rightarrow> None) (decode_error e) =
   errors_as (\<lambda>k. case k of MaxBytesError n \<Rightarrow> Some n | _ \<Rightarrow> None) e"
  by (simp add: decode_error_def split: option.split prod.split)

text \<open>
  DecodeJSON never reads more of a body than the cap (the Server's, when it is
  positive, and else 1 MiB); it accepts exactly one JSON value; and every error goes
  through the renaming, which keeps an over-long body recognisable to errors.As, with its
  limit.
\<close>

theorem decode_json_is_capped:
  "0 < max_body_from (with_max_body n r) \<and>
   max_body_from (with_max_body n r) = (if 0 < n then n else 1048576) \<and>
   (let given = max_bytes_reader (max_body_from r) (rq_body r) in
      int (length (fst given)) \<le> max_body_from r \<and>
      (case decode_json dec r of
         Inr v \<Rightarrow> dec given = Inr (v, False)
       | Inl e \<Rightarrow> (\<exists>v. dec given = Inr (v, True) \<and> e = ErrText ''body must hold a single JSON value'') \<or>
           (\<exists>e0. dec given = Inl e0 \<and> e = decode_error e0 \<and>
              errors_as (\<lambda>k. case k of MaxBytesError n \<Rightarrow> Some n | _ \<Rightarrow> None) e =
              errors_as (\<lambda>k. case k of MaxBytesError n \<Rightarrow> Some n | _ \<Rightarrow> None) e0)))"
proof -
  have pos: "0 < max_body_from r" for r :: "'a request"
    by (simp add: max_body_from_def default_max_body_bytes_def split: option.split)
  have cap: "int (length (fst (max_bytes_reader (max_body_from r) (rq_body r)))) \<le> max_body_from r"
    using pos [of r] by (simp add: max_bytes_reader_def)
  show ?thesis
    using pos cap
    by (auto simp: decode_json_def decode_error_keeps_limit Let_def with_max_body_def max_body_from_def
        default_max_body_bytes_def split: sum.splits prod.splits)
qed

end
