(* ===== verification/Web_Metrics.thy ===== *)
theory Web_Metrics
  imports Web_Props
begin

text \<open>
  web/metrics: the middleware that counts and times requests, and its record function. An
  entry of \<open>cn_series\<close> stands for the Inc and the Observe on one pair of labels.
\<close>

fun meter_of :: "rw \<Rightarrow> meter" where
  "meter_of (Metered m w) = m"
| "meter_of w = new_meter"

definition metrics_record :: "panic option \<Rightarrow> 'c request \<Rightarrow> meter \<Rightarrow> time \<Rightarrow> 'w conn \<Rightarrow>
    panic option \<times> 'w conn" where
  "metrics_record p r m start c =
     (if p = Some AbortHandler then (p, c)
      else (let code = (if p \<noteq> None \<and> \<not> mt_wrote m then 500 else mt_status m)
            in (p, c\<lparr>cn_series := cn_series c @ [(rq_pattern r, format_int code, cn_clock c - start)]\<rparr>)))"

definition metrics_middleware :: "('c, 'w) middleware" where
  "metrics_middleware next r c =
     (case next r (c\<lparr>cn_w := Metered new_meter (cn_w c)\<rparr>) of
        (p, r2, c2) \<Rightarrow>
          (case metrics_record p r2 (meter_of (cn_w c2)) (cn_clock c) c2 of
             (p', c3) \<Rightarrow> (p', r2, c3\<lparr>cn_w := rw_unwrap (cn_w c3)\<rparr>)))"

lemma metrics_record_simps [simp]:
  "fst (metrics_record p r m t c) = p"
  "cn_w (snd (metrics_record p r m t c)) = cn_w c"
  "cn_log (snd (metrics_record p r m t c)) = cn_log c"
  by (simp_all add: metrics_record_def Let_def)

lemma metrics_cases:
  assumes "h r (c\<lparr>cn_w := Metered new_meter (cn_w c)\<rparr>) = (p, r2, c2)"
  shows "metrics_middleware h r c =
    (p, r2, (snd (metrics_record p r2 (meter_of (cn_w c2)) (cn_clock c) c2))\<lparr>cn_w := rw_unwrap (cn_w c2)\<rparr>)"
  using assms metrics_record_simps(1,2) [of p r2 "meter_of (cn_w c2)" "cn_clock c" c2]
  by (cases "metrics_record p r2 (meter_of (cn_w c2)) (cn_clock c) c2")
    (simp add: metrics_middleware_def)

lemma metrics_handler:
  assumes "http_handler h"
  shows "http_handler (metrics_middleware h)"
proof
  fix r c p r' c'
  assume run: "metrics_middleware h r c = (p, r', c')"
  obtain p2 r2 c2 where h: "h r (c\<lparr>cn_w := Metered new_meter (cn_w c)\<rparr>) = (p2, r2, c2)"
    by (cases "h r (c\<lparr>cn_w := Metered new_meter (cn_w c)\<rparr>)") auto
  obtain m' w' where w: "cn_w c2 = Metered m' w'" "rw_steps (cn_w c) w'"
    using http_handler.under_meter [OF assms h] by auto
  obtain es where "cn_log c2 = cn_log c @ es" using http_handler.logs [OF assms h] by auto
  with run w metrics_cases [where h = h and r = r and c = c, OF h] show "rw_steps (cn_w c) (cn_w c')" "\<exists>es. cn_log c' = cn_log c @ es"
    by auto
qed



text \<open>
  The rule the package documents about its place is real: spliced above Logging, which
  hands a new request down, the metrics record the route the request had before the mux
  filled it in; and an abort is not counted wherever they stand.
\<close>

theorem metrics_above_logging_lose_the_route:
  "(case metrics_middleware (logging log h) r c of
      (p, r', c') \<Rightarrow>
        (\<exists>c2. snd (snd (logging log h r (c\<lparr>cn_w := Metered new_meter (cn_w c)\<rparr>))) = c2 \<and>
           (if p = Some AbortHandler then cn_series c' = cn_series c2
            else \<exists>status d. cn_series c' = cn_series c2 @ [(rq_pattern r, status, d)])))"
proof -
  have same: "fst (snd (logging log h r c0)) = r" for c0 :: "'b conn"
    by (auto simp: logging_def Let_def split: prod.split option.split)
  obtain p r2 c2 where l: "logging log h r (c\<lparr>cn_w := Metered new_meter (cn_w c)\<rparr>) = (p, r2, c2)"
    by (cases "logging log h r (c\<lparr>cn_w := Metered new_meter (cn_w c)\<rparr>)") auto
  with same [of "c\<lparr>cn_w := Metered new_meter (cn_w c)\<rparr>"] have "r2 = r" by simp
  then show ?thesis
    using metrics_cases [where h = "logging log h" and r = r and c = c, OF l] l
    by (auto simp: metrics_record_def Let_def)
qed

end
