(* ===== verification/Go_Encoding.thy ===== *)
theory Go_Encoding
  imports Go_Errors
begin

text \<open>
  time.Duration as text, and encoding/base64's RawURLEncoding with the big-endian unsigned
  integers it carries in a key set.
\<close>

section \<open>Durations as text\<close>

definition micro :: int where "micro = 1000"
definition milli :: int where "milli = 1000000"

text \<open>The digits of a fraction of \<open>10 ^ prec\<close>, without trailing zeros.\<close>

fun pad_left :: "nat \<Rightarrow> string \<Rightarrow> string" where
  "pad_left n s = replicate (n - length s) (CHR ''0'') @ s"

definition fraction :: "int \<Rightarrow> nat \<Rightarrow> string" where
  "fraction v prec =
     (let ds = rev (dropWhile (\<lambda>c. c = CHR ''0'') (rev (pad_left prec (nat_text (nat (v mod 10 ^ prec))))))
      in if ds = [] then [] else CHR ''.'' # ds)"

definition duration_text :: "duration \<Rightarrow> string" where
  "duration_text d =
     (let u = \<bar>d\<bar>;
          body =
            (if u = 0 then ''0s''
             else if u < micro then format_int u @ ''ns''
             else if u < milli then format_int (u div micro) @ fraction u 3 @ [CHR 0xC2, CHR 0xB5, CHR ''s'']
             else if u < second then format_int (u div milli) @ fraction u 6 @ ''ms''
             else (let s = u div second; h = s div 3600; m = (s div 60) mod 60 in
                   (if 0 < h then format_int h @ ''h'' else []) @
                   (if 0 < h \<or> 0 < m then format_int m @ ''m'' else []) @
                   format_int (s mod 60) @ fraction u 9 @ ''s''))
      in if d < 0 then CHR ''-'' # body else body)"

section \<open>Base64\<close>

text \<open>RawURLEncoding: the URL alphabet, no padding; the decoder skips CR and LF.\<close>

definition b64_value :: "char \<Rightarrow> nat option" where
  "b64_value c =
     (if between 65 c 90 then Some (byte_of c - 65)
      else if between 97 c 122 then Some (byte_of c - 71)
      else if between 48 c 57 then Some (byte_of c + 4)
      else if c = CHR ''-'' then Some 62
      else if c = CHR ''_'' then Some 63
      else None)"

definition b64_char :: "nat \<Rightarrow> char" where
  "b64_char n =
     (if n < 26 then char_of (n + 65)
      else if n < 52 then char_of (n + 71)
      else if n < 62 then char_of (n - 4)
      else if n = 62 then CHR ''-'' else CHR ''_'')"

fun b64_values :: "string \<Rightarrow> nat list option" where
  "b64_values [] = Some []"
| "b64_values (c # s) =
     (if c = CHR 10 \<or> c = CHR 13 then b64_values s
      else (case (b64_value c, b64_values s) of (Some n, Some ns) \<Rightarrow> Some (n # ns) | _ \<Rightarrow> None))"

text \<open>Four digits of six bits are three bytes; what is left over is cut off, one digit alone is an error.\<close>

fun b64_bytes :: "nat list \<Rightarrow> nat list option" where
  "b64_bytes [] = Some []"
| "b64_bytes [a] = None"
| "b64_bytes [a, b] = Some [a * 4 + b div 16]"
| "b64_bytes [a, b, c] = Some [a * 4 + b div 16, (b mod 16) * 16 + c div 4]"
| "b64_bytes (a # b # c # d # ns) =
     map_option (\<lambda>bs. (a * 4 + b div 16) # ((b mod 16) * 16 + c div 4) # ((c mod 4) * 64 + d) # bs)
       (b64_bytes ns)"

definition b64_decode :: "string \<Rightarrow> nat list option" where
  "b64_decode s = (case b64_values s of None \<Rightarrow> None | Some ns \<Rightarrow> b64_bytes ns)"

fun b64_digits :: "nat list \<Rightarrow> nat list" where
  "b64_digits [] = []"
| "b64_digits [x] = [x div 4, (x mod 4) * 16]"
| "b64_digits [x, y] = [x div 4, (x mod 4) * 16 + y div 16, (y mod 16) * 4]"
| "b64_digits (x # y # z # bs) =
     (x div 4) # ((x mod 4) * 16 + y div 16) # ((y mod 16) * 4 + z div 64) # (z mod 64) # b64_digits bs"

definition b64_encode :: "nat list \<Rightarrow> string" where
  "b64_encode bs = map b64_char (b64_digits bs)"

text \<open>big.Int.SetBytes, and the bytes of a number with no leading zero.\<close>

definition big_endian :: "nat list \<Rightarrow> nat" where
  "big_endian bs = foldl (\<lambda>n b. 256 * n + b) 0 bs"

fun nat_bytes :: "nat \<Rightarrow> nat list" where
  "nat_bytes n = (if n = 0 then [] else nat_bytes (n div 256) @ [n mod 256])"

declare nat_bytes.simps [simp del]

lemma b64_value_char: "n < 64 \<Longrightarrow> b64_value (b64_char n) = Some n"
proof -
  assume "n < 64"
  then consider "n < 26" | "26 \<le> n" "n < 52" | "52 \<le> n" "n < 62" | "n = 62" | "n = 63"
    by linarith
  then show ?thesis
    by cases (auto simp: b64_value_def b64_char_def between_def)
qed

lemma b64_char_not_newline: "n < 64 \<Longrightarrow> b64_char n \<noteq> CHR 10 \<and> b64_char n \<noteq> CHR 13"
proof -
  assume "n < 64"
  then have "b64_value (b64_char n) \<noteq> None" by (simp add: b64_value_char)
  moreover have "b64_value (CHR 10) = None" "b64_value (CHR 13) = None"
    by (simp_all add: b64_value_def between_def)
  ultimately show ?thesis by metis
qed

lemma b64_values_map: "list_all (\<lambda>n. n < 64) ns \<Longrightarrow> b64_values (map b64_char ns) = Some ns"
  by (induction ns) (simp_all add: b64_value_char b64_char_not_newline)

text \<open>The six-bit digits of three bytes, and the bytes again.\<close>

lemma digit_bounds:
  fixes x y :: nat
  shows "x < 256 \<Longrightarrow> x div 4 < 64" "y < 256 \<Longrightarrow> x mod 4 * 16 + y div 16 < 64"
    "y < 256 \<Longrightarrow> x mod 16 * 4 + y div 64 < 64" "x mod 4 * 16 < 64" "x mod 16 * 4 < 64" "x mod 64 < 64"
proof -
  have m: "x mod 4 < 4" "x mod 16 < 16" "x mod 64 < 64" by simp_all
  show "x < 256 \<Longrightarrow> x div 4 < 64" by linarith
  show "x mod 4 * 16 < 64" "x mod 16 * 4 < 64" "x mod 64 < 64" using m by linarith+
  assume "y < 256"
  then have "y div 16 < 16" "y div 64 < 4" by linarith+
  with m show "x mod 4 * 16 + y div 16 < 64" "x mod 16 * 4 + y div 64 < 64" by linarith+
qed

lemma byte_back:
  fixes x y :: nat
  shows "y < 256 \<Longrightarrow> x div 4 * 4 + (x mod 4 * 16 + y div 16) div 16 = x"
    "y < 256 \<Longrightarrow> (x mod 4 * 16 + y div 16) mod 16 = y div 16"
    "x div 4 * 4 + (x mod 4 * 16) div 16 = x"
    "y < 256 \<Longrightarrow> x div 16 * 16 + (x mod 16 * 4 + y div 64) div 4 = x"
    "y < 256 \<Longrightarrow> (x mod 16 * 4 + y div 64) mod 4 = y div 64"
    "x div 16 * 16 + (x mod 16 * 4) div 4 = x"
    "x div 64 * 64 + x mod 64 = x"
proof -
  have a: "x div 4 * 4 + x mod 4 = x" "x div 16 * 16 + x mod 16 = x" "x div 64 * 64 + x mod 64 = x"
    by simp_all
  show "x div 4 * 4 + (x mod 4 * 16) div 16 = x" "x div 16 * 16 + (x mod 16 * 4) div 4 = x"
    "x div 64 * 64 + x mod 64 = x" using a by simp_all
  assume "y < 256"
  then have y: "y div 16 < 16" "y div 64 < 4" by linarith+
  then have d: "(x mod 4 * 16 + y div 16) div 16 = x mod 4" "(x mod 16 * 4 + y div 64) div 4 = x mod 16"
    by simp_all
  show "x div 4 * 4 + (x mod 4 * 16 + y div 16) div 16 = x"
    "x div 16 * 16 + (x mod 16 * 4 + y div 64) div 4 = x" unfolding d by (rule a)+
  show "(x mod 4 * 16 + y div 16) mod 16 = y div 16" "(x mod 16 * 4 + y div 64) mod 4 = y div 64"
    using y by simp_all
qed

lemma high_bits:
  fixes y :: nat
  assumes "y < 256"
  shows "y div 16 div 16 = 0" "y div 16 mod 16 = y div 16" "y div 64 div 4 = 0" "y div 64 mod 4 = y div 64"
proof -
  from assms have "y div 16 < 16" "y div 64 < 4" by linarith+
  then show "y div 16 div 16 = 0" "y div 16 mod 16 = y div 16" "y div 64 div 4 = 0"
    "y div 64 mod 4 = y div 64" by simp_all
qed

lemma b64_digits_range:
  "list_all (\<lambda>b. b < 256) bs \<Longrightarrow> list_all (\<lambda>n. n < 64) (b64_digits bs)"
  by (induction bs rule: b64_digits.induct) (simp_all add: digit_bounds)

lemma b64_bytes_digits: "list_all (\<lambda>b. b < 256) bs \<Longrightarrow> b64_bytes (b64_digits bs) = Some bs"
  by (induction bs rule: b64_digits.induct) (simp_all add: byte_back high_bits)

lemma b64_decode_encode: "list_all (\<lambda>b. b < 256) bs \<Longrightarrow> b64_decode (b64_encode bs) = Some bs"
  by (simp add: b64_decode_def b64_encode_def b64_values_map b64_digits_range b64_bytes_digits)

lemma big_endian_nat_bytes: "big_endian (nat_bytes n) = n"
proof (induction n rule: nat_bytes.induct)
  case (1 n)
  then show ?case by (subst nat_bytes.simps) (auto simp: big_endian_def)
qed

lemma nat_bytes_range: "list_all (\<lambda>b. b < 256) (nat_bytes n)"
proof (induction n rule: nat_bytes.induct)
  case (1 n)
  then show ?case by (subst nat_bytes.simps) auto
qed

lemma nat_bytes_Nil: "nat_bytes n = [] \<longleftrightarrow> n = 0"
  by (subst nat_bytes.simps) auto

end
