(* ===== verification/Jwks.thy ===== *)
theory Jwks
  imports Go_Encoding "HOL-Library.AList"
begin

text \<open>
  The key set of the Security Starter (security/jwks.go): reading a published JWKS
  document, the three sources of keys, and the cache with its rate-limited re-read.

  The point decoder of crypto/ecdsa, the JSON decoder, the PEM and x509 decoders and the
  HTTP client are parameters, collected in \<open>key_world\<close>; \<open>'p\<close> is a point on a curve.
\<close>

datatype curve = P256 | P384 | P521

datatype 'p pubkey = RsaKey nat nat | EcKey curve 'p

text \<open>Keys by kid, several under one kid, as the range over the Go map happens to list them.\<close>

type_synonym 'p key_map = "(string \<times> 'p pubkey list) list"

record jwk =
  jw_kty :: string
  jw_kid :: string
  jw_use :: string
  jw_n :: string
  jw_e :: string
  jw_crv :: string
  jw_x :: string
  jw_y :: string

text \<open>An HTTP answer: status code, status line, and the body or the error that cut it off.\<close>

record 'k http_answer =
  ha_code :: int
  ha_status :: string
  ha_body :: string
  ha_error :: "'k goerr option"

text \<open>What a PEM block decodes to: RSA, ECDSA, or a key of another type, named as \<open>%T\<close> prints it.\<close>

datatype 'p x509_key = Usable "'p pubkey" | OtherType string

record ('p, 'k) key_world =
  kw_point :: "curve \<Rightarrow> nat list \<Rightarrow> 'k goerr + 'p"
  kw_json :: "string \<Rightarrow> 'k goerr + jwk list"
  kw_pem :: "string \<Rightarrow> (string \<times> string) option"
  kw_pkix :: "string \<Rightarrow> 'k goerr + 'p x509_key"
  kw_pkcs1 :: "string \<Rightarrow> 'k goerr + 'p x509_key"
  kw_cert :: "string \<Rightarrow> 'k goerr + 'p x509_key"
  kw_base64_error :: "string \<Rightarrow> 'k goerr"

section \<open>One published key\<close>

definition decode_b64 :: "('p, 'k) key_world \<Rightarrow> string \<Rightarrow> 'k goerr + nat list" where
  "decode_b64 kw s = (case b64_decode s of None \<Rightarrow> Inl (kw_base64_error kw s) | Some bs \<Rightarrow> Inr bs)"

definition b64uint :: "('p, 'k) key_world \<Rightarrow> string \<Rightarrow> 'k goerr + nat" where
  "b64uint kw s =
     (case decode_b64 kw s of
        Inl e \<Rightarrow> Inl (ErrWrap ''is not base64url: '' e)
      | Inr bs \<Rightarrow> if bs = [] then Inl (ErrText ''is empty'') else Inr (big_endian bs))"

definition rsa_key :: "('p, 'k) key_world \<Rightarrow> jwk \<Rightarrow> 'k goerr + 'p pubkey" where
  "rsa_key kw j =
     (case b64uint kw (jw_n j) of
        Inl e \<Rightarrow> Inl e
      | Inr n \<Rightarrow>
     (case b64uint kw (jw_e j) of
        Inl e \<Rightarrow> Inl e
      | Inr x \<Rightarrow>
          if \<not> int64 (int x) \<or> x < 3 \<or> 2 ^ 31 - 1 < x
          then Inl (ErrText (''rsa exponent '' @ format_int (int x) @ '' is out of range''))
          else Inr (RsaKey n x)))"

definition curve_of :: "string \<Rightarrow> (curve \<times> nat) option" where
  "curve_of crv =
     (if crv = ''P-256'' then Some (P256, 32)
      else if crv = ''P-384'' then Some (P384, 48)
      else if crv = ''P-521'' then Some (P521, 66)
      else None)"

definition ec_key :: "('p, 'k) key_world \<Rightarrow> jwk \<Rightarrow> 'k goerr + 'p pubkey" where
  "ec_key kw j =
     (case curve_of (jw_crv j) of
        None \<Rightarrow> Inl (ErrText (''unsupported curve '' @ quote (jw_crv j)))
      | Some (c, sz) \<Rightarrow>
     (case decode_b64 kw (jw_x j) of
        Inl e \<Rightarrow> Inl (ErrWrap ''ec x: '' e)
      | Inr x \<Rightarrow>
     (case decode_b64 kw (jw_y j) of
        Inl e \<Rightarrow> Inl (ErrWrap ''ec y: '' e)
      | Inr y \<Rightarrow>
          if length x \<noteq> sz \<or> length y \<noteq> sz
          then Inl (ErrText (''ec coordinates are '' @ format_int (int (length x)) @ '' and '' @
                 format_int (int (length y)) @ '' bytes, want '' @ format_int (int sz) @
                 '' for '' @ jw_crv j))
          else (case kw_point kw c (4 # x @ y) of Inl e \<Rightarrow> Inl e | Inr p \<Rightarrow> Inr (EcKey c p)))))"

definition public_key :: "('p, 'k) key_world \<Rightarrow> jwk \<Rightarrow> 'k goerr + 'p pubkey" where
  "public_key kw j =
     (if jw_kty j = ''RSA'' then rsa_key kw j
      else if jw_kty j = ''EC'' then ec_key kw j
      else Inl (ErrText (''unsupported key type '' @ quote (jw_kty j))))"

section \<open>The document\<close>

definition add_key :: "string \<Rightarrow> 'p pubkey \<Rightarrow> 'p key_map \<Rightarrow> 'p key_map" where
  "add_key kid key out =
     AList.update kid ((case map_of out kid of None \<Rightarrow> [] | Some ks \<Rightarrow> ks) @ [key]) out"

fun collect_keys :: "('p, 'k) key_world \<Rightarrow> jwk list \<Rightarrow> 'p key_map \<Rightarrow> 'p key_map" where
  "collect_keys kw [] out = out"
| "collect_keys kw (j # js) out =
     (if jw_use j \<noteq> [] \<and> jw_use j \<noteq> ''sig'' then collect_keys kw js out
      else (case public_key kw j of
              Inl e \<Rightarrow> collect_keys kw js out
            | Inr key \<Rightarrow> collect_keys kw js (add_key (jw_kid j) key out)))"

definition parse_jwks :: "('p, 'k) key_world \<Rightarrow> string \<Rightarrow> 'k goerr + 'p key_map" where
  "parse_jwks kw body =
     (case kw_json kw body of
        Inl e \<Rightarrow> Inl (ErrWrap ''is not JSON: '' e)
      | Inr js \<Rightarrow>
          (let out = collect_keys kw js [] in
           if out = [] then Inl (ErrText ''holds no usable signing key'') else Inr out))"

section \<open>The sources\<close>

definition jwks_timeout :: duration where "jwks_timeout = 10 * second"
definition jwks_min_refetch :: duration where "jwks_min_refetch = 10 * second"
definition jwks_max_bytes :: nat where "jwks_max_bytes = 1048576"

text \<open>A load takes the clock and the world and may take time.\<close>

type_synonym ('p, 'w, 'k) loader = "time \<Rightarrow> 'w \<Rightarrow> ('k goerr + 'p key_map) \<times> time \<times> 'w"

definition fetch_jwks :: "('p, 'k) key_world \<Rightarrow>
    (string \<Rightarrow> time \<Rightarrow> 'w \<Rightarrow> ('k goerr + 'k http_answer) \<times> time \<times> 'w) \<Rightarrow> string \<Rightarrow> ('p, 'w, 'k) loader" where
  "fetch_jwks kw get url t w =
     (case get url t w of
        (Inl e, t', w') \<Rightarrow>
          (Inl (ErrWrap (''security.jwt.jwksUrl: fetching the key set from '' @ url @ '': '') e), t', w')
      | (Inr a, t', w') \<Rightarrow>
          (if ha_code a \<noteq> 200
           then (Inl (ErrText (''security.jwt.jwksUrl: fetching the key set from '' @ url @ '': '' @
                  ha_status a)), t', w')
           else (case (if length (ha_body a) < jwks_max_bytes then ha_error a else None) of
                   Some e \<Rightarrow>
                     (Inl (ErrWrap (''security.jwt.jwksUrl: reading the key set from '' @ url @ '': '') e),
                      t', w')
                 | None \<Rightarrow>
                     (case parse_jwks kw (take jwks_max_bytes (ha_body a)) of
                        Inl e \<Rightarrow>
                          (Inl (ErrWrap (''security.jwt.jwksUrl: the key set at '' @ url @ '': '') e), t', w')
                      | Inr keys \<Rightarrow> (Inr keys, t', w')))))"

definition load_file :: "('p, 'k) key_world \<Rightarrow> (string \<Rightarrow> 'w \<Rightarrow> 'k goerr + string) \<Rightarrow> string \<Rightarrow>
    ('p, 'w, 'k) loader" where
  "load_file kw read path t w =
     (case read path w of
        Inl e \<Rightarrow> (Inl (ErrWrap ''security.jwt.jwksFile: '' e), t, w)
      | Inr b \<Rightarrow>
          (case parse_jwks kw b of
             Inl e \<Rightarrow> (Inl (ErrWrap (''security.jwt.jwksFile: '' @ path @ '' '') e), t, w)
           | Inr keys \<Rightarrow> (Inr keys, t, w)))"

definition read_pem_public_key :: "('p, 'k) key_world \<Rightarrow> (string \<Rightarrow> 'w \<Rightarrow> 'k goerr + string) \<Rightarrow>
    string \<Rightarrow> 'w \<Rightarrow> 'k goerr + 'p pubkey" where
  "read_pem_public_key kw read path w =
     (case read path w of
        Inl e \<Rightarrow> Inl (ErrWrap ''security.jwt.publicKeyFile: '' e)
      | Inr b \<Rightarrow>
     (case kw_pem kw b of
        None \<Rightarrow> Inl (ErrText (''security.jwt.publicKeyFile: '' @ path @ '' holds no PEM block''))
      | Some (typ, bytes) \<Rightarrow>
     (case (if typ = ''PUBLIC KEY'' then Some (kw_pkix kw bytes)
            else if typ = ''RSA PUBLIC KEY'' then Some (kw_pkcs1 kw bytes)
            else if typ = ''CERTIFICATE'' then Some (kw_cert kw bytes) else None) of
        None \<Rightarrow> Inl (ErrText (''security.jwt.publicKeyFile: '' @ path @ '' is a '' @ quote typ @
                  '' block, want PUBLIC KEY, RSA PUBLIC KEY or CERTIFICATE''))
      | Some (Inl e) \<Rightarrow> Inl (ErrWrap (''security.jwt.publicKeyFile: '' @ path @ '': '') e)
      | Some (Inr (Usable key)) \<Rightarrow> Inr key
      | Some (Inr (OtherType t)) \<Rightarrow>
          Inl (ErrText (''security.jwt.publicKeyFile: '' @ path @ '' holds a '' @ t @
            '', and only RSA and ECDSA public keys verify a token'')))))"

section \<open>The key set\<close>

record ('p, 'w, 'k) key_set =
  ks_load :: "('p, 'w, 'k) loader option"
  ks_keyless :: bool
  ks_min_refetch :: duration
  ks_keys :: "'p key_map"
  ks_fetched :: "time option"

definition new_key_set :: "('p, 'k) key_world \<Rightarrow>
    (string \<Rightarrow> time \<Rightarrow> 'w \<Rightarrow> ('k goerr + 'k http_answer) \<times> time \<times> 'w) \<Rightarrow> string \<Rightarrow> ('p, 'w, 'k) key_set" where
  "new_key_set kw get url =
     \<lparr>ks_load = Some (fetch_jwks kw get url), ks_keyless = False,
      ks_min_refetch = jwks_min_refetch, ks_keys = [], ks_fetched = None\<rparr>"

definition new_file_key_set :: "('p, 'k) key_world \<Rightarrow> (string \<Rightarrow> 'w \<Rightarrow> 'k goerr + string) \<Rightarrow>
    string \<Rightarrow> time \<Rightarrow> 'w \<Rightarrow> 'k goerr + ('p, 'w, 'k) key_set" where
  "new_file_key_set kw read path t w =
     (case load_file kw read path t w of
        (Inl e, t', w') \<Rightarrow> Inl e
      | (Inr keys, t', w') \<Rightarrow>
          Inr \<lparr>ks_load = Some (load_file kw read path), ks_keyless = False,
               ks_min_refetch = jwks_min_refetch, ks_keys = keys, ks_fetched = Some t'\<rparr>)"

definition new_pem_key_set :: "('p, 'k) key_world \<Rightarrow> (string \<Rightarrow> 'w \<Rightarrow> 'k goerr + string) \<Rightarrow>
    string \<Rightarrow> 'w \<Rightarrow> 'k goerr + ('p, 'w, 'k) key_set" where
  "new_pem_key_set kw read path w =
     (case read_pem_public_key kw read path w of
        Inl e \<Rightarrow> Inl e
      | Inr key \<Rightarrow> Inr \<lparr>ks_load = None, ks_keyless = True, ks_min_refetch = 0,
                       ks_keys = [([], [key])], ks_fetched = None\<rparr>)"

definition candidates :: "string \<Rightarrow> ('p, 'w, 'k) key_set \<Rightarrow> 'p pubkey list" where
  "candidates kid ks =
     (if kid = [] then concat (map snd (ks_keys ks))
      else (case map_of (ks_keys ks) kid of None \<Rightarrow> [] | Some keys \<Rightarrow> keys))"

definition refresh :: "string \<Rightarrow> ('p, 'w, 'k) key_set \<Rightarrow> time \<Rightarrow> 'w \<Rightarrow>
    'k goerr option \<times> ('p, 'w, 'k) key_set \<times> time \<times> 'w" where
  "refresh kid ks t w =
     (case ks_load ks of
        None \<Rightarrow>
          (Some (ErrText (''security.jwt.publicKeyFile: the token was not signed by this key, '' @
             ''and a PEM file is read once; restart after changing it'')), ks, t, w)
      | Some load \<Rightarrow>
          if (case ks_fetched ks of None \<Rightarrow> False | Some f \<Rightarrow> t - f < ks_min_refetch ks)
          then (Some (ErrText (''security.jwt: no signing key '' @ quote kid @
                  '' in the key set, and it was re-read less than '' @
                  duration_text (ks_min_refetch ks) @ '' ago'')), ks, t, w)
          else (let ks1 = ks\<lparr>ks_fetched := Some t\<rparr> in
                case load t w of
                  (Inl e, t', w') \<Rightarrow> (Some e, ks1, t', w')
                | (Inr keys, t', w') \<Rightarrow> (None, ks1\<lparr>ks_keys := keys\<rparr>, t', w')))"

text \<open>
  keyfunc; \<open>header_kid\<close> is the token's kid when it is a string. The lock is held throughout,
  so calls run one after another.
\<close>

definition keyfunc :: "string option \<Rightarrow> ('p, 'w, 'k) key_set \<Rightarrow> time \<Rightarrow> 'w \<Rightarrow>
    ('k goerr + 'p pubkey list) \<times> ('p, 'w, 'k) key_set \<times> time \<times> 'w" where
  "keyfunc header_kid ks t w =
     (let kid = (if ks_keyless ks then [] else (case header_kid of None \<Rightarrow> [] | Some k \<Rightarrow> k)) in
      if candidates kid ks \<noteq> [] then (Inr (candidates kid ks), ks, t, w)
      else (case refresh kid ks t w of
              (Some e, ks', t', w') \<Rightarrow> (Inl e, ks', t', w')
            | (None, ks', t', w') \<Rightarrow>
                if candidates kid ks' \<noteq> [] then (Inr (candidates kid ks'), ks', t', w')
                else (Inl (ErrText (''security.jwt: no signing key '' @ quote kid @ '' in the key set'')),
                      ks', t', w')))"

end
