(* ===== verification/Jwks_Props.thy ===== *)
theory Jwks_Props
  imports Jwks
begin

text \<open>
  What the key set promises: it reads back every key an issuer publishes and keeps all of
  them, verifies with nothing else, survives an outage of the issuer with the keys it has,
  and never reads its source more often than the floor allows.
\<close>

section \<open>Reading a document\<close>

lemma decode_b64_encode: "list_all (\<lambda>b. b < 256) bs \<Longrightarrow> decode_b64 kw (b64_encode bs) = Inr bs"
  by (simp add: decode_b64_def b64_decode_encode)

lemma b64uint_encode: "0 < n \<Longrightarrow> b64uint kw (b64_encode (nat_bytes n)) = Inr n"
  by (simp add: b64uint_def decode_b64_encode nat_bytes_range nat_bytes_Nil big_endian_nat_bytes)

definition published_rsa :: "string \<Rightarrow> nat \<Rightarrow> nat \<Rightarrow> jwk" where
  "published_rsa kid n e =
     \<lparr>jw_kty = ''RSA'', jw_kid = kid, jw_use = ''sig'', jw_n = b64_encode (nat_bytes n),
      jw_e = b64_encode (nat_bytes e), jw_crv = [], jw_x = [], jw_y = []\<rparr>"

definition published_ec :: "string \<Rightarrow> string \<Rightarrow> nat list \<Rightarrow> nat list \<Rightarrow> jwk" where
  "published_ec kid crv x y =
     \<lparr>jw_kty = ''EC'', jw_kid = kid, jw_use = [], jw_n = [], jw_e = [], jw_crv = crv,
      jw_x = b64_encode x, jw_y = b64_encode y\<rparr>"

text \<open>
  C31: A key published the way RFC 7518 says is the key that is read back: an RSA key with
  its modulus and exponent, exactly when the exponent is in the range crypto/rsa can hold;
  an elliptic-curve key as the uncompressed point, exactly when both coordinates have the
  size of the curve and crypto/ecdsa finds the point on it.
\<close>

theorem published_keys_read_back:
  assumes "0 < n" "0 < e" "list_all (\<lambda>b. b < 256) x" "list_all (\<lambda>b. b < 256) y"
    and "curve_of crv = Some (c, sz)"
  shows "(public_key kw (published_rsa kid n e) = Inr k \<longleftrightarrow>
      3 \<le> e \<and> e \<le> 2 ^ 31 - 1 \<and> k = RsaKey n e) \<and>
    (public_key kw (published_ec kid crv x y) = Inr k \<longleftrightarrow>
      length x = sz \<and> length y = sz \<and> (\<exists>p. kw_point kw c (4 # x @ y) = Inr p \<and> k = EcKey c p))"
proof
  have "e \<le> 2 ^ 31 - 1 \<Longrightarrow> int64 (int e)" by (simp add: int64_def)
  then show "public_key kw (published_rsa kid n e) = Inr k \<longleftrightarrow>
      3 \<le> e \<and> e \<le> 2 ^ 31 - 1 \<and> k = RsaKey n e"
    using assms(1,2) by (auto simp: public_key_def published_rsa_def rsa_key_def b64uint_encode)
  show "public_key kw (published_ec kid crv x y) = Inr k \<longleftrightarrow>
      length x = sz \<and> length y = sz \<and> (\<exists>p. kw_point kw c (4 # x @ y) = Inr p \<and> k = EcKey c p)"
    using assms(3-5) by (auto simp: public_key_def published_ec_def ec_key_def decode_b64_encode
        split: sum.split)
qed

definition usable :: "('p, 'k) key_world \<Rightarrow> jwk \<Rightarrow> 'p pubkey option" where
  "usable kw j =
     (if jw_use j = [] \<or> jw_use j = ''sig''
      then (case public_key kw j of Inr k \<Rightarrow> Some k | Inl e \<Rightarrow> None) else None)"

definition keys_under :: "('p, 'k) key_world \<Rightarrow> string \<Rightarrow> jwk list \<Rightarrow> 'p pubkey list" where
  "keys_under kw kid js = somes (map (\<lambda>j. if jw_kid j = kid then usable kw j else None) js)"

lemma map_of_add_key:
  "map_of (add_key kid key out) k =
     (if k = kid then Some ((case map_of out kid of None \<Rightarrow> [] | Some ks \<Rightarrow> ks) @ [key]) else map_of out k)"
  by (simp add: add_key_def update_conv')

lemma collect_keys_map:
  assumes "\<And>k. map_of out k \<noteq> Some []"
  shows "map_of (collect_keys kw js out) kid =
    (case (case map_of out kid of None \<Rightarrow> [] | Some ks \<Rightarrow> ks) @ keys_under kw kid js of
       [] \<Rightarrow> None | ks \<Rightarrow> Some ks)"
  using assms
proof (induction js arbitrary: out)
  case Nil
  then show ?case by (auto simp: keys_under_def split: option.split list.split)
next
  case (Cons j js)
  show ?case
  proof (cases "usable kw j")
    case None
    then have "collect_keys kw (j # js) out = collect_keys kw js out"
      by (auto simp: usable_def split: if_splits sum.splits)
    moreover have "keys_under kw kid (j # js) = keys_under kw kid js"
      using None by (simp add: keys_under_def)
    ultimately show ?thesis using Cons.IH [OF Cons.prems] by simp
  next
    case (Some key)
    then have "collect_keys kw (j # js) out = collect_keys kw js (add_key (jw_kid j) key out)"
      by (auto simp: usable_def split: if_splits sum.splits)
    moreover have "keys_under kw kid (j # js) =
        (if jw_kid j = kid then key # keys_under kw kid js else keys_under kw kid js)"
      using Some by (simp add: keys_under_def)
    moreover have "map_of (add_key (jw_kid j) key out) k \<noteq> Some []" for k
      using Cons.prems by (simp add: map_of_add_key)
    ultimately show ?thesis
      using Cons.IH [of "add_key (jw_kid j) key out"] by (auto simp: map_of_add_key)
  qed
qed

lemma collect_keys_distinct:
  "distinct (map fst out) \<Longrightarrow> distinct (map fst (collect_keys kw js out))"
  by (induction js arbitrary: out)
    (auto simp: add_key_def distinct_update split: sum.split)

lemma somes_Nil: "somes xs = [] \<longleftrightarrow> (\<forall>x \<in> set xs. x = None)"
  by (induction xs rule: somes.induct) auto

lemma keys_under_Nil: "(\<forall>kid. keys_under kw kid js = []) \<longleftrightarrow> (\<forall>j \<in> set js. usable kw j = None)"
proof -
  have "keys_under kw kid js = [] \<longleftrightarrow> (\<forall>j \<in> set js. jw_kid j = kid \<longrightarrow> usable kw j = None)" for kid
    by (auto simp: keys_under_def somes_Nil)
  then show ?thesis by blast
qed

lemma parse_jwks_map:
  assumes "kw_json kw body = Inr js"
  shows "(case parse_jwks kw body of
      Inl e \<Rightarrow> \<forall>j \<in> set js. usable kw j = None
    | Inr m \<Rightarrow> m \<noteq> [] \<and> distinct (map fst m) \<and>
        (\<forall>kid. map_of m kid = (case keys_under kw kid js of [] \<Rightarrow> None | ks \<Rightarrow> Some ks)))"
proof -
  let ?m = "collect_keys kw js []"
  have m: "map_of ?m kid = (case keys_under kw kid js of [] \<Rightarrow> None | ks \<Rightarrow> Some ks)" for kid
    using collect_keys_map [of "[]"] by simp
  show ?thesis
  proof (cases "?m = []")
    case True
    then have "keys_under kw kid js = []" for kid using m [of kid] by (auto split: list.splits)
    then have "\<forall>j \<in> set js. usable kw j = None" using keys_under_Nil by blast
    with True assms show ?thesis by (simp add: parse_jwks_def)
  next
    case False
    with assms m show ?thesis using collect_keys_distinct [of "[]"]
      by (simp add: parse_jwks_def Let_def)
  qed
qed

text \<open>
  C30: A key set keeps every usable key of the document, all that share a kid under that
  kid and in the order of the document, and skips the rest; a document with no usable key
  is refused.
\<close>

theorem parse_jwks_keeps_every_usable_key:
  assumes "kw_json kw body = Inr js"
  shows "(case parse_jwks kw body of
      Inl e \<Rightarrow> \<forall>j \<in> set js. usable kw j = None
    | Inr m \<Rightarrow> m \<noteq> [] \<and> distinct (map fst m) \<and>
        (\<forall>kid. map_of m kid = (case keys_under kw kid js of [] \<Rightarrow> None | ks \<Rightarrow> Some ks)))"
  using assms by (rule parse_jwks_map)

section \<open>Sources\<close>

text \<open>
  What keyfunc asks of a source: a read that succeeds brings at least one key.
\<close>

locale key_source =
  fixes load :: "('p, 'w, 'k) loader"
  assumes brings_a_key: "load t w = (Inr keys, t', w') \<Longrightarrow> concat (map snd keys) \<noteq> []"
begin

lemma refresh_answers_no_kid:
  assumes "ks_load ks = Some load" "refresh kid ks t w = (None, ks', t', w')"
  shows "candidates [] ks' \<noteq> []"
proof -
  from assms obtain keys where "load t w = (Inr keys, t', w')" "ks_keys ks' = keys"
    by (auto simp: refresh_def Let_def split: if_splits prod.splits sum.splits)
  then show ?thesis using brings_a_key by (simp add: candidates_def)
qed

lemma no_kid_error_is_the_source's:
  assumes "ks_load ks = Some load" "keyfunc None ks t w = (Inl e, ks', t', w')"
  shows "refresh [] ks t w = (Some e, ks', t', w')"
  using assms refresh_answers_no_kid [OF assms(1), of "[]" t w]
  by (auto simp: keyfunc_def Let_def split: if_splits option.splits prod.splits)

end

lemma parse_jwks_brings_a_key: "parse_jwks kw body = Inr m \<Longrightarrow> concat (map snd m) \<noteq> []"
proof -
  assume p: "parse_jwks kw body = Inr m"
  then obtain js where js: "kw_json kw body = Inr js"
    by (auto simp: parse_jwks_def split: sum.splits)
  from parse_jwks_map [OF js] p have m: "m \<noteq> []" "distinct (map fst m)"
    "\<And>kid. map_of m kid = (case keys_under kw kid js of [] \<Rightarrow> None | ks \<Rightarrow> Some ks)" by simp_all
  then obtain kid ks r where "m = (kid, ks) # r" by (cases m) auto
  moreover from this m(3) [of kid] have "ks \<noteq> []" by (auto split: list.splits)
  ultimately show ?thesis by simp
qed

interpretation url_source: key_source "fetch_jwks kw get url"
  for kw :: "('p, 'k) key_world"
    and get :: "string \<Rightarrow> time \<Rightarrow> 'w \<Rightarrow> ('k goerr + 'k http_answer) \<times> time \<times> 'w" and url
  by unfold_locales
    (auto simp: fetch_jwks_def split: prod.splits sum.splits if_splits option.splits
      dest: parse_jwks_brings_a_key)

interpretation file_source: key_source "load_file kw read path"
  for kw :: "('p, 'k) key_world" and read :: "string \<Rightarrow> 'w \<Rightarrow> 'k goerr + string" and path
  by unfold_locales
    (auto simp: load_file_def split: sum.splits dest: parse_jwks_brings_a_key)

section \<open>The cache\<close>

definition kid_of :: "string option \<Rightarrow> ('p, 'w, 'k) key_set \<Rightarrow> string" where
  "kid_of header_kid ks = (if ks_keyless ks then [] else (case header_kid of None \<Rightarrow> [] | Some k \<Rightarrow> k))"

text \<open>When keyfunc reads its source.\<close>

definition reads :: "string option \<Rightarrow> ('p, 'w, 'k) key_set \<Rightarrow> time \<Rightarrow> bool" where
  "reads header_kid ks t \<longleftrightarrow>
     candidates (kid_of header_kid ks) ks = [] \<and> ks_load ks \<noteq> None \<and>
     (case ks_fetched ks of None \<Rightarrow> True | Some f \<Rightarrow> ks_min_refetch ks \<le> t - f)"

lemma keyfunc_quiet:
  "\<not> reads header_kid ks t \<Longrightarrow> \<exists>r. keyfunc header_kid ks t w = (r, ks, t, w)"
  by (auto simp: reads_def keyfunc_def refresh_def kid_of_def Let_def not_le split: option.splits)

lemma keyfunc_reads:
  assumes "reads header_kid ks t" "ks_load ks = Some load"
  shows "case load t w of
      (Inl e, t', w') \<Rightarrow> keyfunc header_kid ks t w = (Inl e, ks\<lparr>ks_fetched := Some t\<rparr>, t', w')
    | (Inr keys, t', w') \<Rightarrow>
        \<exists>r. keyfunc header_kid ks t w = (r, ks\<lparr>ks_fetched := Some t, ks_keys := keys\<rparr>, t', w')"
  using assms
  by (auto simp: reads_def keyfunc_def refresh_def kid_of_def Let_def
      split: option.splits prod.splits sum.splits)

lemma keyfunc_frame:
  assumes "keyfunc header_kid ks t w = (r, ks', t', w')"
  shows "ks_load ks' = ks_load ks \<and> ks_min_refetch ks' = ks_min_refetch ks \<and>
    ks_keyless ks' = ks_keyless ks \<and>
    ks_fetched ks' = (if reads header_kid ks t then Some t else ks_fetched ks)"
proof (cases "reads header_kid ks t")
  case False
  with assms keyfunc_quiet [OF False, of w] show ?thesis by auto
next
  case True
  then obtain load where load: "ks_load ks = Some load" by (auto simp: reads_def)
  from keyfunc_reads [OF True load, of w] assms True show ?thesis
    by (auto split: prod.splits sum.splits)
qed

text \<open>
  The moments at which a run of calls reads the source. Each call comes with the clock it
  starts at; the world goes through the calls.
\<close>

fun read_times :: "(string option \<times> time) list \<Rightarrow> ('p, 'w, 'k) key_set \<Rightarrow> 'w \<Rightarrow> time list" where
  "read_times [] ks w = []"
| "read_times ((kid, t) # cs) ks w =
     (case keyfunc kid ks t w of
        (_, ks', _, w') \<Rightarrow>
          (if reads kid ks t then [t] else []) @ read_times cs ks' w')"

lemma read_times_subset: "set (read_times cs ks w) \<subseteq> set (map snd cs)"
  by (induction cs ks w rule: read_times.induct) (auto split: prod.splits, blast+)

lemma read_times_after_fetch:
  "sorted (map snd cs) \<Longrightarrow> ks_fetched ks = Some f \<Longrightarrow> (\<forall>t \<in> set (map snd cs). f \<le> t) \<Longrightarrow>
     (\<forall>t \<in> set (read_times cs ks w). ks_min_refetch ks \<le> t - f) \<and>
     sorted_wrt (\<lambda>a b. ks_min_refetch ks \<le> b - a) (read_times cs ks w)"
proof (induction cs arbitrary: ks w f)
  case Nil
  then show ?case by simp
next
  case (Cons c cs)
  obtain kid t where c: "c = (kid, t)" by force
  obtain r ks' t' w' where k: "keyfunc kid ks t w = (r, ks', t', w')"
    by (cases "keyfunc kid ks t w") auto
  note fr = keyfunc_frame [OF k]
  have s: "sorted (map snd cs)" "\<forall>u \<in> set (map snd cs). t \<le> u" "f \<le> t"
    using Cons.prems(1,3) by (auto simp: c)
  show ?case
  proof (cases "reads kid ks t")
    case True
    then have far: "ks_min_refetch ks \<le> t - f" using Cons.prems(2) by (simp add: reads_def)
    have "ks_fetched ks' = Some t" using fr True by simp
    from Cons.IH [OF s(1) this s(2), of w'] fr
    have ih: "\<forall>u \<in> set (read_times cs ks' w'). ks_min_refetch ks \<le> u - t"
      "sorted_wrt (\<lambda>a b. ks_min_refetch ks \<le> b - a) (read_times cs ks' w')" by simp_all
    have "\<forall>u \<in> set (read_times cs ks' w'). ks_min_refetch ks \<le> u - f" using ih(1) s(3) by force
    with ih far True show ?thesis by (simp add: c k)
  next
    case False
    then have "ks_fetched ks' = Some f" using fr Cons.prems(2) by simp
    moreover have "\<forall>u \<in> set (map snd cs). f \<le> u" using s by force
    ultimately show ?thesis using Cons.IH [OF s(1), of ks' f w'] fr False by (simp add: c k)
  qed
qed

lemma reads_are_spaced:
  "sorted (map snd cs) \<Longrightarrow> sorted_wrt (\<lambda>a b. ks_min_refetch ks \<le> b - a) (read_times cs ks w)"
proof (induction cs arbitrary: ks w)
  case Nil
  then show ?case by simp
next
  case (Cons c cs)
  obtain kid t where c: "c = (kid, t)" by force
  obtain r ks' t' w' where k: "keyfunc kid ks t w = (r, ks', t', w')"
    by (cases "keyfunc kid ks t w") auto
  note fr = keyfunc_frame [OF k]
  have s: "sorted (map snd cs)" "\<forall>u \<in> set (map snd cs). t \<le> u"
    using Cons.prems by (auto simp: c)
  show ?case
  proof (cases "reads kid ks t")
    case True
    then have "ks_fetched ks' = Some t" using fr by simp
    from read_times_after_fetch [OF s(1) this s(2), of w'] fr True show ?thesis by (simp add: c k)
  next
    case False
    with Cons.IH [OF s(1), of ks' w'] fr show ?thesis by (simp add: c k)
  qed
qed


text \<open>A source that is down.\<close>

definition down :: "(unit, unit, unit) loader" where
  "down t w = (Inl (ErrText ''connection refused''), t, w)"

definition sample_keys :: "(unit, unit, unit) key_set" where
  "sample_keys =
     \<lparr>ks_load = Some down, ks_keyless = False, ks_min_refetch = jwks_min_refetch,
      ks_keys = [(''a'', [RsaKey 33 65537])], ks_fetched = None\<rparr>"


lemma candidates_from:
  "p \<in> set (candidates n s) \<Longrightarrow>
     \<exists>kid ps. (kid, ps) \<in> set (ks_keys s) \<and> p \<in> set ps \<and> (n = [] \<or> kid = n)"
  by (cases "map_of (ks_keys s) n")
    (fastforce simp: candidates_def split: if_splits dest: map_of_SomeD)+

text \<open>
  C28: keyfunc hands the parser only keys that are in the set it leaves behind, under the
  kid of the token (any of them when the token or the source names none), and at least one;
  a read that fails leaves the keys as they were, so a warm cache survives an outage, and a
  read that succeeds replaces them outright, so a withdrawn key is not trusted any more.
\<close>

theorem only_published_keys_verify:
  "case keyfunc header_kid ks t w of
     (r, ks', t', w') \<Rightarrow>
       (case r of
          Inr keys \<Rightarrow> keys \<noteq> [] \<and> keys = candidates (kid_of header_kid ks) ks' \<and>
            (\<forall>k \<in> set keys. \<exists>kid ps. (kid, ps) \<in> set (ks_keys ks') \<and> k \<in> set ps \<and>
               (kid_of header_kid ks = [] \<or> kid = kid_of header_kid ks))
        | Inl e \<Rightarrow> candidates (kid_of header_kid ks) ks = []) \<and>
       (ks_keys ks' = ks_keys ks \<or>
          (\<exists>load keys t2 w2. ks_load ks = Some load \<and> load t w = (Inr keys, t2, w2) \<and> ks_keys ks' = keys))"
proof -
  obtain r ks' t' w' where k: "keyfunc header_kid ks t w = (r, ks', t', w')"
    by (cases "keyfunc header_kid ks t w") auto
  have "case r of
      Inr keys \<Rightarrow> keys \<noteq> [] \<and> keys = candidates (kid_of header_kid ks) ks'
    | Inl e \<Rightarrow> candidates (kid_of header_kid ks) ks = []"
    using k by (auto simp: keyfunc_def kid_of_def Let_def split: if_splits option.splits prod.splits)
  moreover have "ks_keys ks' = ks_keys ks \<or>
      (\<exists>load keys t2 w2. ks_load ks = Some load \<and> load t w = (Inr keys, t2, w2) \<and> ks_keys ks' = keys)"
  proof (cases "reads header_kid ks t")
    case False
    with k keyfunc_quiet [OF False, of w] show ?thesis by auto
  next
    case True
    then obtain load where load: "ks_load ks = Some load" by (auto simp: reads_def)
    from keyfunc_reads [OF True load, of w] k load show ?thesis
      by (auto split: prod.splits sum.splits)
  qed
  ultimately show ?thesis using k candidates_from [of _ "kid_of header_kid ks" ks']
    by (auto split: sum.splits)
qed

section \<open>Witnesses\<close>

definition sample_world :: "(nat list, unit) key_world" where
  "sample_world =
     \<lparr>kw_point = (\<lambda>c bs. Inr bs),
      kw_json = (\<lambda>b. Inr [published_rsa ''k'' 33 65537, published_rsa ''k'' 35 65537]),
      kw_pem = (\<lambda>b. None), kw_pkix = (\<lambda>b. Inr (OtherType ''ed25519.PublicKey'')),
      kw_pkcs1 = (\<lambda>b. Inr (Usable (RsaKey 33 3))), kw_cert = (\<lambda>b. Inr (Usable (RsaKey 33 3))),
      kw_base64_error = (\<lambda>s. ErrText ''illegal base64 data'')\<rparr>"

lemma curve_256: "curve_of ''P-256'' = Some (P256, 32)"
  by (simp add: curve_of_def)

theorem published_keys_read_back_witness:
  "public_key sample_world (published_rsa ''k'' 33 65537) = Inr (RsaKey 33 65537) \<and>
   public_key sample_world (published_ec ''k'' ''P-256'' (replicate 32 1) (replicate 32 2)) =
     Inr (EcKey P256 (4 # replicate 32 1 @ replicate 32 2))"
proof -
  have r: "list_all (\<lambda>b. b < 256) (replicate 32 (1::nat))" "list_all (\<lambda>b. b < 256) (replicate 32 (2::nat))"
    by (simp_all add: list_all_iff)
  note T = published_keys_read_back [OF _ _ r curve_256, of 33 65537 sample_world "''k''"]
  show ?thesis
    using T [of "RsaKey 33 65537"] T [of "EcKey P256 (4 # replicate 32 1 @ replicate 32 2)"]
    by (auto simp: sample_world_def)
qed

theorem parse_jwks_keeps_every_usable_key_witness:
  "\<exists>m. parse_jwks sample_world [] = Inr m \<and>
     map_of m ''k'' = Some [RsaKey 33 65537, RsaKey 35 65537]"
proof -
  let ?js = "[published_rsa ''k'' 33 65537, published_rsa ''k'' 35 65537]"
  have u: "usable sample_world (published_rsa ''k'' n 65537) = Some (RsaKey n 65537)" if "0 < n" for n
    using that by (simp add: usable_def published_rsa_def public_key_def rsa_key_def b64uint_encode int64_def)
  then have ku: "keys_under sample_world ''k'' ?js = [RsaKey 33 65537, RsaKey 35 65537]"
    by (simp add: keys_under_def published_rsa_def)
  have js: "kw_json sample_world [] = Inr ?js" by (simp add: sample_world_def)
  have "parse_jwks sample_world [] \<noteq> Inl e" for e
    using parse_jwks_keeps_every_usable_key [OF js] u [of 33] by (auto split: sum.splits)
  then obtain m where m: "parse_jwks sample_world [] = Inr m"
    by (cases "parse_jwks sample_world []") auto
  from parse_jwks_keeps_every_usable_key [OF js] m ku show ?thesis by auto
qed

theorem only_published_keys_verify_witness:
  "\<exists>r ks' t' w'. keyfunc (Some ''a'') sample_keys 0 () = (r, ks', t', w') \<and>
     r = Inr [RsaKey 33 65537] \<and> ks_keys ks' = ks_keys sample_keys \<and>
     (\<exists>ps. (''a'', ps) \<in> set (ks_keys ks') \<and> RsaKey 33 65537 \<in> set ps)"
proof -
  have k: "keyfunc (Some ''a'') sample_keys 0 () = (Inr [RsaKey 33 65537], sample_keys, 0, ())"
    by (simp add: keyfunc_def sample_keys_def candidates_def)
  have "kid_of (Some ''a'') sample_keys = ''a''" by (simp add: kid_of_def sample_keys_def)
  with only_published_keys_verify [of "Some ''a''" sample_keys 0 "()"] k show ?thesis by auto
qed

end
