(* ===== verification/Security.thy ===== *)
theory Security
  imports Web_Contract Jwks
begin

text \<open>
  The Security Starter: security/security.go, security/cors.go and security/authn.go.

  golang-jwt, net/url and net.ParseIP are parameters. The key set of Authenticate lives in
  the closure of the middleware; \<open>key_slot\<close> says where in the process's state it and the
  world its source reads are found.
\<close>

section \<open>Headers\<close>

text \<open>Go's integer division, which rounds toward zero.\<close>

definition go_div :: "int \<Rightarrow> int \<Rightarrow> int" where
  "go_div a b = (if (a < 0) \<noteq> (b < 0) then - (\<bar>a\<bar> div \<bar>b\<bar>) else \<bar>a\<bar> div \<bar>b\<bar>)"

definition seconds :: "duration \<Rightarrow> string" where
  "seconds d = format_int (go_div d second)"

definition security_headers :: "duration \<Rightarrow> headers \<Rightarrow> headers" where
  "security_headers hsts_max_age h =
     (let h1 = hdr_set ''Referrer-Policy'' ''no-referrer''
                (hdr_set ''Content-Security-Policy''
                   (''default-src '' @ [CHR 0x27] @ ''none'' @ [CHR 0x27] @ ''; frame-ancestors '' @
                    [CHR 0x27] @ ''none'' @ [CHR 0x27])
                (hdr_set ''X-Content-Type-Options'' ''nosniff'' h))
      in if 0 < hsts_max_age
         then hdr_set ''Strict-Transport-Security'' (''max-age='' @ seconds hsts_max_age) h1 else h1)"

definition headers_middleware :: "duration \<Rightarrow> ('c, 'w) middleware" where
  "headers_middleware hsts_max_age next r c =
     next r (c\<lparr>cn_w := rw_edit_header (security_headers hsts_max_age) (cn_w c)\<rparr>)"

section \<open>CORS\<close>

record cors_config =
  co_origins :: "string list"
  co_methods :: "string list"
  co_headers :: "string list"
  co_exposed :: "string list"
  co_credentials :: bool
  co_max_age :: duration

definition default_cors_methods :: "string list" where
  "default_cors_methods = [''GET'', ''POST'', ''PUT'', ''PATCH'', ''DELETE'']"

definition default_cors_headers :: "string list" where
  "default_cors_headers = [''Authorization'', ''Content-Type'']"

definition default_cors_max_age :: duration where
  "default_cors_max_age = 10 * minute"

definition cmp_or :: "string list \<Rightarrow> string list \<Rightarrow> string list" where
  "cmp_or v fallback = (if v = [] then fallback else v)"

definition cors_exposed :: "cors_config \<Rightarrow> string" where
  "cors_exposed cfg =
     (let extra = filter (\<lambda>h. \<not> equal_fold h request_id_header) (co_exposed cfg)
      in request_id_header @ (if extra \<noteq> [] then '', '' @ join extra '', '' else []))"

definition is_preflight :: "'c request \<Rightarrow> bool" where
  "is_preflight r \<longleftrightarrow> rq_method r = ''OPTIONS'' \<and>
     hdr_get ''Access-Control-Request-Method'' (rq_header r) \<noteq> []"

definition origin_allowed :: "cors_config \<Rightarrow> string \<Rightarrow> bool" where
  "origin_allowed cfg origin \<longleftrightarrow>
     origin \<noteq> [] \<and> (''*'' \<in> set (co_origins cfg) \<or> origin \<in> set (co_origins cfg))"

definition cors_headers :: "cors_config \<Rightarrow> 'c request \<Rightarrow> headers \<Rightarrow> headers" where
  "cors_headers cfg r h =
     (let origin = hdr_get ''Origin'' (rq_header r);
          h1 = hdr_add ''Vary'' ''Origin'' h;
          h2 = (if origin_allowed cfg origin
                then (let a = hdr_set ''Access-Control-Allow-Origin'' origin h1;
                          b = (if co_credentials cfg
                               then hdr_set ''Access-Control-Allow-Credentials'' ''true'' a else a)
                      in if is_preflight r
                         then hdr_set ''Access-Control-Max-Age''
                                (seconds (if co_max_age cfg = 0 then default_cors_max_age else co_max_age cfg))
                              (hdr_set ''Access-Control-Allow-Headers''
                                (join (cmp_or (co_headers cfg) default_cors_headers) '', '')
                              (hdr_set ''Access-Control-Allow-Methods''
                                (join (cmp_or (co_methods cfg) default_cors_methods) '', '') b))
                         else hdr_set ''Access-Control-Expose-Headers'' (cors_exposed cfg) b)
                else h1)
      in if is_preflight r
         then hdr_add ''Vary'' ''Access-Control-Request-Headers''
                (hdr_add ''Vary'' ''Access-Control-Request-Method'' h2)
         else h2)"

definition cors_handler :: "cors_config \<Rightarrow> ('c, 'w) middleware" where
  "cors_handler cfg next r c =
     (let w1 = rw_edit_header (cors_headers cfg r) (cn_w c) in
      if is_preflight r
      then (case rw_write_header 204 w1 of (p, w2) \<Rightarrow> (p, r, c\<lparr>cn_w := w2\<rparr>))
      else next r (c\<lparr>cn_w := w1\<rparr>))"

definition cors :: "cors_config \<Rightarrow> 'k goerr + ('c, 'w) middleware" where
  "cors cfg =
     (if ''*'' \<in> set (co_origins cfg) \<and> co_credentials cfg
      then Inl (ErrText (''security.cors: allowedOrigins '' @ [CHR 0x22] @ ''*'' @ [CHR 0x22] @
             '' cannot be used with allowCredentials, and a browser would refuse the pair''))
      else if co_origins cfg = []
      then (if co_credentials cfg
            then Inl (ErrText ''security.cors: allowCredentials is on but allowedOrigins is empty'')
            else Inr (\<lambda>next. next))
      else Inr (cors_handler cfg))"

section \<open>Tokens\<close>

record jwt_config =
  jc_issuer :: string
  jc_audience :: "string list"
  jc_jwks_url :: string
  jc_jwks_file :: string
  jc_public_key_file :: string
  jc_leeway :: duration

definition jwt_is_zero :: "jwt_config \<Rightarrow> bool" where
  "jwt_is_zero c \<longleftrightarrow> jc_issuer c = [] \<and> jc_audience c = [] \<and> jc_jwks_url c = [] \<and>
     jc_jwks_file c = [] \<and> jc_public_key_file c = [] \<and> jc_leeway c = 0"

definition allowed_algs :: "string list" where
  "allowed_algs = [''RS256'', ''RS384'', ''RS512'', ''PS256'', ''PS384'', ''PS512'',
     ''ES256'', ''ES384'', ''ES512'']"

text \<open>A claim: a string, an array, or anything else JSON can hold.\<close>

datatype claim = ClaimText string | ClaimArray "claim list" | ClaimOther

type_synonym claims = "(string \<times> claim) list"

record principal =
  pr_subject :: string
  pr_issuer :: string
  pr_scopes :: "string list"
  pr_claims :: claims

definition principal_from :: "principal request \<Rightarrow> principal option" where
  "principal_from r = rq_claims r"

fun has_all :: "string list \<Rightarrow> string list \<Rightarrow> bool" where
  "has_all scopes [] = True"
| "has_all scopes (w # ws) = (if w \<notin> set scopes then False else has_all scopes ws)"

fun has_any :: "string list \<Rightarrow> string list \<Rightarrow> bool" where
  "has_any scopes [] = False"
| "has_any scopes (w # ws) = (if w \<in> set scopes then True else has_any scopes ws)"

definition has_scopes :: "principal \<Rightarrow> string list \<Rightarrow> bool \<Rightarrow> bool" where
  "has_scopes p want all =
     (if want = [] then True else if all then has_all (pr_scopes p) want else has_any (pr_scopes p) want)"

text \<open>The strings of an array claim.\<close>

fun text_claims :: "claim list \<Rightarrow> string list" where
  "text_claims [] = []"
| "text_claims (ClaimText s # cs) = s # text_claims cs"
| "text_claims (c # cs) = text_claims cs"

fun scopes_from :: "claims \<Rightarrow> string list \<Rightarrow> string list" where
  "scopes_from c [] = []"
| "scopes_from c (name # names) =
     (case map_of c name of
        Some (ClaimText v) \<Rightarrow> if Go_Strings.fields v \<noteq> [] then Go_Strings.fields v else scopes_from c names
      | Some (ClaimArray v) \<Rightarrow> if text_claims v \<noteq> [] then text_claims v else scopes_from c names
      | _ \<Rightarrow> scopes_from c names)"

definition scopes_of :: "claims \<Rightarrow> string list" where
  "scopes_of c = scopes_from c [''scope'', ''scp'']"

definition text_claim :: "claims \<Rightarrow> string \<Rightarrow> string" where
  "text_claim c name = (case map_of c name of Some (ClaimText s) \<Rightarrow> s | _ \<Rightarrow> [])"

definition principal_of :: "claims \<Rightarrow> principal" where
  "principal_of c =
     \<lparr>pr_subject = text_claim c ''sub'', pr_issuer = text_claim c ''iss'',
      pr_scopes = scopes_of c, pr_claims = c\<rparr>"

definition bearer :: "'c request \<Rightarrow> string option" where
  "bearer r =
     (case cut (hdr_get ''Authorization'' (rq_header r)) '' '' of
        (scheme, token, found) \<Rightarrow>
          if \<not> found \<or> \<not> equal_fold scheme ''Bearer'' then None
          else if trim_space token = [] then None else Some (trim_space token))"

text \<open>
  golang-jwt, as the parser built by Authenticate uses it: reading the header of a token
  under the options (its kid when it is a string), the error of a keyfunc wrapped, and the
  check of signature and claims with the keys of keyfunc.
\<close>

record jwt_options =
  jo_methods :: "string list"
  jo_issuer :: string
  jo_audience :: "string list"
  jo_exp_required :: bool
  jo_leeway :: duration

record ('p, 'k) jwt_lib =
  jl_header :: "jwt_options \<Rightarrow> string \<Rightarrow> 'k goerr + string option"
  jl_keyfunc_error :: "'k goerr \<Rightarrow> 'k goerr"
  jl_verify :: "jwt_options \<Rightarrow> string \<Rightarrow> 'p pubkey list \<Rightarrow> time \<Rightarrow> 'k goerr + claims"

record ('p, 'v, 'k, 'w) key_slot =
  slot_get :: "'w \<Rightarrow> ('p, 'v, 'k) key_set \<times> 'v"
  slot_put :: "('p, 'v, 'k) key_set \<times> 'v \<Rightarrow> 'w \<Rightarrow> 'w"

definition parse_with_claims :: "('p, 'k) jwt_lib \<Rightarrow> ('p, 'v, 'k, 'w) key_slot \<Rightarrow> jwt_options \<Rightarrow>
    string \<Rightarrow> 'w conn \<Rightarrow> ('k goerr + claims) \<times> 'w conn" where
  "parse_with_claims jl slot opts raw c =
     (case jl_header jl opts raw of
        Inl e \<Rightarrow> (Inl e, c)
      | Inr kid \<Rightarrow>
          (case slot_get slot (cn_env c) of
             (ks, v) \<Rightarrow>
               (case keyfunc kid ks (cn_clock c) v of
                  (r, ks', t', v') \<Rightarrow>
                    (let c' = c\<lparr>cn_clock := t', cn_env := slot_put slot (ks', v') (cn_env c)\<rparr> in
                     case r of
                       Inl e \<Rightarrow> (Inl (jl_keyfunc_error jl e), c')
                     | Inr keys \<Rightarrow> (jl_verify jl opts raw keys t', c')))))"

text \<open>The challenge and the problem document of a request that is refused.\<close>

definition deny :: "int \<Rightarrow> string \<Rightarrow> string \<Rightarrow> ('c, 'w) handler" where
  "deny status detail challenge r c =
     (case write_problem status detail
             (rw_edit_header (hdr_set ''WWW-Authenticate'' challenge) (cn_w c)) of
        (p, w') \<Rightarrow> (p, r, c\<lparr>cn_w := w'\<rparr>))"

definition invalid_token :: "('c, 'w) handler" where
  "invalid_token =
     deny 401 ''invalid token'' (''Bearer error='' @ [CHR 0x22] @ ''invalid_token'' @ [CHR 0x22])"

definition authenticate :: "('k \<Rightarrow> string) \<Rightarrow> ('p, 'k) jwt_lib \<Rightarrow> ('p, 'v, 'k, 'w) key_slot \<Rightarrow>
    jwt_options \<Rightarrow> (principal, 'w) middleware" where
  "authenticate txt jl slot opts next r c =
     (case bearer r of
        None \<Rightarrow> next r c
      | Some raw \<Rightarrow>
          (case parse_with_claims jl slot opts raw c of
             (Inl e, c1) \<Rightarrow>
               invalid_token r
                 (log_line (logger_from r) level_warn ''token rejected''
                    [(''err'', AText (err_text txt e))] c1)
           | (Inr cs, c1) \<Rightarrow>
               (case next (r\<lparr>rq_claims := Some (principal_of cs)\<rparr>) c1 of (p, _, c2) \<Rightarrow> (p, r, c2))))"

definition insufficient_challenge :: "string list \<Rightarrow> string" where
  "insufficient_challenge want =
     ''Bearer error='' @ [CHR 0x22] @ ''insufficient_scope'' @ [CHR 0x22] @ '', scope='' @
     quote (join want '' '')"

definition require :: "string list \<Rightarrow> bool \<Rightarrow> (principal, 'w) middleware" where
  "require want all next r c =
     (case principal_from r of
        None \<Rightarrow> deny 401 ''authentication required'' ''Bearer'' r c
      | Some pr \<Rightarrow>
          if \<not> has_scopes pr want all
          then deny 403 ''insufficient scope'' (insufficient_challenge want) r c
          else next r c)"

definition require_scope :: "string list \<Rightarrow> (principal, 'w) middleware" where
  "require_scope scopes = require scopes True"

definition require_any_scope :: "string list \<Rightarrow> (principal, 'w) middleware" where
  "require_any_scope scopes = require scopes False"

section \<open>The constructor\<close>

text \<open>net/url.Parse gives a scheme and a host name; \<open>nw_loopback\<close> is net.ParseIP with IsLoopback.\<close>

record 'k net_world =
  nw_url :: "string \<Rightarrow> 'k goerr + string \<times> string"
  nw_loopback :: "string \<Rightarrow> bool"

definition is_loopback :: "'k net_world \<Rightarrow> string \<Rightarrow> bool" where
  "is_loopback nw host \<longleftrightarrow> (if host = ''localhost'' then True else nw_loopback nw host)"

definition check_jwks_url :: "'k net_world \<Rightarrow> string \<Rightarrow> 'k goerr option" where
  "check_jwks_url nw raw =
     (case nw_url nw raw of
        Inl e \<Rightarrow> Some (ErrWrap (''security.jwt.jwksUrl: '' @ quote raw @ '' is not a URL: '') e)
      | Inr (scheme, host) \<Rightarrow>
          if scheme = ''https'' then None
          else if scheme = ''http'' then
            (if is_loopback nw host then None
             else Some (ErrText (''security.jwt.jwksUrl: '' @ quote raw @
               '' is plain http, and the key set is what this service trusts; use https, or a loopback host for local work'')))
          else Some (ErrText (''security.jwt.jwksUrl: '' @ quote raw @ '' must be an http or https URL'')))"

record ('p, 'v, 'k) key_env =
  ke_keys :: "('p, 'k) key_world"
  ke_net :: "'k net_world"
  ke_get :: "string \<Rightarrow> time \<Rightarrow> 'v \<Rightarrow> ('k goerr + 'k http_answer) \<times> time \<times> 'v"
  ke_read :: "string \<Rightarrow> 'v \<Rightarrow> 'k goerr + string"

definition named_sources :: "jwt_config \<Rightarrow> nat" where
  "named_sources cfg =
     length (filter (\<lambda>v. v \<noteq> []) [jc_jwks_url cfg, jc_jwks_file cfg, jc_public_key_file cfg])"

definition keys_for :: "('p, 'v, 'k) key_env \<Rightarrow> jwt_config \<Rightarrow> time \<Rightarrow> 'v \<Rightarrow>
    'k goerr + ('p, 'v, 'k) key_set" where
  "keys_for ke cfg t v =
     (if named_sources cfg = 0
      then Inl (ErrText ''security.jwt: name one of jwksUrl, jwksFile or publicKeyFile; there is no default key source'')
      else if 1 < named_sources cfg
      then Inl (ErrText ''security.jwt: name only ONE of jwksUrl, jwksFile and publicKeyFile'')
      else if jc_jwks_url cfg \<noteq> []
      then (case check_jwks_url (ke_net ke) (jc_jwks_url cfg) of
              Some e \<Rightarrow> Inl e
            | None \<Rightarrow> Inr (new_key_set (ke_keys ke) (ke_get ke) (jc_jwks_url cfg)))
      else if jc_jwks_file cfg \<noteq> []
      then new_file_key_set (ke_keys ke) (ke_read ke) (jc_jwks_file cfg) t v
      else new_pem_key_set (ke_keys ke) (ke_read ke) (jc_public_key_file cfg) v)"

definition authenticate_new :: "('p, 'v, 'k) key_env \<Rightarrow> jwt_config \<Rightarrow> time \<Rightarrow> 'v \<Rightarrow>
    'k goerr + jwt_options \<times> ('p, 'v, 'k) key_set" where
  "authenticate_new ke cfg t v =
     (if jc_issuer cfg = []
      then Inl (ErrText ''security.jwt.issuer: required, and must be the exact iss claim the issuer writes'')
      else if jc_audience cfg = []
      then Inl (ErrText ''security.jwt.audience: required, or this service accepts every token the issuer minted, including one meant for a different client of it'')
      else if list_ex (\<lambda>a. trim_space a = []) (jc_audience cfg)
      then Inl (ErrText ''security.jwt.audience: holds an empty entry'')
      else (case keys_for ke cfg t v of
              Inl e \<Rightarrow> Inl e
            | Inr ks \<Rightarrow>
                Inr (\<lparr>jo_methods = allowed_algs, jo_issuer = jc_issuer cfg,
                      jo_audience = jc_audience cfg, jo_exp_required = True,
                      jo_leeway = (if jc_leeway cfg = 0 then 30 * second else jc_leeway cfg)\<rparr>, ks)))"

record security_config =
  sc_hsts_max_age :: duration
  sc_cors :: cors_config
  sc_jwt :: jwt_config

text \<open>
  DefaultMiddleware. \<open>auth\<close> makes Authenticate's middleware from its options; the key set
  it starts with comes back beside the slice.
\<close>

definition security_middleware :: "('p, 'v, 'k) key_env \<Rightarrow>
    (jwt_options \<Rightarrow> (principal, 'w) middleware) \<Rightarrow> security_config \<Rightarrow> time \<Rightarrow> 'v \<Rightarrow>
    'k goerr + (principal, 'w) middleware list \<times> ('p, 'v, 'k) key_set option" where
  "security_middleware ke auth cfg t v =
     (case cors (sc_cors cfg) of
        Inl e \<Rightarrow> Inl e
      | Inr c \<Rightarrow>
          (let mw = headers_middleware (sc_hsts_max_age cfg) #
                      (if co_origins (sc_cors cfg) \<noteq> [] then [c] else []) in
           if jwt_is_zero (sc_jwt cfg) then Inr (mw, None)
           else (case authenticate_new ke (sc_jwt cfg) t v of
                   Inl e \<Rightarrow> Inl e
                 | Inr (opts, ks) \<Rightarrow> Inr (mw @ [auth opts], Some ks))))"

end
