(* ===== verification/Actuator.thy ===== *)
theory Actuator
  imports Web_Contract Lifecycle "HOL-Library.List_Lexorder" "HOL-Library.Char_ord"
begin

text \<open>
  The Actuator (actuator/actuator.go): the whitelist of endpoints, where they are mounted,
  and the handlers of livez, readyz, loglevel, info and pprof.

  The handlers read the Actuator and the App when a request arrives; \<open>probe_view\<close> is what
  they read. A Check is a method of a Component, as in the lifecycle. Prometheus, the pprof
  profiles, the build information and the JSON decoder are parameters.
\<close>

section \<open>Where endpoints are mounted\<close>

text \<open>
  The Handler interface: a target takes a pattern once and panics (\<open>None\<close>) on a second
  registration. The laws are what net/http promises for its mux.
\<close>

locale mount_target =
  fixes handle :: "string \<Rightarrow> ('c, 'w) handler \<Rightarrow> 'm \<Rightarrow> 'm option"
    and patterns :: "'m \<Rightarrow> string list"
  assumes fresh: "p \<notin> set (patterns m) \<Longrightarrow> \<exists>m'. handle p h m = Some m' \<and> patterns m' = patterns m @ [p]"
    and taken: "p \<in> set (patterns m) \<Longrightarrow> handle p h m = None"

fun handle_all :: "(string \<Rightarrow> ('c, 'w) handler \<Rightarrow> 'm \<Rightarrow> 'm option) \<Rightarrow>
    (string \<times> ('c, 'w) handler) list \<Rightarrow> 'm \<Rightarrow> 'm option" where
  "handle_all handle [] m = Some m"
| "handle_all handle ((p, h) # rs) m =
     (case handle p h m of None \<Rightarrow> None | Some m' \<Rightarrow> handle_all handle rs m')"

context mount_target
begin

lemma handle_all_fresh:
  "distinct (map fst rs) \<Longrightarrow> set (map fst rs) \<inter> set (patterns m) = {} \<Longrightarrow>
     \<exists>m'. handle_all handle rs m = Some m' \<and> patterns m' = patterns m @ map fst rs"
proof (induction rs arbitrary: m)
  case Nil
  then show ?case by simp
next
  case (Cons e rs)
  obtain p h where e: "e = (p, h)" by force
  with Cons.prems obtain m1 where m1: "handle p h m = Some m1" "patterns m1 = patterns m @ [p]"
    using fresh [of p m h] by auto
  have "set (map fst rs) \<inter> set (patterns m1) = {}" using Cons.prems m1 e by auto
  with Cons.IH [of m1] Cons.prems e m1 show ?case by auto
qed

lemma handle_all_taken:
  "\<not> (distinct (map fst rs) \<and> set (map fst rs) \<inter> set (patterns m) = {}) \<Longrightarrow>
     handle_all handle rs m = None"
proof (induction rs arbitrary: m)
  case Nil
  then show ?case by simp
next
  case (Cons e rs)
  obtain p h where e: "e = (p, h)" by force
  show ?case
  proof (cases "p \<in> set (patterns m)")
    case True
    with e taken [of p m h] show ?thesis by simp
  next
    case False
    then obtain m1 where m1: "handle p h m = Some m1" "patterns m1 = patterns m @ [p]"
      using fresh by blast
    have "\<not> (distinct (map fst rs) \<and> set (map fst rs) \<inter> set (patterns m1) = {})"
      using Cons.prems False e m1 by auto
    with Cons.IH [of m1] e m1 show ?thesis by simp
  qed
qed

end

interpretation mux: mount_target mux_handle "\<lambda>m. map fst m"
  by unfold_locales (auto simp: mux_handle_def image_iff)

interpretation web_server: mount_target web_handle "\<lambda>s. map fst (sv_mux s)"
  by unfold_locales (auto simp: web_handle_def mux_handle_def image_iff)

section \<open>Configuration and state\<close>

record actuator_config =
  ac_addr :: string
  ac_expose :: "string list"
  ac_show_details :: string

type_synonym ('w, 'k) check = "('w, 'k goerr option) call"

text \<open>\<open>at_own\<close> is the private server MountOn prepares: its address and its mux.\<close>

record ('c, 'w, 'k) actuator =
  at_cfg :: actuator_config
  at_own :: "(string \<times> (string \<times> ('c, 'w) handler) list) option"
  at_ln :: "string option"
  at_checks :: "(string \<times> ('w, 'k) check) list"
  at_draining :: bool

record ('w, 'k) probe_view =
  pv_ready :: bool
  pv_draining :: bool
  pv_checks :: "(string \<times> ('w, 'k) check) list"
  pv_show :: string

section \<open>Handlers\<close>

definition json_map :: "(string \<times> string) list \<Rightarrow> json" where
  "json_map m = JObject (map (\<lambda>e. (fst e, JString (snd e))) (sort_key fst m))"

definition health_json :: "string \<Rightarrow> (string \<times> string) list \<Rightarrow> json" where
  "health_json status checks =
     JObject ((''status'', JString status) # (if checks = [] then [] else [(''checks'', json_map checks)]))"

definition reply :: "int \<Rightarrow> json \<Rightarrow> ('c, 'w) handler" where
  "reply code doc r c =
     (case write_json code (Some doc) (cn_w c) of (p, w') \<Rightarrow> (p, r, c\<lparr>cn_w := w'\<rparr>))"

definition livez :: "('c, 'w) handler" where
  "livez = reply 200 (health_json ''UP'' [])"

text \<open>The loop of readyz: status, code, the details and the connection.\<close>

fun run_checks :: "('k \<Rightarrow> string) \<Rightarrow> ctx \<Rightarrow> (string \<times> ('w, 'k) check) list \<Rightarrow>
    string \<Rightarrow> int \<Rightarrow> (string \<times> string) list \<Rightarrow> 'w conn \<Rightarrow>
    string \<times> int \<times> (string \<times> string) list \<times> 'w conn" where
  "run_checks txt x [] status code out c = (status, code, out, c)"
| "run_checks txt x ((name, check) # cs) status code out c =
     (case check x (cn_clock c) (cn_env c) of
        (res, t, e) \<Rightarrow>
          (let c1 = c\<lparr>cn_clock := t, cn_env := e\<rparr> in
           case res of
             Some err \<Rightarrow>
               run_checks txt x cs ''DOWN'' 503
                 (AList.update name (''DOWN: '' @ err_text txt err) out)
                 (log_line \<lparr>lg_app = True, lg_attrs = []\<rparr> level_warn ''check failed''
                    [(''check'', AText name), (''err'', AText (err_text txt err))] c1)
           | None \<Rightarrow> run_checks txt x cs status code (AList.update name ''UP'' out) c1))"

definition readyz :: "('k \<Rightarrow> string) \<Rightarrow> ('w \<Rightarrow> ('w, 'k) probe_view) \<Rightarrow> ('c, 'w) handler" where
  "readyz txt view r c =
     (let v = view (cn_env c) in
      if \<not> pv_ready v \<or> pv_draining v then reply 503 (health_json ''DOWN'' []) r c
      else (case run_checks txt (rq_ctx r) (pv_checks v) ''UP'' 200 [] c of
              (status, code, out, c') \<Rightarrow>
                reply code (health_json status (if pv_show v \<noteq> ''always'' then [] else out)) r c'))"

definition log_level_body_max :: int where
  "log_level_body_max = 1024"

text \<open>\<open>dec\<close> is the JSON decoder into \<open>{"level": ...}\<close>; the App's level is \<open>cn_level\<close>.\<close>

definition log_level_handler :: "(string \<times> json_err \<Rightarrow> json_err goerr + string) \<Rightarrow> ('c, 'w) handler" where
  "log_level_handler dec r c =
     (if rq_method r = ''GET'' then reply 200 (json_map [(''level'', level_string (cn_level c))]) r c
      else if rq_method r = ''PUT'' then
        (case dec (max_bytes_reader log_level_body_max (rq_body r)) of
           Inl e \<Rightarrow>
             (case http_error (''body must be {'' @ [CHR 0x22] @ ''level'' @ [CHR 0x22] @ '': '' @
                     [CHR 0x22] @ ''...'' @ [CHR 0x22] @ ''}'') 400 (cn_w c) of
                (p, w') \<Rightarrow> (p, r, c\<lparr>cn_w := w'\<rparr>))
         | Inr level \<Rightarrow>
             (case unmarshal_level level :: unit goerr + int of
                Inl e \<Rightarrow>
                  (case http_error ''level must be one of DEBUG, INFO, WARN, ERROR'' 400 (cn_w c) of
                     (p, w') \<Rightarrow> (p, r, c\<lparr>cn_w := w'\<rparr>))
              | Inr l \<Rightarrow> reply 200 (json_map [(''level'', level_string l)]) r (c\<lparr>cn_level := l\<rparr>)))
      else (case rw_write_header 405 (rw_edit_header (hdr_set ''Allow'' ''GET, PUT'') (cn_w c)) of
              (p, w') \<Rightarrow> (p, r, c\<lparr>cn_w := w'\<rparr>)))"

text \<open>debug.ReadBuildInfo: the Go version and the settings in order.\<close>

definition info_key :: "string \<Rightarrow> string option" where
  "info_key k =
     (if k = ''vcs.revision'' then Some ''revision''
      else if k = ''vcs.time'' then Some ''time''
      else if k = ''vcs.modified'' then Some ''dirty'' else None)"

definition info_map :: "(string \<times> (string \<times> string) list) option \<Rightarrow> (string \<times> string) list" where
  "info_map bi =
     (case bi of
        None \<Rightarrow> []
      | Some (go, settings) \<Rightarrow>
          foldl (\<lambda>m s. case info_key (fst s) of Some k \<Rightarrow> AList.update k (snd s) m | None \<Rightarrow> m)
            [(''go'', go)] settings)"

definition info :: "(string \<times> (string \<times> string) list) option \<Rightarrow> ('c, 'w) handler" where
  "info bi = reply 200 (json_map (info_map bi))"

text \<open>\<open>profile name\<close> and \<open>index\<close> are the handlers of net/http/pprof.\<close>

definition pprof_index :: "(string \<Rightarrow> ('c, 'w) handler) \<Rightarrow> ('c, 'w) handler \<Rightarrow> ('c, 'w) handler" where
  "pprof_index profile index r c =
     (let name = trim_prefix (rq_path r) ''/actuator/pprof/'' in
      if name \<noteq> [] then profile name r c else index r c)"

section \<open>Endpoints\<close>

record ('c, 'w, 'k) actuator_env =
  ae_text :: "'k \<Rightarrow> string"
  ae_view :: "'w \<Rightarrow> ('w, 'k) probe_view"
  ae_build :: "(string \<times> (string \<times> string) list) option"
  ae_decode :: "string \<times> json_err \<Rightarrow> json_err goerr + string"
  ae_metrics :: "('c, 'w) handler"
  ae_profile :: "string \<Rightarrow> ('c, 'w) handler"
  ae_index :: "('c, 'w) handler"
  ae_cmdline :: "('c, 'w) handler"
  ae_cpu :: "('c, 'w) handler"
  ae_trace :: "('c, 'w) handler"
  ae_symbol :: "('c, 'w) handler"

definition endpoints :: "('c, 'w, 'k) actuator_env \<Rightarrow> (string \<times> (string \<times> ('c, 'w) handler) list) list" where
  "endpoints ae =
     [(''livez'', [(''GET /livez'', livez), (''GET /actuator/livez'', livez)]),
      (''readyz'', [(''GET /readyz'', readyz (ae_text ae) (ae_view ae)),
                    (''GET /actuator/readyz'', readyz (ae_text ae) (ae_view ae))]),
      (''info'', [(''GET /actuator/info'', info (ae_build ae))]),
      (''metrics'', [(''GET /actuator/metrics'', ae_metrics ae)]),
      (''loglevel'', [(''/actuator/loglevel'', log_level_handler (ae_decode ae))]),
      (''pprof'', [(''GET /actuator/pprof/'', pprof_index (ae_profile ae) (ae_index ae)),
                   (''GET /actuator/pprof/cmdline'', ae_cmdline ae),
                   (''GET /actuator/pprof/profile'', ae_cpu ae),
                   (''GET /actuator/pprof/trace'', ae_trace ae),
                   (''GET /actuator/pprof/symbol'', ae_symbol ae),
                   (''POST /actuator/pprof/symbol'', ae_symbol ae)])]"

definition endpoint_names :: "string list" where
  "endpoint_names = [''livez'', ''readyz'', ''info'', ''metrics'', ''loglevel'', ''pprof'']"

fun validate_expose :: "string list \<Rightarrow> 'k goerr option" where
  "validate_expose [] = None"
| "validate_expose (n # ns) =
     (if n \<in> set endpoint_names then validate_expose ns
      else Some (ErrText (''actuator.expose: no endpoint named '' @ quote n)))"

definition actuator_new :: "actuator_config \<Rightarrow> 'k goerr + ('c, 'w, 'k) actuator" where
  "actuator_new cfg =
     (let cfg1 = (if ac_expose cfg = [] then cfg\<lparr>ac_expose := [''livez'', ''readyz'', ''info'']\<rparr> else cfg)
      in case validate_expose (ac_expose cfg1) of
           Some e \<Rightarrow> Inl e
         | None \<Rightarrow> Inr \<lparr>at_cfg = cfg1, at_own = None, at_ln = None, at_checks = [], at_draining = False\<rparr>)"

fun routes_from :: "('c, 'w, 'k) actuator_env \<Rightarrow>
    (string \<Rightarrow> ('c, 'w) handler \<Rightarrow> 'm \<Rightarrow> 'm option) \<Rightarrow> string list \<Rightarrow> string list \<Rightarrow> 'm \<Rightarrow> 'm option" where
  "routes_from ae handle seen [] m = Some m"
| "routes_from ae handle seen (n # ns) m =
     (case map_of (endpoints ae) n of
        Some rs \<Rightarrow>
          if n \<in> set seen then routes_from ae handle seen ns m
          else (case handle_all handle rs m of
                  None \<Rightarrow> None
                | Some m' \<Rightarrow> routes_from ae handle (n # seen) ns m')
      | None \<Rightarrow> routes_from ae handle seen ns m)"

definition routes :: "('c, 'w, 'k) actuator_env \<Rightarrow>
    (string \<Rightarrow> ('c, 'w) handler \<Rightarrow> 'm \<Rightarrow> 'm option) \<Rightarrow> ('c, 'w, 'k) actuator \<Rightarrow> 'm \<Rightarrow> 'm option" where
  "routes ae handle a m = routes_from ae handle [] (ac_expose (at_cfg a)) m"

definition mount_on :: "('c, 'w, 'k) actuator_env \<Rightarrow>
    (string \<Rightarrow> ('c, 'w) handler \<Rightarrow> 'm \<Rightarrow> 'm option) \<Rightarrow> ('c, 'w, 'k) actuator \<Rightarrow> 'm \<Rightarrow>
    (('c, 'w, 'k) actuator \<times> 'm) option" where
  "mount_on ae handle a m =
     (if ac_addr (at_cfg a) \<noteq> []
      then map_option (\<lambda>mux. (a\<lparr>at_own := Some (ac_addr (at_cfg a), mux)\<rparr>, m)) (routes ae mux_handle a [])
      else map_option (\<lambda>m'. (a, m')) (routes ae handle a m))"

section \<open>The Component\<close>

definition actuator_name :: string where "actuator_name = ''actuator''"
definition actuator_tier :: int where "actuator_tier = tier_observe"

definition actuator_drain :: "('c, 'w, 'k) actuator \<Rightarrow> ('c, 'w, 'k) actuator" where
  "actuator_drain a = a\<lparr>at_draining := True\<rparr>"

text \<open>
  A private listener has a death channel and a line at INFO; on the application's server there
  is neither. \<open>listen\<close> is net.Listen.
\<close>

definition actuator_start :: "(string \<Rightarrow> 'k goerr + string) \<Rightarrow> ('w, 'k) app \<Rightarrow> ('c, 'w, 'k) actuator \<Rightarrow>
    ('k goerr + info_line option) \<times> ('c, 'w, 'k) actuator" where
  "actuator_start listen app a =
     (let a1 = a\<lparr>at_checks := app_checks app\<rparr> in
      case at_own a1 of
        None \<Rightarrow> (Inr None, a1)
      | Some (addr, mux) \<Rightarrow>
          (case listen addr of
             Inl e \<Rightarrow> (Inl e, a1)
           | Inr bound \<Rightarrow> (Inr (Some (listening actuator_name bound)), a1\<lparr>at_ln := Some bound\<rparr>)))"

definition actuator_stop :: "'k goerr option \<Rightarrow> ('c, 'w, 'k) actuator \<Rightarrow> 'k goerr option" where
  "actuator_stop shutdown a = (case at_own a of None \<Rightarrow> None | Some _ \<Rightarrow> shutdown)"

text \<open>What the handlers read of an Actuator and its App.\<close>

definition probe_view_of :: "('w, 'k) app \<Rightarrow> ('c, 'w, 'k) actuator \<Rightarrow> ('w, 'k) probe_view" where
  "probe_view_of app a =
     \<lparr>pv_ready = app_is_ready app, pv_draining = at_draining a, pv_checks = at_checks a,
      pv_show = ac_show_details (at_cfg a)\<rparr>"

end
