(* ===== verification/Actuator_Props.thy ===== *)
theory Actuator_Props
  imports Actuator Web_Props
begin

text \<open>
  What the Actuator promises: it mounts exactly the endpoints on the whitelist, once each,
  on the port the configuration names; readiness is the conjunction of the App, the drain
  and every Check; and the level changes only by a well-formed PUT.
\<close>

section \<open>The whitelist\<close>

text \<open>The endpoints of a whitelist in order, each name once.\<close>

fun dedup :: "string list \<Rightarrow> string list \<Rightarrow> string list" where
  "dedup seen [] = []"
| "dedup seen (n # ns) = (if n \<in> set seen then dedup seen ns else n # dedup (n # seen) ns)"

lemma set_dedup: "set (dedup seen ns) = set ns - set seen"
  by (induction ns arbitrary: seen) auto

lemma distinct_dedup: "distinct (dedup seen ns)"
  by (induction ns arbitrary: seen) (auto simp: set_dedup)

definition endpoint_patterns :: "string \<Rightarrow> string list" where
  "endpoint_patterns n =
     (if n = ''livez'' then [''GET /livez'', ''GET /actuator/livez'']
      else if n = ''readyz'' then [''GET /readyz'', ''GET /actuator/readyz'']
      else if n = ''info'' then [''GET /actuator/info'']
      else if n = ''metrics'' then [''GET /actuator/metrics'']
      else if n = ''loglevel'' then [''/actuator/loglevel'']
      else if n = ''pprof'' then [''GET /actuator/pprof/'', ''GET /actuator/pprof/cmdline'',
        ''GET /actuator/pprof/profile'', ''GET /actuator/pprof/trace'',
        ''GET /actuator/pprof/symbol'', ''POST /actuator/pprof/symbol'']
      else [])"

definition all_patterns :: "string set" where
  "all_patterns = (\<Union>n \<in> set endpoint_names. set (endpoint_patterns n))"

lemma endpoint_found:
  "n \<in> set endpoint_names \<Longrightarrow>
     \<exists>rs. map_of (endpoints ae) n = Some rs \<and> map fst rs = endpoint_patterns n"
  by (auto simp: endpoint_names_def endpoints_def endpoint_patterns_def)

lemma distinct_patterns: "distinct (endpoint_patterns n)"
  by (simp add: endpoint_patterns_def)

lemma all_distinct: "distinct (concat (map endpoint_patterns endpoint_names))"
  by (simp add: endpoint_names_def endpoint_patterns_def)

lemma distinct_concat_disjoint:
  "distinct (concat (map f xs)) \<Longrightarrow> a \<in> set xs \<Longrightarrow> b \<in> set xs \<Longrightarrow> a \<noteq> b \<Longrightarrow> set (f a) \<inter> set (f b) = {}"
  by (induction xs) auto

lemma disjoint_patterns:
  assumes "n \<in> set endpoint_names" "n' \<in> set endpoint_names" "n \<noteq> n'"
  shows "set (endpoint_patterns n) \<inter> set (endpoint_patterns n') = {}"
  using assms distinct_concat_disjoint [OF all_distinct] by blast

context mount_target
begin

lemma routes_mount:
  assumes "set ns \<subseteq> set endpoint_names"
    and "\<And>n. n \<in> set endpoint_names \<Longrightarrow> n \<notin> set seen \<Longrightarrow> set (endpoint_patterns n) \<inter> set (patterns m) = {}"
  shows "\<exists>m'. routes_from ae handle seen ns m = Some m' \<and>
    patterns m' = patterns m @ concat (map endpoint_patterns (dedup seen ns))"
  using assms
proof (induction ns arbitrary: seen m)
  case Nil
  then show ?case by simp
next
  case (Cons n ns)
  then obtain rs where rs: "map_of (endpoints ae) n = Some rs" "map fst rs = endpoint_patterns n"
    using endpoint_found [of n ae] by auto
  show ?case
  proof (cases "n \<in> set seen")
    case True
    with rs Cons.IH [of seen m] Cons.prems show ?thesis by simp
  next
    case False
    have "distinct (map fst rs)" "set (map fst rs) \<inter> set (patterns m) = {}"
      using rs distinct_patterns Cons.prems False by simp_all
    from handle_all_fresh [OF this] obtain m1
      where m1: "handle_all handle rs m = Some m1" "patterns m1 = patterns m @ endpoint_patterns n"
      using rs by auto
    have "\<exists>m'. routes_from ae handle (n # seen) ns m1 = Some m' \<and>
        patterns m' = patterns m1 @ concat (map endpoint_patterns (dedup (n # seen) ns))"
    proof (rule Cons.IH)
      show "set ns \<subseteq> set endpoint_names" using Cons.prems(1) by simp
      fix k
      assume "k \<in> set endpoint_names" "k \<notin> set (n # seen)"
      then show "set (endpoint_patterns k) \<inter> set (patterns m1) = {}"
        using m1 Cons.prems disjoint_patterns [of k n] by auto
    qed
    with rs m1 False show ?thesis by auto
  qed
qed

end

lemma validate_ok: "validate_expose ns = None \<longleftrightarrow> set ns \<subseteq> set endpoint_names"
  by (induction ns) auto

lemma actuator_new_expose:
  "actuator_new cfg = Inr a \<Longrightarrow>
     set (ac_expose (at_cfg a)) \<subseteq> set endpoint_names \<and> ac_addr (at_cfg a) = ac_addr cfg \<and>
     ac_expose (at_cfg a) = (if ac_expose cfg = [] then [''livez'', ''readyz'', ''info''] else ac_expose cfg)"
  by (auto simp: actuator_new_def Let_def validate_ok split: option.splits if_splits)


section \<open>Readiness\<close>

text \<open>What the Checks report when they run one after another from a clock and a state.\<close>

fun check_results :: "ctx \<Rightarrow> (string \<times> ('w, 'k) check) list \<Rightarrow> time \<Rightarrow> 'w \<Rightarrow>
    (string \<times> 'k goerr option) list" where
  "check_results x [] t e = []"
| "check_results x ((name, check) # cs) t e =
     (case check x t e of (res, t', e') \<Rightarrow> (name, res) # check_results x cs t' e')"

definition detail :: "('k \<Rightarrow> string) \<Rightarrow> 'k goerr option \<Rightarrow> string" where
  "detail txt res = (case res of None \<Rightarrow> ''UP'' | Some err \<Rightarrow> ''DOWN: '' @ err_text txt err)"

lemma run_checks_results:
  "run_checks txt x cs status code out c = (status', code', out', c') \<Longrightarrow>
     status' = (if list_all (\<lambda>e. snd e = None) (check_results x cs (cn_clock c) (cn_env c)) then status else ''DOWN'') \<and>
     code' = (if list_all (\<lambda>e. snd e = None) (check_results x cs (cn_clock c) (cn_env c)) then code else 503) \<and>
     out' = foldl (\<lambda>m e. AList.update (fst e) (detail txt (snd e)) m) out
              (check_results x cs (cn_clock c) (cn_env c)) \<and>
     cn_w c' = cn_w c"
proof (induction cs arbitrary: status code out c)
  case Nil
  then show ?case by simp
next
  case (Cons e cs)
  obtain name check where e: "e = (name, check)" by force
  obtain res t w where ch: "check x (cn_clock c) (cn_env c) = (res, t, w)"
    by (cases "check x (cn_clock c) (cn_env c)") auto
  show ?case
  proof (cases res)
    case None
    with Cons.prems e ch have "run_checks txt x cs status code (AList.update name ''UP'' out)
        (c\<lparr>cn_clock := t, cn_env := w\<rparr>) = (status', code', out', c')" by simp
    from Cons.IH [OF this] show ?thesis using None e ch by (simp add: detail_def)
  next
    case (Some err)
    with Cons.prems e ch obtain c1 where
      run: "run_checks txt x cs ''DOWN'' 503 (AList.update name (''DOWN: '' @ err_text txt err) out) c1 =
        (status', code', out', c')" and c1: "cn_w c1 = cn_w c" "cn_clock c1 = t" "cn_env c1 = w"
      by (simp add: Let_def)
    from Cons.IH [OF run] c1 show ?thesis using Some e ch by (simp add: detail_def)
  qed
qed

lemma foldl_update_fresh:
  "distinct (map fst xs) \<Longrightarrow> set (map fst xs) \<inter> set (map fst out) = {} \<Longrightarrow>
     foldl (\<lambda>m e. AList.update (fst e) (f (snd e)) m) out xs = out @ map (\<lambda>e. (fst e, f (snd e))) xs"
proof (induction xs arbitrary: out)
  case Nil
  then show ?case by simp
next
  case (Cons e xs)
  have "AList.update (fst e) (f (snd e)) out = out @ [(fst e, f (snd e))]"
    using Cons.prems(2) by (induction out) auto
  with Cons show ?case by auto
qed

lemma check_results_names: "map fst (check_results x cs t e) = map fst cs"
  by (induction cs arbitrary: t e) (auto split: prod.split)

lemma reply_answers:
  assumes "coherent (cn_w c)" "\<not> wi_wrote (rw_wire (cn_w c))" "n = 200 \<or> n = 503" "wi_room (rw_wire (cn_w c)) = None"
  shows "\<exists>c'. reply n doc r c = (None, r, c') \<and> wi_status (rw_wire (cn_w c')) = n \<and>
    wi_body (rw_wire (cn_w c')) = wi_body (rw_wire (cn_w c)) @ json_encode doc"
proof -
  have v: "valid_status n" using assms(3) by (auto simp: valid_status_def)
  let ?w1 = "rw_edit_header (hdr_set ''Content-Type'' ''application/json'') (cn_w c)"
  obtain w2 where w2: "rw_write_header n ?w1 = (None, w2)"
    using valid_no_panic [OF v, of ?w1] by (cases "rw_write_header n ?w1") auto
  have "rw_wire w2 = snd (wire_write_header n (rw_wire ?w1))"
    using wire_write_header_rw [of ?w1 n] assms(1) v w2 by simp
  with assms(2-4) v have x: "wi_wrote (rw_wire w2)" "wi_status (rw_wire w2) = n"
    "wi_body (rw_wire w2) = wi_body (rw_wire (cn_w c))" "wi_room (rw_wire w2) = None"
    by (auto simp: wire_write_header_def informational_def)
  have "body_allowed n" using assms(3) by (auto simp: body_allowed_def)
  with x have "wi_status (rw_wire (snd (rw_write (json_encode doc) w2))) = n"
    "wi_body (rw_wire (snd (rw_write (json_encode doc) w2))) = wi_body (rw_wire (cn_w c)) @ json_encode doc"
    by (simp_all add: wire_write_rw wire_write_simps) (simp add: wire_write_def wire_write_header_def Let_def)
  with w2 show ?thesis by (simp add: reply_def write_json_def respond_def)
qed

text \<open>
  C38: Readiness answers 200 exactly when the App is ready, nothing is draining and every
  Check passes, and 503 otherwise; before that no Check runs at all; and the body names the
  Checks only under \<open>showDetails: always\<close>.
\<close>

theorem readiness_is_the_conjunction:
  assumes "coherent (cn_w c)" "\<not> wi_wrote (rw_wire (cn_w c))" "wi_room (rw_wire (cn_w c)) = None"
    and "wi_body (rw_wire (cn_w c)) = []" "distinct (map fst (pv_checks (view (cn_env c))))"
  shows "\<exists>c'. readyz txt view r c = (None, r, c') \<and>
    (let v = view (cn_env c);
         up = (pv_ready v \<and> \<not> pv_draining v);
         results = check_results (rq_ctx r) (pv_checks v) (cn_clock c) (cn_env c);
         pass = list_all (\<lambda>e. snd e = None) results
     in wi_status (rw_wire (cn_w c')) = (if up \<and> pass then 200 else 503) \<and>
        (if up then True else cn_env c' = cn_env c \<and> cn_clock c' = cn_clock c) \<and>
        wi_body (rw_wire (cn_w c')) =
          json_encode (health_json (if up \<and> pass then ''UP'' else ''DOWN'')
            (if up \<and> pv_show v = ''always'' then map (\<lambda>e. (fst e, detail txt (snd e))) results else [])))"
proof -
  let ?v = "view (cn_env c)"
  show ?thesis
  proof (cases "pv_ready ?v \<and> \<not> pv_draining ?v")
    case False
    obtain c' where c': "reply 503 (health_json ''DOWN'' []) r c = (None, r, c')"
      "wi_status (rw_wire (cn_w c')) = 503"
      "wi_body (rw_wire (cn_w c')) = json_encode (health_json ''DOWN'' [])"
      using reply_answers [of c 503 "health_json ''DOWN'' []" r] assms by auto
    then have "cn_env c' = cn_env c \<and> cn_clock c' = cn_clock c"
      by (auto simp: reply_def split: prod.splits)
    with c' False show ?thesis by (auto simp: readyz_def Let_def)
  next
    case True
    obtain status code out c1 where run:
      "run_checks txt (rq_ctx r) (pv_checks ?v) ''UP'' 200 [] c = (status, code, out, c1)"
      by (cases "run_checks txt (rq_ctx r) (pv_checks ?v) ''UP'' 200 [] c") auto
    note res = run_checks_results [OF run]
    have out: "out = map (\<lambda>e. (fst e, detail txt (snd e)))
        (check_results (rq_ctx r) (pv_checks ?v) (cn_clock c) (cn_env c))"
      using res foldl_update_fresh [of "check_results (rq_ctx r) (pv_checks ?v) (cn_clock c) (cn_env c)" "[]"]
        assms(5) check_results_names [of "rq_ctx r" "pv_checks ?v" "cn_clock c" "cn_env c"] by simp
    have "code = 200 \<or> code = 503" using res by auto
    then obtain c' where c': "reply code (health_json status (if pv_show ?v \<noteq> ''always'' then [] else out)) r c1
        = (None, r, c')" "wi_status (rw_wire (cn_w c')) = code"
      "wi_body (rw_wire (cn_w c')) = json_encode (health_json status (if pv_show ?v \<noteq> ''always'' then [] else out))"
      using reply_answers [of c1 code "health_json status (if pv_show ?v \<noteq> ''always'' then [] else out)" r]
        assms res by auto
    with True run res out show ?thesis by (auto simp: readyz_def Let_def)
  qed
qed

lemma http_error_answers:
  assumes "coherent w" "\<not> wi_wrote (rw_wire w)" "200 \<le> n" "n \<le> 999"
  shows "\<exists>w'. http_error m n w = (None, w') \<and> wi_status (rw_wire w') = n"
proof -
  have v: "valid_status n" using assms(3,4) by (simp add: valid_status_def)
  let ?w1 = "rw_edit_header (\<lambda>h. hdr_set ''X-Content-Type-Options'' ''nosniff''
      (hdr_set ''Content-Type'' ''text/plain; charset=utf-8'' (hdr_del ''Content-Length'' h))) w"
  obtain w2 where w2: "rw_write_header n ?w1 = (None, w2)"
    using valid_no_panic [OF v, of ?w1] by (cases "rw_write_header n ?w1") auto
  have "rw_wire w2 = snd (wire_write_header n (rw_wire ?w1))"
    using wire_write_header_rw [of ?w1 n] assms(1) v w2 by simp
  with assms(2,3) v have "wi_wrote (rw_wire w2)" "wi_status (rw_wire w2) = n"
    by (simp_all add: wire_write_header_def informational_def)
  with w2 show ?thesis by (simp add: http_error_def wire_write_rw wire_write_simps)
qed

lemma reply_keeps_level: "reply n doc r c = (p, r', c') \<Longrightarrow> cn_level c' = cn_level c"
  by (auto simp: reply_def split: prod.splits)

text \<open>
  The log level changes only by a PUT whose body decodes and names a level, and then
  to that level with a 200; a PUT that does not is a 400 and changes nothing, as does a GET
  or any other method; and the name a GET prints is one a PUT accepts, for the same level.
\<close>

theorem level_changes_only_by_a_good_put:
  assumes "coherent (cn_w c)" "\<not> wi_wrote (rw_wire (cn_w c))" "wi_room (rw_wire (cn_w c)) = None"
  shows "\<exists>c'. log_level_handler dec r c = (None, r, c') \<and>
    (case (if rq_method r = ''PUT'' then
             (case dec (max_bytes_reader 1024 (rq_body r)) of
                Inl e \<Rightarrow> None
              | Inr t \<Rightarrow> (case unmarshal_level t :: unit goerr + int of Inl e \<Rightarrow> None | Inr l \<Rightarrow> Some l))
           else None) of
       Some l \<Rightarrow> cn_level c' = l \<and> wi_status (rw_wire (cn_w c')) = 200
     | None \<Rightarrow> cn_level c' = cn_level c \<and>
         wi_status (rw_wire (cn_w c')) =
           (if rq_method r = ''GET'' then 200 else if rq_method r = ''PUT'' then 400 else 405)) \<and>
    (int64 l \<longrightarrow> unmarshal_level (level_string l) = (Inr l :: unit goerr + int))"
proof -
  have rt: "int64 l \<longrightarrow> unmarshal_level (level_string l) = (Inr l :: unit goerr + int)"
    using unmarshal_level_string by blast
  consider (get) "rq_method r = ''GET''" | (put) "rq_method r = ''PUT''"
    | (other) "rq_method r \<noteq> ''GET''" "rq_method r \<noteq> ''PUT''" by blast
  then show ?thesis
  proof cases
    case get
    obtain c' where "reply 200 (json_map [(''level'', level_string (cn_level c))]) r c = (None, r, c')"
      "wi_status (rw_wire (cn_w c')) = 200" using reply_answers [OF assms(1,2) _ assms(3)] by blast
    with get rt reply_keeps_level show ?thesis by (fastforce simp: log_level_handler_def)
  next
    case put
    show ?thesis
    proof (cases "dec (max_bytes_reader 1024 (rq_body r))")
      case (Inl e)
      obtain w' where "http_error (''body must be {'' @ [CHR 0x22] @ ''level'' @ [CHR 0x22] @ '': '' @
          [CHR 0x22] @ ''...'' @ [CHR 0x22] @ ''}'') 400 (cn_w c) = (None, w')" "wi_status (rw_wire w') = 400"
        using http_error_answers [OF assms(1,2), of 400] by auto
      with put Inl rt show ?thesis by (simp add: log_level_handler_def log_level_body_max_def)
    next
      case (Inr t)
      show ?thesis
      proof (cases "unmarshal_level t :: unit goerr + int")
        case (Inl e)
        obtain w' where "http_error ''level must be one of DEBUG, INFO, WARN, ERROR'' 400 (cn_w c) = (None, w')"
          "wi_status (rw_wire w') = 400" using http_error_answers [OF assms(1,2), of 400] by auto
        with put Inr Inl rt show ?thesis by (simp add: log_level_handler_def log_level_body_max_def)
      next
        case R: (Inr k)
        let ?c1 = "c\<lparr>cn_level := k\<rparr>"
        obtain c' where "reply 200 (json_map [(''level'', level_string k)]) r ?c1 = (None, r, c')"
          "wi_status (rw_wire (cn_w c')) = 200" using reply_answers [of ?c1 200] assms by auto
        with put Inr R rt reply_keeps_level [of 200 _ r ?c1] show ?thesis
          by (fastforce simp: log_level_handler_def log_level_body_max_def)
      qed
    qed
  next
    case other
    let ?w1 = "rw_edit_header (hdr_set ''Allow'' ''GET, PUT'') (cn_w c)"
    have v: "valid_status 405" by (simp add: valid_status_def)
    obtain w2 where w2: "rw_write_header 405 ?w1 = (None, w2)"
      using valid_no_panic [OF v, of ?w1] by (cases "rw_write_header 405 ?w1") auto
    have "rw_wire w2 = snd (wire_write_header 405 (rw_wire ?w1))"
      using wire_write_header_rw [of ?w1 405] assms(1) v w2 by simp
    with assms(2) v have "wi_status (rw_wire w2) = 405"
      by (simp add: wire_write_header_def informational_def)
    with other w2 rt show ?thesis by (simp add: log_level_handler_def)
  qed
qed

lemma livez_handler: "http_handler livez"
  by unfold_locales
    (auto simp: livez_def reply_def write_json_def split: prod.splits dest: respond_ok [OF valid_status_200])

interpretation livez: http_handler livez
  by (rule livez_handler)

section \<open>Witnesses\<close>

definition sample_actuator_config :: actuator_config where
  "sample_actuator_config =
     \<lparr>ac_addr = [], ac_expose = [''livez'', ''info'', ''livez''], ac_show_details = ''always''\<rparr>"

definition empty_server :: "(unit, unit) server" where
  "empty_server =
     \<lparr>sv_app_log = True, sv_mux = [], sv_addr = '':8080'', sv_read_header_timeout = 0,
      sv_idle_timeout = 0, sv_handler = None, sv_mw = [], sv_ln = None, sv_max_body = 1,
      sv_cert_file = [], sv_key_file = []\<rparr>"


definition sample_view :: "(unit, unit) probe_view" where
  "sample_view =
     \<lparr>pv_ready = True, pv_draining = False,
      pv_checks = [(''db'', \<lambda>x t e. (Some (ErrText ''refused''), t, e)), (''kafka'', \<lambda>x t e. (None, t, e))],
      pv_show = ''always''\<rparr>"

theorem readiness_is_the_conjunction_witness:
  "\<exists>c'. readyz (\<lambda>k. []) (\<lambda>w. sample_view) sample_request sample_conn = (None, sample_request, c') \<and>
     wi_status (rw_wire (cn_w c')) = 503 \<and>
     wi_body (rw_wire (cn_w c')) =
       json_encode (health_json ''DOWN'' [(''db'', ''DOWN: refused''), (''kafka'', ''UP'')])"
proof -
  have a: "wi_room (rw_wire (cn_w sample_conn)) = None" "wi_body (rw_wire (cn_w sample_conn)) = []"
    by (simp_all add: sample_conn_def new_wire_def)
  have d: "distinct (map fst (pv_checks ((\<lambda>w. sample_view) (cn_env sample_conn))))"
    by (simp add: sample_view_def)
  from readiness_is_the_conjunction [OF sample_conn_ok(1,2) a d, of "\<lambda>k. []" sample_request]
  show ?thesis by (simp add: sample_view_def detail_def)
qed

theorem level_changes_only_by_a_good_put_witness:
  "\<exists>c'. log_level_handler (\<lambda>s. Inr ''ERROR'') (sample_request\<lparr>rq_method := ''PUT''\<rparr>) sample_conn =
       (None, sample_request\<lparr>rq_method := ''PUT''\<rparr>, c') \<and>
     cn_level c' = 8 \<and> wi_status (rw_wire (cn_w c')) = 200"
proof -
  have a: "wi_room (rw_wire (cn_w sample_conn)) = None" by (simp add: sample_conn_def new_wire_def)
  have "unmarshal_level ''ERROR'' = (Inr 8 :: unit goerr + int)" by code_simp
  with level_changes_only_by_a_good_put [OF sample_conn_ok(1,2) a, of "\<lambda>s. Inr ''ERROR''"
      "sample_request\<lparr>rq_method := ''PUT''\<rparr>" 0]
  show ?thesis by auto
qed

end
