(* ===== verification/Kafka.thy ===== *)
theory Kafka
  imports Lifecycle "HOL-Library.AList"
begin

text \<open>
  The Kafka consumer Starter (kafka/kafka.go): its configuration, the fetch loop, and the
  batch that runs one goroutine per partition.

  The client is a parameter: what a poll gives and what a commit does. One call of the
  Handler is one step; the goroutines of a batch take their steps in any order. A handler
  answers with nothing, an error or a panic.
\<close>

section \<open>Configuration\<close>

record sasl_config =
  sasl_mechanism :: string
  sasl_username :: string
  sasl_password :: string

record kafka_config =
  kc_brokers :: "string list"
  kc_topic :: string
  kc_group :: string
  kc_tls :: bool
  kc_sasl :: sasl_config

datatype mechanism = SaslPlain string string | Scram256 string string | Scram512 string string

definition kafka_mechanism :: "sasl_config \<Rightarrow> 'k goerr + mechanism option" where
  "kafka_mechanism c =
     (if sasl_mechanism c = [] then Inr None
      else if sasl_username c = [] \<or> sasl_password c = []
      then Inl (ErrText ''kafka.sasl: mechanism is set, so username and password are required'')
      else if sasl_mechanism c = ''plain'' then Inr (Some (SaslPlain (sasl_username c) (sasl_password c)))
      else if sasl_mechanism c = ''scram-sha-256''
      then Inr (Some (Scram256 (sasl_username c) (sasl_password c)))
      else if sasl_mechanism c = ''scram-sha-512''
      then Inr (Some (Scram512 (sasl_username c) (sasl_password c)))
      else Inl (ErrText (''kafka.sasl.mechanism: unknown '' @ quote (sasl_mechanism c) @ '', want one of '' @
             quote ''plain'' @ '', '' @ quote ''scram-sha-256'' @ '', '' @ quote ''scram-sha-512'')))"

definition kafka_new :: "kafka_config \<Rightarrow> bool \<Rightarrow> 'k goerr option" where
  "kafka_new cfg has_handler =
     (if kc_brokers cfg = [] then Some (ErrText ''kafka.brokers: required, at least one'')
      else if list_ex (\<lambda>b. b = []) (kc_brokers cfg)
      then Some (ErrText ''kafka.brokers: contains an empty entry'')
      else if kc_topic cfg = [] then Some (ErrText ''kafka.topic: required'')
      else if kc_group cfg = [] then Some (ErrText ''kafka.group: required'')
      else (case kafka_mechanism (kc_sasl cfg) of
              Inl e \<Rightarrow> Some e
            | Inr m \<Rightarrow> if has_handler then None else Some (ErrText ''kafka: New needs a Handler'')))"

definition kafka_name :: "kafka_config \<Rightarrow> string" where
  "kafka_name cfg = ''kafka:'' @ kc_topic cfg"

definition kafka_tier :: int where "kafka_tier = tier_transport"

text \<open>The client options Start passes.\<close>

datatype client_opt =
    SeedBrokers "string list"
  | ConsumerGroup string
  | ConsumeTopics string
  | DisableAutoCommit
  | ResetOffsetAtEnd
  | DialTls12
  | Sasl mechanism

definition client_opts :: "kafka_config \<Rightarrow> mechanism option \<Rightarrow> client_opt list" where
  "client_opts cfg m =
     [SeedBrokers (kc_brokers cfg), ConsumerGroup (kc_group cfg), ConsumeTopics (kc_topic cfg),
      DisableAutoCommit, ResetOffsetAtEnd] @
     (if kc_tls cfg then [DialTls12] else []) @
     (case m of None \<Rightarrow> [] | Some x \<Rightarrow> [Sasl x])"

section \<open>Records and messages\<close>

record krecord =
  kr_key :: string
  kr_value :: string
  kr_topic :: string
  kr_partition :: int
  kr_offset :: int
  kr_headers :: "(string \<times> string) list"
  kr_time :: time

record kmessage =
  km_key :: string
  km_value :: string
  km_topic :: string
  km_partition :: int
  km_offset :: int
  km_headers :: "(string \<times> string) list"
  km_time :: time

definition message_of :: "krecord \<Rightarrow> kmessage" where
  "message_of r =
     \<lparr>km_key = kr_key r, km_value = kr_value r, km_topic = kr_topic r,
      km_partition = kr_partition r, km_offset = kr_offset r,
      km_headers = foldl (\<lambda>m h. AList.update (fst h) (snd h) m) [] (kr_headers r),
      km_time = kr_time r\<rparr>"

datatype 'k answer = Done | Failed "'k goerr" | Panicked string

type_synonym ('w, 'k) khandler = "kmessage \<Rightarrow> 'w \<Rightarrow> 'k answer \<times> 'w"

definition kafka_call :: "('w, 'k) khandler \<Rightarrow> krecord \<Rightarrow> 'w \<Rightarrow> 'k goerr option \<times> 'w" where
  "kafka_call h r w =
     (case h (message_of r) w of
        (Done, w') \<Rightarrow> (None, w')
      | (Failed e, w') \<Rightarrow> (Some e, w')
      | (Panicked p, w') \<Rightarrow> (Some (ErrText (''handler panicked: '' @ p)), w'))"

section \<open>One partition\<close>

text \<open>
  \<open>alive\<close> says whether the handlers' context is still alive. The result is the records to
  commit and the record that failed, if one did, with its error (what is logged).
\<close>

fun handle_partition :: "('w \<Rightarrow> bool) \<Rightarrow> ('w, 'k) khandler \<Rightarrow> krecord list \<Rightarrow> 'w \<Rightarrow>
    krecord list \<times> (krecord \<times> 'k goerr) option \<times> 'w" where
  "handle_partition alive h [] w = ([], None, w)"
| "handle_partition alive h (r # rs) w =
     (case kafka_call h r w of
        (Some e, w') \<Rightarrow> ([], Some (r, e), w')
      | (None, w') \<Rightarrow>
          if \<not> alive w' then ([r], None, w')
          else (case handle_partition alive h rs w' of (ok, bad, w'') \<Rightarrow> (r # ok, bad, w'')))"

text \<open>
  The goroutine of one partition as a machine: what it has still to do, what it has done,
  and whether it has returned. One step is one call of the Handler and what follows it.
\<close>

record ('k) worker =
  wk_todo :: "krecord list"
  wk_ok :: "krecord list"
  wk_bad :: "(krecord \<times> 'k goerr) option"
  wk_returned :: bool

definition new_worker :: "krecord list \<Rightarrow> 'k worker" where
  "new_worker rs = \<lparr>wk_todo = rs, wk_ok = [], wk_bad = None, wk_returned = (rs = [])\<rparr>"

definition worker_step :: "('w \<Rightarrow> bool) \<Rightarrow> ('w, 'k) khandler \<Rightarrow> 'k worker \<Rightarrow> 'w \<Rightarrow> 'k worker \<times> 'w" where
  "worker_step alive h k w =
     (case wk_todo k of
        [] \<Rightarrow> (k\<lparr>wk_returned := True\<rparr>, w)
      | r # rs \<Rightarrow>
          (case kafka_call h r w of
             (Some e, w') \<Rightarrow> (k\<lparr>wk_todo := rs, wk_bad := Some (r, e), wk_returned := True\<rparr>, w')
           | (None, w') \<Rightarrow>
               (k\<lparr>wk_todo := rs, wk_ok := wk_ok k @ [r], wk_returned := (rs = [] \<or> \<not> alive w')\<rparr>, w')))"

text \<open>A batch: any goroutine that has not returned takes the next step.\<close>

inductive batch_step :: "('w \<Rightarrow> bool) \<Rightarrow> ('w, 'k) khandler \<Rightarrow>
    'k worker list \<times> 'w \<Rightarrow> 'k worker list \<times> 'w \<Rightarrow> bool"
  for alive :: "'w \<Rightarrow> bool" and h :: "('w, 'k) khandler" where
  goroutine:
    "i < length ks \<Longrightarrow> \<not> wk_returned (ks ! i) \<Longrightarrow> worker_step alive h (ks ! i) w = (k', w') \<Longrightarrow>
     batch_step alive h (ks, w) (ks[i := k'], w')"

inductive_cases batch_step_elim: "batch_step alive h (ks, w) s"

definition batch_finished :: "'k worker list \<Rightarrow> bool" where
  "batch_finished ks = list_all wk_returned ks"

text \<open>
  handleBatch: the goroutines run to their end, then one commit of all they report, when
  they report anything. \<open>commit\<close> is the client's CommitRecords; its failure is only logged.
\<close>

inductive handle_batch :: "('w \<Rightarrow> bool) \<Rightarrow> ('w, 'k) khandler \<Rightarrow>
    (krecord list \<Rightarrow> 'w \<Rightarrow> 'k goerr option \<times> 'w) \<Rightarrow> krecord list list \<Rightarrow> 'w \<Rightarrow>
    krecord list \<Rightarrow> 'k worker list \<Rightarrow> 'w \<Rightarrow> bool"
  for alive :: "'w \<Rightarrow> bool" and h :: "('w, 'k) khandler"
    and commit :: "krecord list \<Rightarrow> 'w \<Rightarrow> 'k goerr option \<times> 'w" where
  batch_commits:
    "(batch_step alive h)\<^sup>*\<^sup>* (map new_worker parts, w) (ks, w') \<Longrightarrow> batch_finished ks \<Longrightarrow>
     mset ok = mset (concat (map wk_ok ks)) \<Longrightarrow> ok \<noteq> [] \<Longrightarrow> commit ok w' = (e, w'') \<Longrightarrow>
     handle_batch alive h commit parts w ok ks w''"
| batch_commits_nothing:
    "(batch_step alive h)\<^sup>*\<^sup>* (map new_worker parts, w) (ks, w') \<Longrightarrow> batch_finished ks \<Longrightarrow>
     concat (map wk_ok ks) = [] \<Longrightarrow>
     handle_batch alive h commit parts w [] ks w'"

section \<open>The fetch loop\<close>

text \<open>
  An error of a fetch: cancelled, one the client retries, a broker error (kerr) or anything
  else. kerr.IsRetriable and errors.Is work through wrapping.
\<close>

datatype fetch_err = FetchCanceled | BrokerError int bool | TransportError string

record fetches =
  ft_closed :: bool
  ft_errors :: "(int \<times> fetch_err goerr) list"
  ft_partitions :: "krecord list list"

definition retriable :: "fetch_err goerr \<Rightarrow> bool" where
  "retriable e = errors_is (\<lambda>k. case k of BrokerError c r \<Rightarrow> r | _ \<Rightarrow> False) e"

definition canceled :: "fetch_err goerr \<Rightarrow> bool" where
  "canceled e = errors_is (\<lambda>k. k = FetchCanceled) e"

definition broker_error :: "fetch_err goerr \<Rightarrow> bool" where
  "broker_error e = errors_is (\<lambda>k. case k of BrokerError c r \<Rightarrow> True | _ \<Rightarrow> False) e"

definition refusal_of :: "string \<Rightarrow> int \<Rightarrow> fetch_err goerr \<Rightarrow> fetch_err goerr" where
  "refusal_of name p e = ErrWrap (name @ '': partition '' @ format_int p @ '': '') e"

fun refusal :: "string \<Rightarrow> (int \<times> fetch_err goerr) list \<Rightarrow> fetch_err goerr option" where
  "refusal name [] = None"
| "refusal name ((p, e) # es) =
     (if canceled e \<or> retriable e then refusal name es
      else if \<not> broker_error e then refusal name es
      else Some (refusal_of name p e))"

text \<open>
  What one turn of the loop sees: the closing flag before the poll, what the poll gives and
  whether the poll's context is cancelled after it.
\<close>

record turn =
  tn_closing :: bool
  tn_fetches :: fetches
  tn_cancelled :: bool

text \<open>
  How the loop ends: it goes home, it dies of a refusal, or the turns run out. A poll takes
  time, so a batch begins in a world that has moved on.
\<close>

datatype loop_end = WentHome | Died "fetch_err goerr" | StillRunning

inductive consume :: "string \<Rightarrow> ('w \<Rightarrow> bool) \<Rightarrow> ('w, 'k) khandler \<Rightarrow>
    (krecord list \<Rightarrow> 'w \<Rightarrow> 'k goerr option \<times> 'w) \<Rightarrow> turn list \<Rightarrow> 'w \<Rightarrow>
    krecord list list \<Rightarrow> loop_end \<Rightarrow> 'w \<Rightarrow> bool"
  for name :: string and alive :: "'w \<Rightarrow> bool" and h :: "('w, 'k) khandler"
    and commit :: "krecord list \<Rightarrow> 'w \<Rightarrow> 'k goerr option \<times> 'w" where
  no_more_turns: "consume name alive h commit [] w [] StillRunning w"
| goes_home:
    "tn_closing t \<or> ft_closed (tn_fetches t) \<or> tn_cancelled t \<Longrightarrow>
     consume name alive h commit (t # ts) w [] WentHome w"
| dies:
    "\<not> tn_closing t \<Longrightarrow> \<not> ft_closed (tn_fetches t) \<Longrightarrow> \<not> tn_cancelled t \<Longrightarrow>
     refusal name (ft_errors (tn_fetches t)) = Some e \<Longrightarrow>
     consume name alive h commit (t # ts) w [] (Died e) w"
| handles:
    "\<not> tn_closing t \<Longrightarrow> \<not> ft_closed (tn_fetches t) \<Longrightarrow> \<not> tn_cancelled t \<Longrightarrow>
     refusal name (ft_errors (tn_fetches t)) = None \<Longrightarrow>
     handle_batch alive h commit (ft_partitions (tn_fetches t)) w' ok ks w1 \<Longrightarrow>
     consume name alive h commit ts w1 commits e w2 \<Longrightarrow>
     consume name alive h commit (t # ts) w (ok # commits) e w2"

section \<open>Starting and stopping\<close>

text \<open>
  The Component: \<open>kst_running\<close> says that Start has made the contexts (c.cancel is not nil),
  the next two that they have been cancelled.
\<close>

record kafka_state =
  kst_cfg :: kafka_config
  kst_running :: bool
  kst_poll_cancelled :: bool
  kst_ctx_cancelled :: bool
  kst_closing :: bool
  kst_client_open :: bool
  kst_fatal :: "fetch_err goerr option"

definition kafka_state_new :: "kafka_config \<Rightarrow> kafka_state" where
  "kafka_state_new cfg =
     \<lparr>kst_cfg = cfg, kst_running = False, kst_poll_cancelled = False, kst_ctx_cancelled = False,
      kst_closing = False, kst_client_open = False, kst_fatal = None\<rparr>"

text \<open>\<open>new_client\<close> is kgo.NewClient and \<open>ping\<close> its Ping; a client that does not answer is closed.\<close>

definition kafka_start :: "(client_opt list \<Rightarrow> 'k goerr option) \<Rightarrow> 'k goerr option \<Rightarrow> kafka_state \<Rightarrow>
    'k goerr option \<times> kafka_state" where
  "kafka_start new_client ping s =
     (case kafka_mechanism (kc_sasl (kst_cfg s)) of
        Inl e \<Rightarrow> (Some e, s)
      | Inr m \<Rightarrow>
          (case new_client (client_opts (kst_cfg s) m) of
             Some e \<Rightarrow> (Some (ErrWrap ''kafka: '' e), s)
           | None \<Rightarrow>
               (case ping of
                  Some e \<Rightarrow> (Some (ErrWrap ''kafka.brokers: '' e), s)
                | None \<Rightarrow> (None, s\<lparr>kst_client_open := True, kst_running := True,
                                 kst_poll_cancelled := False, kst_ctx_cancelled := False\<rparr>))))"

text \<open>Drain in its two parts: the flag, then the polls' context, when Start has made it.\<close>

definition kafka_drain_flag :: "kafka_state \<Rightarrow> kafka_state" where
  "kafka_drain_flag s = s\<lparr>kst_closing := True\<rparr>"

definition kafka_drain_cancel :: "kafka_state \<Rightarrow> kafka_state" where
  "kafka_drain_cancel s = (if kst_running s then s\<lparr>kst_poll_cancelled := True\<rparr> else s)"

definition kafka_drain :: "kafka_state \<Rightarrow> kafka_state" where
  "kafka_drain s = kafka_drain_cancel (kafka_drain_flag s)"

text \<open>
  Stop as its caller sees it. \<open>clean\<close> says which case its select took: the loop was done, or
  the context of Stop expired first with \<open>ctx_err\<close>. Either way the handlers' context is
  cancelled and the client closed.
\<close>

definition kafka_stop_end :: "kafka_state \<Rightarrow> kafka_state" where
  "kafka_stop_end s = s\<lparr>kst_ctx_cancelled := True, kst_client_open := False\<rparr>"

definition kafka_stop :: "bool \<Rightarrow> 'k goerr \<Rightarrow> kafka_state \<Rightarrow> 'k goerr option \<times> kafka_state" where
  "kafka_stop clean ctx_err s =
     (if \<not> kst_running s then (None, s)
      else (if clean then None else Some (ErrWrap ''handler still running: '' ctx_err),
            kafka_stop_end (kafka_drain s)))"

definition kafka_check :: "kafka_state \<Rightarrow> fetch_err goerr option" where
  "kafka_check s = kst_fatal s"

definition kafka_set_fatal :: "fetch_err goerr \<Rightarrow> kafka_state \<Rightarrow> kafka_state" where
  "kafka_set_fatal e s = s\<lparr>kst_fatal := Some e\<rparr>"

end
