(* ===== verification/Kafka_Props.thy ===== *)
theory Kafka_Props
  imports Kafka State_Machine "HOL-Library.Sublist"
begin

text \<open>
  What the Kafka consumer promises: however the goroutines of a batch interleave, only
  leading runs of handled records are committed; a batch ends; a partition on its own is
  the sequential loop of the code. And what it does not keep: a later batch commits over a
  record that failed.
\<close>

section \<open>Goroutines\<close>

text \<open>Some call of the Handler on the record returned no error.\<close>

definition handled :: "('w, 'k) khandler \<Rightarrow> krecord \<Rightarrow> bool" where
  "handled h r \<longleftrightarrow> (\<exists>w w'. kafka_call h r w = (None, w'))"

lemma handledI: "kafka_call h r w = (None, w') \<Longrightarrow> handled h r"
  by (auto simp: handled_def)

text \<open>The state of one goroutine that began with the records \<open>rs\<close>.\<close>

definition worker_inv :: "('w, 'k) khandler \<Rightarrow> krecord list \<Rightarrow> 'k worker \<Rightarrow> bool" where
  "worker_inv h rs k \<longleftrightarrow>
     rs = wk_ok k @ (case wk_bad k of Some (r, e) \<Rightarrow> [r] | None \<Rightarrow> []) @ wk_todo k \<and>
     (wk_bad k \<noteq> None \<longrightarrow> wk_returned k) \<and> (wk_todo k = [] \<longrightarrow> wk_returned k) \<and>
     (\<forall>r \<in> set (wk_ok k). handled h r)"

lemma worker_inv_new: "worker_inv h rs (new_worker rs)"
  by (simp add: worker_inv_def new_worker_def)

lemma worker_step_inv:
  assumes "worker_inv h rs k" "\<not> wk_returned k" "worker_step alive h k w = (k', w')"
  shows "worker_inv h rs k'"
proof -
  obtain r todo where todo: "wk_todo k = r # todo"
    using assms(1,2) by (cases "wk_todo k") (auto simp: worker_inv_def)
  have bad: "wk_bad k = None" using assms(1,2) by (cases "wk_bad k") (auto simp: worker_inv_def)
  show ?thesis
  proof (cases "kafka_call h r w")
    case (Pair res w1)
    then show ?thesis using assms(1,3) todo bad
      by (cases res) (auto simp: worker_step_def worker_inv_def dest: handledI)
  qed
qed

lemma batch_inv:
  assumes "(batch_step alive h)\<^sup>*\<^sup>* (map new_worker parts, w) (ks, w')"
  shows "length ks = length parts \<and> (\<forall>i < length parts. worker_inv h (parts ! i) (ks ! i))"
  using assms
proof (induction "(ks, w')" arbitrary: ks w' rule: rtranclp_induct)
  case base
  then show ?case by (auto simp: worker_inv_new)
next
  case (step s)
  obtain ks0 w0 where s: "s = (ks0, w0)" by force
  from step(2) [unfolded s] obtain i k' where i: "i < length ks0" "\<not> wk_returned (ks0 ! i)"
    "worker_step alive h (ks0 ! i) w0 = (k', w')" "ks = ks0[i := k']"
    by (auto elim: batch_step_elim)
  from step(3) [OF s] have ih: "length ks0 = length parts"
    "\<And>j. j < length parts \<Longrightarrow> worker_inv h (parts ! j) (ks0 ! j)" by auto
  from worker_step_inv [OF _ i(2,3)] ih i(1) have "worker_inv h (parts ! i) k'" by simp
  with ih i show ?case by (auto simp: nth_list_update)
qed

lemma batch_leading_runs:
  assumes "handle_batch alive h commit parts w ok ks w'"
  shows "length ks = length parts \<and> mset ok = mset (concat (map wk_ok ks)) \<and>
    (\<forall>i < length parts. prefix (wk_ok (ks ! i)) (parts ! i) \<and>
       (\<forall>r \<in> set (wk_ok (ks ! i)). handled h r) \<and>
       (case wk_bad (ks ! i) of
          None \<Rightarrow> True
        | Some (r, e) \<Rightarrow> \<exists>rest. parts ! i = wk_ok (ks ! i) @ r # rest))"
proof -
  from assms obtain w1 where run: "(batch_step alive h)\<^sup>*\<^sup>* (map new_worker parts, w) (ks, w1)"
    and ok: "mset ok = mset (concat (map wk_ok ks))"
    by (auto elim: handle_batch.cases)
  from batch_inv [OF run] have inv: "length ks = length parts"
    "\<And>i. i < length parts \<Longrightarrow> worker_inv h (parts ! i) (ks ! i)" by auto
  have "prefix (wk_ok (ks ! i)) (parts ! i) \<and>
       (\<forall>r \<in> set (wk_ok (ks ! i)). handled h r) \<and>
       (case wk_bad (ks ! i) of
          None \<Rightarrow> True
        | Some (r, e) \<Rightarrow> \<exists>rest. parts ! i = wk_ok (ks ! i) @ r # rest)" if "i < length parts" for i
    using inv(2) [OF that] unfolding worker_inv_def prefix_def
    by (auto split: option.split)
  with inv(1) ok show ?thesis by blast
qed

text \<open>
  C9: In whatever order the goroutines of a batch run, what is committed of a partition is
  a leading run of its records, every one of them handled without an error; when a record
  failed, the run ends right before it and nothing behind it is committed with the batch.
\<close>

theorem batch_commits_only_leading_runs:
  assumes "handle_batch alive h commit parts w ok ks w'"
  shows "length ks = length parts \<and> mset ok = mset (concat (map wk_ok ks)) \<and>
    (\<forall>i < length parts. prefix (wk_ok (ks ! i)) (parts ! i) \<and>
       (\<forall>r \<in> set (wk_ok (ks ! i)). handled h r) \<and>
       (case wk_bad (ks ! i) of
          None \<Rightarrow> True
        | Some (r, e) \<Rightarrow> \<exists>rest. parts ! i = wk_ok (ks ! i) @ r # rest))"
  using assms by (rule batch_leading_runs)

section \<open>A batch ends\<close>

definition work_left :: "'k worker list \<Rightarrow> nat" where
  "work_left ks = sum_list (map (\<lambda>k. length (wk_todo k) + (if wk_returned k then 0 else 1)) ks)"

lemma worker_step_less:
  "\<not> wk_returned k \<Longrightarrow> worker_step alive h k w = (k', w') \<Longrightarrow>
     length (wk_todo k') + (if wk_returned k' then 0 else 1) <
     length (wk_todo k) + (if wk_returned k then 0 else 1)"
  by (auto simp: worker_step_def split: list.splits prod.splits option.splits)

lemma sum_list_update_less:
  "i < length xs \<Longrightarrow> f y < f (xs ! i) \<Longrightarrow> sum_list (map f (xs[i := y])) < (sum_list (map f xs) :: nat)"
proof (induction xs arbitrary: i)
  case (Cons x xs)
  then show ?case by (cases i) auto
qed simp

lemma batch_step_less: "batch_step alive h (ks, w) (ks', w') \<Longrightarrow> work_left ks' < work_left ks"
proof -
  assume "batch_step alive h (ks, w) (ks', w')"
  then obtain i k' where i: "i < length ks" "\<not> wk_returned (ks ! i)"
    "worker_step alive h (ks ! i) w = (k', w')" "ks' = ks[i := k']"
    by (auto elim: batch_step_elim)
  show ?thesis unfolding work_left_def i(4)
    by (rule sum_list_update_less [OF i(1)], rule worker_step_less [OF i(2,3)])
qed

lemma batch_not_stuck:
  assumes "\<not> batch_finished ks"
  shows "\<exists>s. batch_step alive h (ks, w) s"
proof -
  from assms obtain i where i: "i < length ks" "\<not> wk_returned (ks ! i)"
    by (auto simp: batch_finished_def list_all_length)
  obtain k' w1 where "worker_step alive h (ks ! i) w = (k', w1)" by force
  from goroutine [OF i this] show ?thesis by blast
qed

interpretation batch: ending_machine "batch_step alive h" "\<lambda>s. work_left (fst s)" "\<lambda>s. batch_finished (fst s)"
  for alive h
proof
  fix s s'
  assume "batch_step alive h s s'"
  then show "work_left (fst s') < work_left (fst s)"
    using batch_step_less by (cases s; cases s') simp
next
  fix s :: "'b worker list \<times> 'a"
  assume "\<not> batch_finished (fst s)"
  then show "\<exists>s'. batch_step alive h s s'" using batch_not_stuck [of "fst s" alive h "snd s"] by simp
qed

text \<open>
  A batch whose handlers return ends, however its goroutines interleave: every step
  leaves less to do, and a batch that has not finished has a next step.
\<close>

theorem every_batch_ends:
  "wfp (\<lambda>s' s. batch_step alive h s s') \<and>
   (\<exists>ks' w'. (batch_step alive h)\<^sup>*\<^sup>* (ks, w) (ks', w') \<and> batch_finished ks')"
  using batch.wf_steps batch.reaches_final [of alive h "(ks, w)"] by (simp add: split_paired_Ex)

section \<open>One goroutine is the sequential loop\<close>

lemma worker_runs_partition:
  "worker_inv h rs0 k \<Longrightarrow> \<not> wk_returned k \<Longrightarrow>
   \<exists>k'. (batch_step alive h)\<^sup>*\<^sup>* ([k], w) ([k'], snd (snd (handle_partition alive h (wk_todo k) w))) \<and>
     wk_returned k' \<and> wk_ok k' = wk_ok k @ fst (handle_partition alive h (wk_todo k) w) \<and>
     wk_bad k' = fst (snd (handle_partition alive h (wk_todo k) w))"
proof (induction "wk_todo k" arbitrary: k w)
  case Nil
  then show ?case by (simp add: worker_inv_def)
next
  case (Cons r rs)
  have bad: "wk_bad k = None" using Cons.prems by (cases "wk_bad k") (auto simp: worker_inv_def)
  obtain k1 w1 where s: "worker_step alive h k w = (k1, w1)" by (cases "worker_step alive h k w") auto
  have step: "batch_step alive h ([k], w) ([k1], w1)"
    using goroutine [of 0 "[k]" alive h w k1 w1] Cons.prems(2) s by simp
  have inv: "worker_inv h rs0 k1" using worker_step_inv [OF Cons.prems s] .
  obtain res w2 where call: "kafka_call h r w = (res, w2)" by (cases "kafka_call h r w") auto
  have todo: "wk_todo k = r # rs" using Cons.hyps(2) by simp
  show ?case
  proof (cases "wk_returned k1")
    case True
    have "([k1], w1) = ([k1], snd (snd (handle_partition alive h (wk_todo k) w))) \<and>
      wk_ok k1 = wk_ok k @ fst (handle_partition alive h (wk_todo k) w) \<and>
      wk_bad k1 = fst (snd (handle_partition alive h (wk_todo k) w))"
      using s call True todo bad by (cases res) (auto simp: worker_step_def)
    with step True show ?thesis by (metis r_into_rtranclp)
  next
    case False
    with s call todo have k1: "res = None" "alive w2" "w1 = w2" "wk_todo k1 = rs" "wk_ok k1 = wk_ok k @ [r]"
      by (cases res; auto simp: worker_step_def)+
    from Cons.hyps(1) [OF k1(4) [symmetric] inv False, of w1] obtain k' where k':
      "(batch_step alive h)\<^sup>*\<^sup>* ([k1], w1) ([k'], snd (snd (handle_partition alive h rs w1)))"
      "wk_returned k'" "wk_ok k' = wk_ok k1 @ fst (handle_partition alive h rs w1)"
      "wk_bad k' = fst (snd (handle_partition alive h rs w1))"
      using k1(4) by auto
    have hp: "handle_partition alive h (wk_todo k) w =
        (case handle_partition alive h rs w1 of (ok, bad, w'') \<Rightarrow> (r # ok, bad, w''))"
      using todo call k1 by simp
    have "(batch_step alive h)\<^sup>*\<^sup>* ([k], w) ([k'], snd (snd (handle_partition alive h rs w1)))"
      using step k'(1) by (rule converse_rtranclp_into_rtranclp)
    with k' k1(5) hp show ?thesis
      by (intro exI [of _ k']) (auto split: prod.split)
  qed
qed

text \<open>
  The machine of a goroutine implements handlePartition: run on its own it commits
  the same records, stops at the same failure and leaves the same world.
\<close>

theorem goroutine_implements_handle_partition:
  assumes "rs \<noteq> []"
  shows "\<exists>k. (batch_step alive h)\<^sup>*\<^sup>* ([new_worker rs], w) ([k], snd (snd (handle_partition alive h rs w))) \<and>
    batch_finished [k] \<and> wk_ok k = fst (handle_partition alive h rs w) \<and>
    wk_bad k = fst (snd (handle_partition alive h rs w))"
  using worker_runs_partition [OF worker_inv_new, of rs] assms
  by (simp add: new_worker_def batch_finished_def)


section \<open>The whole loop\<close>

inductive_cases handle_batch_elim: "handle_batch alive h commit parts w ok ks w'"

lemma batch_commits_handled:
  assumes "handle_batch alive h commit parts w ok ks w'" "r \<in> set ok"
  shows "handled h r \<and> r \<in> set (concat parts)"
proof -
  from batch_leading_runs [OF assms(1)] have len: "length ks = length parts"
    and ok: "mset ok = mset (concat (map wk_ok ks))"
    and each: "\<And>i. i < length parts \<Longrightarrow> prefix (wk_ok (ks ! i)) (parts ! i) \<and> (\<forall>r \<in> set (wk_ok (ks ! i)). handled h r)"
    by auto
  from assms(2) ok have "r \<in> set (concat (map wk_ok ks))" using mset_eq_setD by blast
  then obtain i where i: "i < length ks" "r \<in> set (wk_ok (ks ! i))"
    unfolding set_concat set_map by (metis UN_E imageE in_set_conv_nth)
  from each [of i] i len have p: "prefix (wk_ok (ks ! i)) (parts ! i)" and "handled h r" by auto
  moreover have "r \<in> set (parts ! i)" using set_mono_prefix [OF p] i(2) by blast
  moreover have "parts ! i \<in> set parts" using i(1) len by simp
  moreover have "handled h r" by fact
  ultimately show ?thesis by auto
qed

lemma refusal_names_a_broker_error:
  "refusal name es = Some e \<Longrightarrow>
   \<exists>p e'. (p, e') \<in> set es \<and> broker_error e' \<and> \<not> retriable e' \<and> \<not> canceled e' \<and>
     e = refusal_of name p e'"
proof (induction es rule: refusal.induct)
  case (2 name p e0 es)
  show ?case
  proof (cases "canceled e0 \<or> retriable e0 \<or> \<not> broker_error e0")
    case True
    then have "refusal name es = Some e" using 2 by (auto split: if_splits)
    with 2 True show ?thesis by (auto split: if_splits)
  next
    case False
    with 2(3) show ?thesis by auto
  qed
qed simp

lemma consume_inv:
  assumes "consume name alive h commit ts w commits end w'"
  shows "(\<forall>ok \<in> set commits. \<forall>r \<in> set ok. handled h r) \<and>
    (\<forall>e. end = Died e \<longrightarrow> (\<exists>t \<in> set ts. refusal name (ft_errors (tn_fetches t)) = Some e)) \<and>
    length commits \<le> length ts"
  using assms
proof (induction rule: consume.induct)
  case (handles t w ok ks w1 ts commits e w2)
  then show ?case using batch_commits_handled by fastforce
qed auto

text \<open>
  Whatever the polls give, every record the consumer commits was handled without an
  error, and the loop dies only of an error of a fetch that is the broker refusing: one
  that is neither a cancellation nor retriable, named with the Component and the partition.
\<close>

theorem consume_commits_only_handled_records:
  assumes "consume name alive h commit ts w commits end w'"
  shows "(\<forall>ok \<in> set commits. \<forall>r \<in> set ok. handled h r) \<and>
    (\<forall>e. end = Died e \<longrightarrow> (\<exists>t \<in> set ts. \<exists>p e'. (p, e') \<in> set (ft_errors (tn_fetches t)) \<and>
       broker_error e' \<and> \<not> retriable e' \<and> \<not> canceled e' \<and>
       e = refusal_of name p e'))"
proof -
  note inv = consume_inv [OF assms]
  have "\<exists>t \<in> set ts. \<exists>p e'. (p, e') \<in> set (ft_errors (tn_fetches t)) \<and>
       broker_error e' \<and> \<not> retriable e' \<and> \<not> canceled e' \<and> e = refusal_of name p e'"
    if died: "end = Died e" for e
  proof -
    from inv died obtain t where t: "t \<in> set ts" "refusal name (ft_errors (tn_fetches t)) = Some e"
      by blast
    from refusal_names_a_broker_error [OF t(2)] t(1) show ?thesis by blast
  qed
  with inv show ?thesis by blast
qed

section \<open>Concrete runs\<close>

text \<open>Records of one partition, and a Handler that refuses the record at offset 1.\<close>

definition sample_record :: "int \<Rightarrow> krecord" where
  "sample_record i =
     \<lparr>kr_key = '''', kr_value = ''v'', kr_topic = ''orders'', kr_partition = 0, kr_offset = i,
      kr_headers = [], kr_time = 0\<rparr>"

definition refuses_offset_1 :: "(unit, unit) khandler" where
  "refuses_offset_1 m w = (if km_offset m = 1 then Failed (ErrText ''no'') else Done, w)"

definition sample_turn :: "int list \<Rightarrow> turn" where
  "sample_turn offsets =
     \<lparr>tn_closing = False,
      tn_fetches = \<lparr>ft_closed = False, ft_errors = [], ft_partitions = [map sample_record offsets]\<rparr>,
      tn_cancelled = False\<rparr>"

lemma sample_call:
  "kafka_call refuses_offset_1 (sample_record i) w = (if i = 1 then Some (ErrText ''no'') else None, w)"
  by (simp add: kafka_call_def refuses_offset_1_def message_of_def sample_record_def)

lemma sample_batch:
  assumes "handle_partition (\<lambda>_. True) refuses_offset_1 (map sample_record is) () = (ok, bad, ())"
    and "is \<noteq> []" "ok \<noteq> []"
  shows "\<exists>ks. handle_batch (\<lambda>_. True) refuses_offset_1 (\<lambda>_ w. (None, w)) [map sample_record is] () ok ks () \<and>
     map wk_bad ks = [bad]"
proof -
  have ne: "map sample_record is \<noteq> []" using assms(2) by simp
  from worker_runs_partition [OF worker_inv_new, of "map sample_record is" "\<lambda>_. True" refuses_offset_1 "()"]
  obtain k where k: "(batch_step (\<lambda>_. True) refuses_offset_1)\<^sup>*\<^sup>* ([new_worker (map sample_record is)], ()) ([k], ())"
    "wk_returned k" "wk_ok k = ok" "wk_bad k = bad"
    using ne assms(1) by (auto simp: new_worker_def)
  have "handle_batch (\<lambda>_. True) refuses_offset_1 (\<lambda>_ w. (None :: unit goerr option, w))
      [map sample_record is] () ok [k] ()"
    by (rule batch_commits [where w' = "()" and e = None])
      (use k assms(3) in \<open>auto simp: batch_finished_def\<close>)
  with k(4) show ?thesis by auto
qed

lemma sample_partition_fails:
  "handle_partition (\<lambda>_. True) refuses_offset_1 (map sample_record [0, 1, 2]) () =
     ([sample_record 0], Some (sample_record 1, ErrText ''no''), ())"
  by (simp add: sample_call)

lemma sample_partition_succeeds:
  "handle_partition (\<lambda>_. True) refuses_offset_1 (map sample_record [3, 4]) () =
     ([sample_record 3, sample_record 4], None, ())"
  by (simp add: sample_call)

lemma sample_turn_handles:
  assumes "handle_batch (\<lambda>_. True) refuses_offset_1 commit [map sample_record is] () ok ks ()"
    and "consume name (\<lambda>_. True) refuses_offset_1 commit ts () commits e ()"
  shows "consume name (\<lambda>_. True) refuses_offset_1 commit (sample_turn is # ts) () (ok # commits) e ()"
  using consume.handles [OF _ _ _ _ _ assms(2), of "sample_turn is" "()" ok ks] assms(1)
  by (simp add: sample_turn_def)

text \<open>
  A record that failed is lost as soon as a later batch of its partition succeeds. The
  records 0, 1 and 2 arrive and the Handler refuses 1; only 0 is committed. The client polls
  on from 3, the records 3 and 4 are handled and committed, and with them the offset of the
  partition passes the record 1, which no poll gives again.
\<close>

theorem later_batch_commits_over_a_failed_record:
  "consume name (\<lambda>_. True) refuses_offset_1 (\<lambda>_ w. (None, w))
     [sample_turn [0, 1, 2], sample_turn [3, 4]] ()
     [[sample_record 0], [sample_record 3, sample_record 4]] StillRunning () \<and>
   fst (kafka_call refuses_offset_1 (sample_record 1) ()) = Some (ErrText ''no'')"
proof -
  from sample_batch [OF sample_partition_fails] obtain ks where
    "handle_batch (\<lambda>_. True) refuses_offset_1 (\<lambda>_ w. (None, w)) [map sample_record [0, 1, 2]] ()
       [sample_record 0] ks ()" by auto
  moreover from sample_batch [OF sample_partition_succeeds] obtain ks' where
    "handle_batch (\<lambda>_. True) refuses_offset_1 (\<lambda>_ w. (None, w)) [map sample_record [3, 4]] ()
       [sample_record 3, sample_record 4] ks' ()" by auto
  ultimately show ?thesis
    by (intro conjI sample_turn_handles no_more_turns) (simp_all add: sample_call)
qed

theorem batch_commits_only_leading_runs_witness:
  "\<exists>ks. handle_batch (\<lambda>_. True) refuses_offset_1 (\<lambda>_ w. (None, w))
     [map sample_record [0, 1, 2]] () [sample_record 0] ks () \<and>
     prefix (wk_ok (ks ! 0)) (map sample_record [0, 1, 2])"
proof -
  from sample_batch [OF sample_partition_fails] obtain ks where
    b: "handle_batch (\<lambda>_. True) refuses_offset_1 (\<lambda>_ w. (None, w)) [map sample_record [0, 1, 2]] ()
       [sample_record 0] ks ()" by auto
  from batch_commits_only_leading_runs [OF b] b show ?thesis by auto
qed

theorem goroutine_implements_handle_partition_witness:
  "\<exists>k. (batch_step (\<lambda>_. True) refuses_offset_1)\<^sup>*\<^sup>* ([new_worker (map sample_record [0, 1, 2])], ()) ([k], ()) \<and>
     wk_ok k = [sample_record 0]"
  using goroutine_implements_handle_partition [of "map sample_record [0, 1, 2]" "\<lambda>_. True" refuses_offset_1 "()"]
    sample_partition_fails by auto

theorem consume_commits_only_handled_records_witness:
  "\<exists>commits. consume ''kafka:orders'' (\<lambda>_. True) refuses_offset_1 (\<lambda>_ w. (None, w)) [sample_turn [3, 4]] ()
     commits StillRunning () \<and> (\<forall>ok \<in> set commits. \<forall>r \<in> set ok. handled refuses_offset_1 r)"
proof -
  from sample_batch [OF sample_partition_succeeds] obtain ks where
    "handle_batch (\<lambda>_. True) refuses_offset_1 (\<lambda>_ w. (None, w)) [map sample_record [3, 4]] ()
       [sample_record 3, sample_record 4] ks ()" by auto
  from sample_turn_handles [OF this no_more_turns]
  have "consume ''kafka:orders'' (\<lambda>_. True) refuses_offset_1 (\<lambda>_ w. (None, w)) [sample_turn [3, 4]] ()
     [[sample_record 3, sample_record 4]] StillRunning ()" .
  from this consume_commits_only_handled_records [OF this] show ?thesis by blast
qed

end
