(* ===== verification/Rabbit.thy ===== *)
theory Rabbit
  imports Lifecycle Kafka
begin

text \<open>
  The RabbitMQ consumer Starter (rabbit/rabbit.go): its configuration, the dial, and the
  consume loop as a step relation in which the loop, the broker, Drain and Stop take turns.

  The client is a parameter: what each of its calls answers. A connection is a number, and
  its channel and its consumer live and die with it. \<open>rs_open\<close> holds the connections that
  are open, \<open>rs_streams\<close> those whose delivery stream is; both are the broker's and the
  client's side of the state, the rest is the Component.
\<close>

section \<open>Configuration\<close>

record rabbit_config =
  rc_url :: string
  rc_queue :: string
  rc_prefetch :: int
  rc_discard :: bool

definition scheme_of :: "string \<Rightarrow> string" where
  "scheme_of url = (case str_index url ''://'' of Some i \<Rightarrow> take (i + 3) url | None \<Rightarrow> url)"

definition rabbit_new :: "rabbit_config \<Rightarrow> bool \<Rightarrow> 'k goerr + rabbit_config" where
  "rabbit_new cfg has_handler =
     (if rc_url cfg = [] then Inl (ErrText ''rabbit.url: required'')
      else if \<not> has_prefix (rc_url cfg) ''amqp://'' \<and> \<not> has_prefix (rc_url cfg) ''amqps://''
      then Inl (ErrText (''rabbit.url: must begin amqp:// or amqps://, got '' @ quote (scheme_of (rc_url cfg))))
      else if rc_queue cfg = [] then Inl (ErrText ''rabbit.queue: required'')
      else if rc_prefetch cfg < 0
      then Inl (ErrText (''rabbit.prefetch: must not be negative, got '' @ format_int (rc_prefetch cfg)))
      else if \<not> has_handler then Inl (ErrText ''rabbit: New needs a Handler'')
      else Inr (cfg\<lparr>rc_prefetch := (if rc_prefetch cfg = 0 then 1 else rc_prefetch cfg)\<rparr>))"

definition rabbit_name :: "rabbit_config \<Rightarrow> string" where
  "rabbit_name cfg = ''rabbit:'' @ rc_queue cfg"

definition rabbit_tier :: int where "rabbit_tier = tier_transport"

section \<open>One delivery\<close>

record delivery =
  dl_tag :: nat
  dl_body :: string
  dl_exchange :: string
  dl_routing_key :: string
  dl_headers :: "(string \<times> string) list"
  dl_redelivered :: bool

record rmessage =
  rm_body :: string
  rm_exchange :: string
  rm_routing_key :: string
  rm_headers :: "(string \<times> string) list"
  rm_redelivered :: bool

definition rmessage_of :: "delivery \<Rightarrow> rmessage" where
  "rmessage_of d =
     \<lparr>rm_body = dl_body d, rm_exchange = dl_exchange d, rm_routing_key = dl_routing_key d,
      rm_headers = dl_headers d, rm_redelivered = dl_redelivered d\<rparr>"

type_synonym ('w, 'k) rhandler = "rmessage \<Rightarrow> 'w \<Rightarrow> 'k answer \<times> 'w"

definition rabbit_call :: "('w, 'k) rhandler \<Rightarrow> delivery \<Rightarrow> 'w \<Rightarrow> 'k goerr option \<times> 'w" where
  "rabbit_call h d w =
     (case h (rmessage_of d) w of
        (Done, w') \<Rightarrow> (None, w')
      | (Failed e, w') \<Rightarrow> (Some e, w')
      | (Panicked p, w') \<Rightarrow> (Some (ErrText (''handler panicked: '' @ p)), w'))"

text \<open>What the broker is told of a delivery; the Nack says whether to put it back.\<close>

datatype settlement = Ack | Nack bool

definition rabbit_handle :: "rabbit_config \<Rightarrow> ('w, 'k) rhandler \<Rightarrow> delivery \<Rightarrow> 'w \<Rightarrow>
    (nat \<times> settlement) \<times> 'w" where
  "rabbit_handle cfg h d w =
     (case rabbit_call h d w of
        (Some e, w') \<Rightarrow> ((dl_tag d, Nack (\<not> rc_discard cfg)), w')
      | (None, w') \<Rightarrow> ((dl_tag d, Ack), w'))"

section \<open>The Component\<close>

text \<open>
  Where the consume loop is: not started, reading the stream of a connection, waiting for the
  redial delay of an attempt, inside the dial of an attempt, or returned.
\<close>

datatype phase = Idle | Reading nat | Waiting nat | Dialing nat | Returned

text \<open>
  \<open>rs_started\<close> says that Start made the handlers' context (c.cancel is not nil), \<open>rs_stopped\<close>
  holds what Stop returned, once it has. \<open>rs_settled\<close> is what the broker was told, in order.
\<close>

record ('w, 'k) rabbit_state =
  rs_cfg :: rabbit_config
  rs_started :: bool
  rs_cancelled :: bool
  rs_closing :: bool
  rs_conn :: "nat option"
  rs_phase :: phase
  rs_fatal :: "'k goerr option"
  rs_errc :: "'k goerr list"
  rs_stopped :: "bool option"
  rs_open :: "nat list"
  rs_streams :: "nat list"
  rs_next :: nat
  rs_settled :: "(nat \<times> settlement) list"
  rs_seen :: "delivery list"
  rs_world :: 'w

definition rabbit_state_new :: "rabbit_config \<Rightarrow> 'w \<Rightarrow> ('w, 'k) rabbit_state" where
  "rabbit_state_new cfg w =
     \<lparr>rs_cfg = cfg, rs_started = False, rs_cancelled = False, rs_closing = False, rs_conn = None,
      rs_phase = Idle, rs_fatal = None, rs_errc = [], rs_stopped = None, rs_open = [],
      rs_streams = [], rs_next = 0, rs_settled = [], rs_seen = [], rs_world = w\<rparr>"

definition close_conn :: "nat \<Rightarrow> ('w, 'k) rabbit_state \<Rightarrow> ('w, 'k) rabbit_state" where
  "close_conn n s = s\<lparr>rs_open := removeAll n (rs_open s), rs_streams := removeAll n (rs_streams s)\<rparr>"

definition close_broker :: "('w, 'k) rabbit_state \<Rightarrow> ('w, 'k) rabbit_state" where
  "close_broker s =
     (case rs_conn s of
        None \<Rightarrow> s
      | Some n \<Rightarrow> close_conn n (s\<lparr>rs_conn := None\<rparr>))"

text \<open>What the client answers to the five calls of a dial.\<close>

record 'k dial_replies =
  dr_dial :: "'k goerr option"
  dr_channel :: "'k goerr option"
  dr_declare :: "'k goerr option"
  dr_qos :: "'k goerr option"
  dr_consume :: "'k goerr option"

definition consumer_tag :: "rabbit_config \<Rightarrow> string" where
  "consumer_tag cfg = ''goboot-'' @ rc_queue cfg"

definition rabbit_dial :: "'k dial_replies \<Rightarrow> ('w, 'k) rabbit_state \<Rightarrow>
    ('k goerr + nat) \<times> ('w, 'k) rabbit_state" where
  "rabbit_dial a s =
     (case dr_dial a of
        Some e \<Rightarrow> (Inl (ErrWrap (''dial '' @ scheme_of (rc_url (rs_cfg s)) @ '': '') e), s)
      | None \<Rightarrow>
          (let n = rs_next s; s1 = s\<lparr>rs_next := Suc n, rs_open := n # rs_open s\<rparr> in
           case dr_channel a of
             Some e \<Rightarrow> (Inl (ErrWrap ''channel: '' e), close_conn n s1)
           | None \<Rightarrow>
           (case dr_declare a of
              Some e \<Rightarrow> (Inl (ErrWrap (''rabbit.queue: '' @ quote (rc_queue (rs_cfg s)) @
                           '' is not on the broker: '') e), close_conn n s1)
            | None \<Rightarrow>
           (case dr_qos a of
              Some e \<Rightarrow> (Inl (ErrWrap ''rabbit.prefetch: '' e), close_conn n s1)
            | None \<Rightarrow>
           (case dr_consume a of
              Some e \<Rightarrow> (Inl (ErrWrap (''consume '' @ quote (rc_queue (rs_cfg s)) @ '': '') e), close_conn n s1)
            | None \<Rightarrow> (Inr n, s1\<lparr>rs_streams := n # rs_streams s1, rs_conn := Some n\<rparr>))))))"

text \<open>Start dials in the caller's goroutine and then lets the loop go.\<close>

definition rabbit_start :: "'k dial_replies \<Rightarrow> ('w, 'k) rabbit_state \<Rightarrow>
    'k goerr option \<times> ('w, 'k) rabbit_state" where
  "rabbit_start a s =
     (case rabbit_dial a s of
        (Inl e, s1) \<Rightarrow> (Some e, s1)
      | (Inr n, s1) \<Rightarrow> (None, s1\<lparr>rs_started := True, rs_cancelled := False, rs_phase := Reading n\<rparr>))"

text \<open>AccessRefused, NotFound and NotAllowed; \<open>code\<close> reads the code of an amqp.Error.\<close>

definition permanent :: "('k \<Rightarrow> int option) \<Rightarrow> 'k goerr \<Rightarrow> bool" where
  "permanent code e =
     (case errors_as code e of None \<Rightarrow> False | Some c \<Rightarrow> c = 403 \<or> c = 404 \<or> c = 530)"

definition set_fatal :: "'k goerr \<Rightarrow> ('w, 'k) rabbit_state \<Rightarrow> ('w, 'k) rabbit_state" where
  "set_fatal e s = s\<lparr>rs_fatal := Some e\<rparr>"

definition rabbit_check :: "('w, 'k) rabbit_state \<Rightarrow> 'k goerr option" where
  "rabbit_check s = rs_fatal s"

text \<open>Drain in its two parts: the flag, then the cancelled consumer (which may fail).\<close>

definition drain_flag :: "('w, 'k) rabbit_state \<Rightarrow> ('w, 'k) rabbit_state" where
  "drain_flag s = s\<lparr>rs_closing := True\<rparr>"

definition drain_cancel :: "bool \<Rightarrow> ('w, 'k) rabbit_state \<Rightarrow> ('w, 'k) rabbit_state" where
  "drain_cancel ok s =
     (case rs_conn s of
        None \<Rightarrow> s
      | Some n \<Rightarrow> if ok then s\<lparr>rs_streams := removeAll n (rs_streams s)\<rparr> else s)"

definition rabbit_drain :: "bool \<Rightarrow> ('w, 'k) rabbit_state \<Rightarrow> ('w, 'k) rabbit_state" where
  "rabbit_drain ok s = drain_cancel ok (drain_flag s)"

text \<open>The end of Stop, once the loop is done or its context has expired.\<close>

definition stop_end :: "bool \<Rightarrow> ('w, 'k) rabbit_state \<Rightarrow> ('w, 'k) rabbit_state" where
  "stop_end clean s = (close_broker (s\<lparr>rs_cancelled := True\<rparr>))\<lparr>rs_stopped := Some clean\<rparr>"

text \<open>
  Stop as its caller sees it. \<open>clean\<close> says which case its select took: the loop was done, or
  the context of Stop expired first with \<open>ctx_err\<close>.
\<close>

definition rabbit_stop :: "bool \<Rightarrow> bool \<Rightarrow> 'k goerr \<Rightarrow> ('w, 'k) rabbit_state \<Rightarrow>
    'k goerr option \<times> ('w, 'k) rabbit_state" where
  "rabbit_stop cancel_ok clean ctx_err s =
     (if \<not> rs_started s then (None, s)
      else (if clean then None else Some (ErrWrap ''handler still running: '' ctx_err),
            stop_end clean (rabbit_drain cancel_ok s)))"

section \<open>The loop, the broker and the App\<close>

text \<open>
  Every interleaving of the loop with the broker, Drain and Stop. Go's select in redial takes
  either case that is ready: the cancelled context, or the delay, which always comes. A dial
  takes time, so it is two steps, and Drain or Stop may run between them.
\<close>

inductive rabbit_step :: "('k \<Rightarrow> int option) \<Rightarrow> ('w, 'k) rhandler \<Rightarrow>
    ('w, 'k) rabbit_state \<Rightarrow> ('w, 'k) rabbit_state \<Rightarrow> bool"
  for code :: "'k \<Rightarrow> int option" and h :: "('w, 'k) rhandler" where
  delivers:
    "rs_phase s = Reading n \<Longrightarrow> rabbit_handle (rs_cfg s) h d (rs_world s) = (x, w') \<Longrightarrow>
     rabbit_step code h s (s\<lparr>rs_settled := rs_settled s @ [x], rs_seen := rs_seen s @ [d], rs_world := w'\<rparr>)"
| stream_ends_closing:
    "rs_phase s = Reading n \<Longrightarrow> n \<notin> set (rs_streams s) \<Longrightarrow> rs_closing s \<Longrightarrow>
     rabbit_step code h s (s\<lparr>rs_phase := Returned\<rparr>)"
| stream_ends_redial:
    "rs_phase s = Reading n \<Longrightarrow> n \<notin> set (rs_streams s) \<Longrightarrow> \<not> rs_closing s \<Longrightarrow>
     rabbit_step code h s ((close_broker s)\<lparr>rs_phase := Waiting 1\<rparr>)"
| redial_cancelled:
    "rs_phase s = Waiting k \<Longrightarrow> rs_cancelled s \<Longrightarrow> rabbit_step code h s (s\<lparr>rs_phase := Returned\<rparr>)"
| redial_closing:
    "rs_phase s = Waiting k \<Longrightarrow> rs_closing s \<Longrightarrow> rabbit_step code h s (s\<lparr>rs_phase := Returned\<rparr>)"
| redial_dials:
    "rs_phase s = Waiting k \<Longrightarrow> \<not> rs_closing s \<Longrightarrow> rabbit_step code h s (s\<lparr>rs_phase := Dialing k\<rparr>)"
| dial_succeeds:
    "rs_phase s = Dialing k \<Longrightarrow> rabbit_dial a s = (Inr n, s') \<Longrightarrow>
     rabbit_step code h s (s'\<lparr>rs_phase := Reading n\<rparr>)"
| dial_refused:
    "rs_phase s = Dialing k \<Longrightarrow> rabbit_dial a s = (Inl e, s') \<Longrightarrow> permanent code e \<Longrightarrow>
     f = ErrWrap (rabbit_name (rs_cfg s) @ '': '') e \<Longrightarrow>
     rabbit_step code h s ((set_fatal f s')\<lparr>rs_errc := rs_errc s' @ [f], rs_phase := Returned\<rparr>)"
| dial_fails:
    "rs_phase s = Dialing k \<Longrightarrow> rabbit_dial a s = (Inl e, s') \<Longrightarrow> \<not> permanent code e \<Longrightarrow>
     rabbit_step code h s (s'\<lparr>rs_phase := Waiting (Suc k)\<rparr>)"
| broker_drops:
    "n \<in> set (rs_open s) \<Longrightarrow> rabbit_step code h s (close_conn n s)"
| drain_flags: "rabbit_step code h s (drain_flag s)"
| drain_cancels: "rs_closing s \<Longrightarrow> rabbit_step code h s (drain_cancel ok s)"
| stop_waited:
    "rs_started s \<Longrightarrow> rs_closing s \<Longrightarrow> rs_phase s = Returned \<Longrightarrow>
     rabbit_step code h s (stop_end True s)"
| stop_gives_up:
    "rs_started s \<Longrightarrow> rs_closing s \<Longrightarrow> rabbit_step code h s (stop_end False s)"

inductive_cases rabbit_step_elim: "rabbit_step code h s s'"

end
