(* ===== verification/Rabbit_Props.thy ===== *)
theory Rabbit_Props
  imports Rabbit State_Machine
begin

text \<open>
  What the RabbitMQ consumer promises in every interleaving of its loop with the broker,
  Drain and Stop: no connection is open but the one the Component holds, every delivery is
  settled once, the death is one permanent refusal, and a Stop that waited for the loop leaves
  nothing behind. A Stop that gives up while a dial is in progress does not.
\<close>

section \<open>Dialing\<close>

text \<open>The client's side: every open connection is the Component's, and numbers are not reused.\<close>

definition conn_inv :: "('w, 'k) rabbit_state \<Rightarrow> bool" where
  "conn_inv s \<longleftrightarrow>
     set (rs_open s) \<subseteq> set_option (rs_conn s) \<and> set (rs_streams s) \<subseteq> set (rs_open s) \<and>
     (\<forall>n \<in> set (rs_open s). n < rs_next s) \<and>
     (case rs_phase s of
        Reading n \<Rightarrow> rs_conn s = None \<or> rs_conn s = Some n
      | Returned \<Rightarrow> True
      | _ \<Rightarrow> rs_conn s = None)"

named_theorems rabbit_defs \<open>definitions of the Component's steps\<close>

lemmas [rabbit_defs] =
  close_conn_def drain_flag_def drain_cancel_def stop_end_def set_fatal_def

lemma removeAll_only [simp]: "set xs \<subseteq> {n} \<Longrightarrow> removeAll n xs = []"
  by (induction xs) auto

lemma close_broker_simps [simp]:
  "rs_conn (close_broker s) = None"
  "rs_open (close_broker s) = (case rs_conn s of None \<Rightarrow> rs_open s | Some n \<Rightarrow> removeAll n (rs_open s))"
  "rs_streams (close_broker s) = (case rs_conn s of None \<Rightarrow> rs_streams s | Some n \<Rightarrow> removeAll n (rs_streams s))"
  "rs_next (close_broker s) = rs_next s" "rs_phase (close_broker s) = rs_phase s"
  "rs_cfg (close_broker s) = rs_cfg s" "rs_fatal (close_broker s) = rs_fatal s"
  "rs_errc (close_broker s) = rs_errc s" "rs_settled (close_broker s) = rs_settled s"
  "rs_seen (close_broker s) = rs_seen s" "rs_closing (close_broker s) = rs_closing s"
  "rs_started (close_broker s) = rs_started s" "rs_world (close_broker s) = rs_world s"
  "rs_cancelled (close_broker s) = rs_cancelled s"
  by (auto simp: close_broker_def close_conn_def split: option.split)

lemma dial_fails_clean:
  assumes "conn_inv s" "rabbit_dial a s = (Inl e, s')"
  shows "s' = s \<or> s' = s\<lparr>rs_next := Suc (rs_next s)\<rparr>"
proof -
  have fresh: "removeAll (rs_next s) (rs_open s) = rs_open s"
    "removeAll (rs_next s) (rs_streams s) = rs_streams s"
    using assms(1) by (auto simp: conn_inv_def intro!: removeAll_id)
  show ?thesis using assms(2) fresh
    by (auto simp: rabbit_dial_def Let_def close_conn_def split: option.splits)
qed

lemma dial_succeeds_state:
  "rabbit_dial a s = (Inr n, s') \<Longrightarrow>
     n = rs_next s \<and> s' = s\<lparr>rs_next := Suc n, rs_open := n # rs_open s,
       rs_streams := n # rs_streams s, rs_conn := Some n\<rparr>"
  by (auto simp: rabbit_dial_def Let_def split: option.splits)

lemma conn_inv_start: "rabbit_start a (rabbit_state_new cfg w) = (None, s) \<Longrightarrow> conn_inv s"
  by (auto simp: rabbit_start_def rabbit_state_new_def conn_inv_def
        dest!: dial_succeeds_state split: prod.splits sum.splits)

lemma conn_inv_step: "rabbit_step code h s s' \<Longrightarrow> conn_inv s \<Longrightarrow> conn_inv s'"
proof (induction rule: rabbit_step.induct)
  case (dial_refused s k a e s' f)
  with dial_fails_clean [OF dial_refused(5,2)] show ?case
    by (auto simp: conn_inv_def set_fatal_def less_Suc_eq)
next
  case (dial_fails s k a e s')
  with dial_fails_clean [OF dial_fails(4,2)] show ?case
    by (auto simp: conn_inv_def less_Suc_eq)
next
  case (dial_succeeds s k a n s')
  from dial_succeeds_state [OF dial_succeeds(2)] dial_succeeds(1,3) show ?case
    by (auto simp: conn_inv_def)
qed (auto simp: conn_inv_def rabbit_defs split: option.splits phase.splits)

abbreviation rabbit_reaches :: "('k \<Rightarrow> int option) \<Rightarrow> ('w, 'k) rhandler \<Rightarrow>
    ('w, 'k) rabbit_state \<Rightarrow> ('w, 'k) rabbit_state \<Rightarrow> bool" where
  "rabbit_reaches code h \<equiv> (rabbit_step code h)\<^sup>*\<^sup>*"

interpretation connections: kept_by_steps "rabbit_step code h" "conn_inv" for code h
  by unfold_locales (rule conn_inv_step)


section \<open>The death and the settlements\<close>

text \<open>A delivery and what the broker was told of it: the answer of some call of the Handler.\<close>

definition settles :: "rabbit_config \<Rightarrow> ('w, 'k) rhandler \<Rightarrow> delivery \<Rightarrow> nat \<times> settlement \<Rightarrow> bool" where
  "settles cfg h d x \<longleftrightarrow> fst x = dl_tag d \<and>
     (\<exists>v. snd x = (if fst (rabbit_call h d v) = None then Ack else Nack (\<not> rc_discard cfg)))"

lemma settles_handle: "rabbit_handle cfg h d w = (x, w') \<Longrightarrow> settles cfg h d x"
  by (auto simp: rabbit_handle_def settles_def intro!: exI [of _ w] split: prod.splits option.splits)

text \<open>What the loop has said so far.\<close>

definition loop_inv :: "('k \<Rightarrow> int option) \<Rightarrow> ('w, 'k) rhandler \<Rightarrow> rabbit_config \<Rightarrow> ('w, 'k) rabbit_state \<Rightarrow> bool" where
  "loop_inv code h cfg s \<longleftrightarrow>
     rs_cfg s = cfg \<and> rs_started s \<and> rs_phase s \<noteq> Idle \<and>
     (case rs_fatal s of
        None \<Rightarrow> rs_errc s = []
      | Some f \<Rightarrow> rs_errc s = [f] \<and> rs_phase s = Returned \<and>
          (\<exists>e. permanent code e \<and> f = ErrWrap (rabbit_name cfg @ '': '') e)) \<and>
     list_all2 (settles cfg h) (rs_seen s) (rs_settled s)"

lemma dial_keeps:
  assumes "rabbit_dial a s = (res, s')"
  shows "rs_cfg s' = rs_cfg s \<and> rs_fatal s' = rs_fatal s \<and> rs_errc s' = rs_errc s \<and>
    rs_settled s' = rs_settled s \<and> rs_seen s' = rs_seen s \<and> rs_phase s' = rs_phase s \<and>
    rs_started s' = rs_started s"
  using assms by (auto simp: rabbit_dial_def Let_def close_conn_def split: option.splits)

lemma loop_inv_start: "rabbit_start a (rabbit_state_new cfg w) = (None, s) \<Longrightarrow> loop_inv code h cfg s"
  by (auto simp: rabbit_start_def rabbit_state_new_def loop_inv_def
        dest!: dial_keeps split: prod.splits sum.splits)

lemma loop_inv_step: "rabbit_step code h s s' \<Longrightarrow> loop_inv code h cfg s \<Longrightarrow> loop_inv code h cfg s'"
proof (induction rule: rabbit_step.induct)
  case (delivers s n d x w')
  then show ?case
    by (auto simp: loop_inv_def split: option.splits intro: list_all2_appendI settles_handle)
next
  case (dial_refused s k a e s' f)
  with dial_keeps [OF dial_refused(2)] show ?case
    by (auto simp: loop_inv_def set_fatal_def split: option.splits)
next
  case (dial_fails s k a e s')
  with dial_keeps [OF dial_fails(2)] show ?case
    by (auto simp: loop_inv_def split: option.splits)
next
  case (dial_succeeds s k a n s')
  with dial_keeps [OF dial_succeeds(2)] show ?case
    by (auto simp: loop_inv_def split: option.splits)
qed (auto simp: loop_inv_def rabbit_defs split: option.splits)

interpretation loop_says: kept_by_steps "rabbit_step code h" "loop_inv code h cfg" for code h cfg
  by unfold_locales (rule loop_inv_step)

text \<open>
  The consumer dies at most once, and only of a refusal that does not fix itself: what
  Check reports is what went down the death channel, an error with one of the three permanent
  codes under the Component's name, and the loop has returned. A dropped connection or a
  broker that is away is never a death.
\<close>

theorem consumer_dies_of_a_permanent_refusal:
  assumes "rabbit_start a (rabbit_state_new cfg w) = (None, s0)" "rabbit_reaches code h s0 s"
  shows "rs_errc s = (case rabbit_check s of None \<Rightarrow> [] | Some f \<Rightarrow> [f]) \<and>
    (\<forall>f. rabbit_check s = Some f \<longrightarrow> rs_phase s = Returned \<and>
       (\<exists>e. permanent code e \<and> f = ErrWrap (rabbit_name cfg @ '': '') e))"
  using loop_says.run_keeps [OF assms(2) loop_inv_start [OF assms(1)]]
  by (auto simp: loop_inv_def rabbit_check_def split: option.splits)


section \<open>Stopping\<close>

text \<open>Stop is a Drain and an end of the step relation, so what holds of every run holds of it.\<close>

lemma rabbit_stop_reaches:
  assumes "clean \<longrightarrow> rs_phase s = Returned"
  shows "rabbit_reaches code h s (snd (rabbit_stop ok clean e s))"
proof (cases "rs_started s")
  case True
  have flag: "rabbit_step code h s (drain_flag s)" by (rule drain_flags)
  have "rabbit_step code h (drain_flag s) (rabbit_drain ok s)"
    unfolding rabbit_drain_def by (rule drain_cancels) (simp add: drain_flag_def)
  moreover have "rabbit_step code h (rabbit_drain ok s) (stop_end clean (rabbit_drain ok s))"
    using True assms
    by (cases clean)
      (auto intro!: stop_waited stop_gives_up simp: rabbit_drain_def drain_flag_def drain_cancel_def split: option.split)
  ultimately show ?thesis using flag True
    unfolding rabbit_stop_def
    by (auto intro: rtranclp.rtrancl_into_rtrancl)
qed (simp add: rabbit_stop_def)

text \<open>After a Stop that waited for the loop.\<close>

definition quiet :: "('w, 'k) rabbit_state \<Rightarrow> ('w, 'k) rabbit_state \<Rightarrow> bool" where
  "quiet s0 s \<longleftrightarrow> rs_phase s = Returned \<and> rs_open s = [] \<and> rs_streams s = [] \<and> rs_conn s = None \<and>
     rs_seen s = rs_seen s0 \<and> rs_settled s = rs_settled s0 \<and> rs_world s = rs_world s0"

lemma quiet_step: "rabbit_step code h s s' \<Longrightarrow> quiet s0 s \<Longrightarrow> quiet s0 s'"
  by (induction rule: rabbit_step.induct) (auto simp: quiet_def rabbit_defs)

interpretation quiet_after: kept_by_steps "rabbit_step code h" "quiet s0" for code h s0
  by unfold_locales (rule quiet_step)

text \<open>
  A Stop that saw the loop return leaves nothing behind: no connection is open, and
  from then on no delivery is handled, whatever still happens.
\<close>

theorem stop_after_the_loop_is_final:
  assumes "rabbit_start a (rabbit_state_new cfg w) = (None, s0)" "rabbit_reaches code h s0 s"
    and "rs_phase s = Returned" "rabbit_reaches code h (snd (rabbit_stop ok True e s)) s'"
  shows "rs_open s' = [] \<and> rs_seen s' = rs_seen s \<and> rs_world s' = rs_world s \<and>
    fst (rabbit_stop ok True e s) = None"
proof -
  have started: "rs_started s"
    using loop_says.run_keeps [OF assms(2) loop_inv_start [OF assms(1)]] by (simp add: loop_inv_def)
  from connections.run_keeps [OF assms(2) conn_inv_start [OF assms(1)]] assms(3) started
  have "quiet s (snd (rabbit_stop ok True e s))"
    by (cases "rs_conn s")
      (auto simp: quiet_def rabbit_stop_def rabbit_drain_def rabbit_defs conn_inv_def)
  from quiet_after.run_keeps [OF assms(4) this] started show ?thesis by (simp add: quiet_def rabbit_stop_def)
qed

section \<open>Concrete runs\<close>

definition dial_ok :: "'k dial_replies" where
  "dial_ok = \<lparr>dr_dial = None, dr_channel = None, dr_declare = None, dr_qos = None, dr_consume = None\<rparr>"

definition after_start :: "rabbit_config \<Rightarrow> 'w \<Rightarrow> ('w, 'k) rabbit_state" where
  "after_start cfg w = (rabbit_state_new cfg w)\<lparr>rs_next := 1, rs_open := [0], rs_streams := [0],
     rs_conn := Some 0, rs_started := True, rs_phase := Reading 0\<rparr>"

lemma dial_ok_dials:
  "rabbit_dial dial_ok s = (Inr (rs_next s), s\<lparr>rs_next := Suc (rs_next s), rs_open := rs_next s # rs_open s,
     rs_streams := rs_next s # rs_streams s, rs_conn := Some (rs_next s)\<rparr>)"
  by (simp add: rabbit_dial_def dial_ok_def Let_def)

lemma start_ok: "rabbit_start dial_ok (rabbit_state_new cfg w) = (None, after_start cfg w)"
  by (simp add: rabbit_start_def dial_ok_dials after_start_def rabbit_state_new_def)

text \<open>The state of a loop inside its first redial, the App draining.\<close>

definition redialing :: "rabbit_config \<Rightarrow> 'w \<Rightarrow> ('w, 'k) rabbit_state" where
  "redialing cfg w = (after_start cfg w)\<lparr>rs_open := [], rs_streams := [], rs_conn := None,
     rs_phase := Dialing 1, rs_closing := True\<rparr>"

lemma reaches_redialing: "rabbit_reaches code h (after_start cfg w) (redialing cfg w)"
proof -
  let ?s1 = "(after_start cfg w)\<lparr>rs_open := [], rs_streams := []\<rparr>"
  let ?s2 = "?s1\<lparr>rs_conn := None, rs_phase := Waiting 1\<rparr>"
  let ?s3 = "?s2\<lparr>rs_phase := Dialing 1\<rparr>"
  have "rabbit_step code h (after_start cfg w) ?s1"
    using broker_drops [of 0 "after_start cfg w" code h] by (simp add: after_start_def close_conn_def)
  moreover have "rabbit_step code h ?s1 ?s2"
    using stream_ends_redial [of ?s1 0 code h]
    by (simp add: after_start_def rabbit_state_new_def close_broker_def close_conn_def)
  moreover have "rabbit_step code h ?s2 ?s3"
    using redial_dials [of ?s2 1 code h] by (simp add: after_start_def rabbit_state_new_def)
  moreover have "rabbit_step code h ?s3 (redialing cfg w)"
    using drain_flags [of code h ?s3] by (simp add: redialing_def drain_flag_def after_start_def rabbit_state_new_def)
  ultimately show ?thesis by (meson rtranclp.rtrancl_into_rtrancl rtranclp.rtrancl_refl)
qed

text \<open>
  The redial does not look at the closing flag again once it has dialed. When the dial
  outlasts Stop, Stop gives up and closes what there is to close, nothing; the dial then
  succeeds, and the stopped Component holds an open connection and goes on handling deliveries.
\<close>

theorem stop_during_a_dial_leaves_a_live_consumer:
  fixes code :: "'k \<Rightarrow> int option" and h :: "('w, 'k) rhandler" and w :: 'w
  shows "\<exists>s. rabbit_reaches code h (after_start cfg w) s \<and> rs_stopped s = Some False \<and> rs_cancelled s \<and>
     rs_open s = [1] \<and> rs_phase s = Reading 1 \<and> rs_seen s = [d]"
proof -
  let ?s1 = "stop_end False (redialing cfg w) :: ('w, 'k) rabbit_state"
  let ?s2 = "?s1\<lparr>rs_next := 2, rs_open := [1], rs_streams := [1], rs_conn := Some 1, rs_phase := Reading 1\<rparr>"
  have conn: "rs_phase ?s1 = Dialing 1" "rs_next ?s1 = 1" "rs_open ?s1 = []" "rs_streams ?s1 = []"
    by (simp_all add: stop_end_def redialing_def after_start_def rabbit_state_new_def)
  have "rabbit_step code h (redialing cfg w) ?s1"
    by (rule stop_gives_up) (simp_all add: redialing_def after_start_def)
  moreover have "rabbit_step code h ?s1 ?s2"
    using dial_succeeds [OF conn(1) dial_ok_dials, of code h] unfolding conn Suc_1 .
  moreover obtain x w' where x: "rabbit_handle (rs_cfg ?s2) h d (rs_world ?s2) = (x, w')"
    by (meson surj_pair)
  have "rabbit_step code h ?s2
      (?s2\<lparr>rs_settled := rs_settled ?s2 @ [x], rs_seen := rs_seen ?s2 @ [d], rs_world := w'\<rparr>)"
    by (rule delivers [OF _ x]) simp
  ultimately have "rabbit_reaches code h (after_start cfg w)
      (?s2\<lparr>rs_settled := rs_settled ?s2 @ [x], rs_seen := rs_seen ?s2 @ [d], rs_world := w'\<rparr>)"
    using reaches_redialing [of code h cfg w] by (meson rtranclp.rtrancl_into_rtrancl)
  then show ?thesis
    by (intro exI [where x = "?s2\<lparr>rs_settled := rs_settled ?s2 @ [x], rs_seen := rs_seen ?s2 @ [d],
        rs_world := w'\<rparr>"] conjI) (simp_all add: stop_end_def redialing_def after_start_def rabbit_state_new_def)
qed

definition sample_delivery :: delivery where
  "sample_delivery = \<lparr>dl_tag = 7, dl_body = ''b'', dl_exchange = '''', dl_routing_key = ''q'',
     dl_headers = [], dl_redelivered = False\<rparr>"

definition always_done :: "(unit, unit) rhandler" where
  "always_done m w = (Done, w)"

definition sample_rabbit :: rabbit_config where
  "sample_rabbit = \<lparr>rc_url = ''amqp://b'', rc_queue = ''q'', rc_prefetch = 1, rc_discard = False\<rparr>"

definition drained :: "(unit, unit) rabbit_state" where
  "drained = (after_start sample_rabbit ())\<lparr>rs_closing := True, rs_streams := [], rs_phase := Returned\<rparr>"

lemma reaches_drained: "rabbit_reaches (\<lambda>_. None) always_done (after_start sample_rabbit ()) drained"
proof -
  let ?s1 = "drain_flag (after_start sample_rabbit () :: (unit, unit) rabbit_state)"
  have "rabbit_step (\<lambda>_. None) always_done (after_start sample_rabbit ()) ?s1" by (rule drain_flags)
  moreover have "rabbit_step (\<lambda>_. None) always_done ?s1 (drain_cancel True ?s1)"
    by (rule drain_cancels) (simp add: drain_flag_def)
  moreover have "rabbit_step (\<lambda>_. None) always_done (drain_cancel True ?s1) drained"
    using stream_ends_closing [of "drain_cancel True ?s1" 0 "\<lambda>_. None" always_done]
    by (simp add: drain_cancel_def drain_flag_def drained_def after_start_def rabbit_state_new_def)
  ultimately show ?thesis by (meson rtranclp.rtrancl_into_rtrancl rtranclp.rtrancl_refl)
qed


theorem consumer_dies_of_a_permanent_refusal_witness:
  "rs_errc drained = (case rabbit_check drained of None \<Rightarrow> [] | Some f \<Rightarrow> [f])"
  using consumer_dies_of_a_permanent_refusal [OF start_ok reaches_drained] by blast


theorem stop_after_the_loop_is_final_witness:
  "rabbit_reaches (\<lambda>_. None) always_done (after_start sample_rabbit ()) drained \<and>
   rs_open (drain_flag (snd (rabbit_stop True True (ErrText ''late'') drained))) = []"
proof -
  have "rs_phase drained = Returned" by (simp add: drained_def)
  moreover have "rabbit_reaches (\<lambda>_. None) always_done (snd (rabbit_stop True True (ErrText ''late'') drained))
      (drain_flag (snd (rabbit_stop True True (ErrText ''late'') drained)))"
    using drain_flags by (rule r_into_rtranclp)
  ultimately show ?thesis
    using stop_after_the_loop_is_final [OF start_ok reaches_drained] reaches_drained by blast
qed

end
