(* ===== verification/Db.thy ===== *)
theory Db
  imports Lifecycle
begin

text \<open>
  The database Starter (db/db.go): its defaults, the pool's limits, the migration provider,
  the transaction helper and the Component.

  The driver, goose and the database are parameters: what each of their calls answers. The
  limits of the pool are those of database/sql, which keeps the idle limit within the open one.
\<close>

section \<open>Configuration and the pool\<close>

record db_config =
  dc_dsn :: string
  dc_driver :: string
  dc_max_open :: int
  dc_max_idle :: int
  dc_idle_time :: duration
  dc_life_time :: duration
  dc_migrate :: bool

text \<open>The limits a sql.DB holds; a negative idle count stands for no idle connections.\<close>

record pool =
  pl_max_open :: int
  pl_max_idle :: int
  pl_idle_time :: duration
  pl_life_time :: duration

definition sql_pool :: pool where
  "sql_pool = \<lparr>pl_max_open = 0, pl_max_idle = 0, pl_idle_time = 0, pl_life_time = 0\<rparr>"

definition idle_limit :: "pool \<Rightarrow> int" where
  "idle_limit p = (if pl_max_idle p = 0 then 2 else if pl_max_idle p < 0 then 0 else pl_max_idle p)"

definition set_max_idle :: "int \<Rightarrow> pool \<Rightarrow> pool" where
  "set_max_idle n p =
     (let p1 = p\<lparr>pl_max_idle := (if 0 < n then n else -1)\<rparr>
      in if 0 < pl_max_open p1 \<and> pl_max_open p1 < idle_limit p1
         then p1\<lparr>pl_max_idle := pl_max_open p1\<rparr> else p1)"

definition set_max_open :: "int \<Rightarrow> pool \<Rightarrow> pool" where
  "set_max_open n p =
     (let p1 = p\<lparr>pl_max_open := (if n < 0 then 0 else n)\<rparr>
      in if 0 < pl_max_open p1 \<and> pl_max_open p1 < idle_limit p1 then set_max_idle n p1 else p1)"

text \<open>SetConnMaxIdleTime and SetConnMaxLifetime: a negative time is none.\<close>

definition set_idle_time :: "duration \<Rightarrow> pool \<Rightarrow> pool" where
  "set_idle_time d p = p\<lparr>pl_idle_time := (if d < 0 then 0 else d)\<rparr>"

definition set_life_time :: "duration \<Rightarrow> pool \<Rightarrow> pool" where
  "set_life_time d p = p\<lparr>pl_life_time := (if d < 0 then 0 else d)\<rparr>"

definition db_defaults :: "db_config \<Rightarrow> db_config" where
  "db_defaults cfg = cfg
     \<lparr>dc_driver := (if dc_driver cfg = [] then ''pgx'' else dc_driver cfg),
      dc_max_open := (if dc_max_open cfg = 0 then 10 else dc_max_open cfg),
      dc_max_idle := (if dc_max_idle cfg = 0 then 10 else dc_max_idle cfg),
      dc_idle_time := (if dc_idle_time cfg = 0 then 5 * minute else dc_idle_time cfg),
      dc_life_time := (if dc_life_time cfg = 0 then 30 * minute else dc_life_time cfg)\<rparr>"

text \<open>\<open>has_migrations\<close> says that the migrations given to New are not nil.\<close>

record db_component =
  db_pool :: pool
  db_cfg :: db_config
  db_migrations :: bool

definition db_new :: "(string \<Rightarrow> string \<Rightarrow> 'k goerr option) \<Rightarrow> db_config \<Rightarrow> bool \<Rightarrow>
    'k goerr + pool \<times> db_component" where
  "db_new sql_open cfg0 has_migrations =
     (let cfg = db_defaults cfg0 in
      case sql_open (dc_driver cfg) (dc_dsn cfg) of
        Some e \<Rightarrow> Inl e
      | None \<Rightarrow>
          (let p = set_life_time (dc_life_time cfg) (set_idle_time (dc_idle_time cfg)
                     (set_max_idle (dc_max_idle cfg) (set_max_open (dc_max_open cfg) sql_pool)))
           in Inr (p, \<lparr>db_pool = p, db_cfg = cfg, db_migrations = has_migrations\<rparr>)))"

section \<open>Migrations\<close>

datatype dialect = Postgres | MySQL | SQLite3

definition dialect_of :: "string \<Rightarrow> dialect option" where
  "dialect_of driver =
     (if driver = ''pgx'' \<or> driver = ''postgres'' then Some Postgres
      else if driver = ''mysql'' then Some MySQL
      else if driver = ''sqlite'' \<or> driver = ''sqlite3'' then Some SQLite3
      else None)"

text \<open>A provider: its dialect and whether it takes the session lock.\<close>

record provider =
  pr_dialect :: dialect
  pr_locked :: bool

definition new_provider :: "'k goerr option \<Rightarrow> (provider \<Rightarrow> 'k goerr option) \<Rightarrow> string \<Rightarrow>
    'k goerr + provider" where
  "new_provider new_locker goose driver =
     (case dialect_of driver of
        None \<Rightarrow> Inl (ErrText (''db.driver: no goose dialect for '' @ quote driver @
                   ''; supported drivers are pgx, postgres, mysql, sqlite, sqlite3''))
      | Some d \<Rightarrow>
          (case (if d = Postgres then new_locker else None) of
             Some e \<Rightarrow> Inl e
           | None \<Rightarrow>
               (let p = \<lparr>pr_dialect = d, pr_locked = (d = Postgres)\<rparr> in
                case goose p of Some e \<Rightarrow> Inl e | None \<Rightarrow> Inr p)))"

text \<open>
  Start: ping, and with migrations either the run or the refusal. \<open>up\<close> and \<open>pending\<close> are the
  provider's Up and HasPending on the world; the lines Start logs are returned in order.
\<close>

datatype db_log = ApplyingMigrations | MigrationsApplied nat

definition db_start :: "('w \<Rightarrow> 'k goerr option \<times> 'w) \<Rightarrow> 'k goerr option \<Rightarrow>
    (provider \<Rightarrow> 'k goerr option) \<Rightarrow> (provider \<Rightarrow> 'w \<Rightarrow> ('k goerr + nat) \<times> 'w) \<Rightarrow>
    (provider \<Rightarrow> 'w \<Rightarrow> ('k goerr + bool) \<times> 'w) \<Rightarrow> db_component \<Rightarrow> 'w \<Rightarrow>
    'k goerr option \<times> db_log list \<times> 'w" where
  "db_start ping new_locker goose up has_pending c w =
     (case ping w of
        (Some e, w1) \<Rightarrow> (Some e, [], w1)
      | (None, w1) \<Rightarrow>
          if \<not> db_migrations c then (None, [], w1)
          else (case new_provider new_locker goose (dc_driver (db_cfg c)) of
             Inl e \<Rightarrow> (Some e, [], w1)
           | Inr p \<Rightarrow>
               if dc_migrate (db_cfg c) then
                 (case up p w1 of
                    (Inl e, w2) \<Rightarrow> (Some e, [ApplyingMigrations], w2)
                  | (Inr n, w2) \<Rightarrow> (None, [ApplyingMigrations, MigrationsApplied n], w2))
               else
                 (case has_pending p w1 of
                    (Inl e, w2) \<Rightarrow> (Some e, [], w2)
                  | (Inr True, w2) \<Rightarrow> (Some (ErrText (''db: migrations are pending; run `myservice migrate` before the '' @
                        ''rollout, or set db.migrateOnStart for local development'')), [], w2)
                  | (Inr False, w2) \<Rightarrow> (None, [], w2))))"

definition db_name :: string where "db_name = ''db''"
definition db_tier :: int where "db_tier = tier_resource"

definition db_check :: "('w \<Rightarrow> 'k goerr option \<times> 'w) \<Rightarrow> 'w \<Rightarrow> 'k goerr option \<times> 'w" where
  "db_check ping w = ping w"

definition db_stop :: "('w \<Rightarrow> 'k goerr option \<times> 'w) \<Rightarrow> 'w \<Rightarrow> 'k goerr option \<times> 'w" where
  "db_stop close_pool w = close_pool w"

section \<open>Transactions\<close>

text \<open>
  The world of WithTx is the database and everything the function can touch, with the list of
  what the transaction was told. A function ends by returning or by a panic.
\<close>

datatype tx_event = TxBegin | TxCommit | TxRollback

record 'w tx_world =
  tw_env :: 'w
  tw_events :: "tx_event list"

datatype 'k tx_end = TxReturned "'k goerr option" | TxPanicked panic

definition tx_call :: "tx_event \<Rightarrow> ('w \<Rightarrow> 'a \<times> 'w) \<Rightarrow> 'w tx_world \<Rightarrow> 'a \<times> 'w tx_world" where
  "tx_call ev f w =
     (case f (tw_env w) of (r, e) \<Rightarrow> (r, w\<lparr>tw_env := e, tw_events := tw_events w @ [ev]\<rparr>))"

text \<open>\<open>fn\<close> gets the transaction \<open>'t\<close> that Begin made and answers with an error, or panics.\<close>

definition with_tx :: "('w \<Rightarrow> ('k goerr + 't) \<times> 'w) \<Rightarrow> ('t \<Rightarrow> 'w \<Rightarrow> 'k goerr option \<times> 'w) \<Rightarrow>
    ('t \<Rightarrow> 'w \<Rightarrow> 'k goerr option \<times> 'w) \<Rightarrow> ('t \<Rightarrow> 'w tx_world \<Rightarrow> 'k tx_end \<times> 'w tx_world) \<Rightarrow>
    'w tx_world \<Rightarrow> 'k tx_end \<times> 'w tx_world" where
  "with_tx begin_tx commit rollback fn w =
     (case tx_call TxBegin begin_tx w of
        (Inl e, w1) \<Rightarrow> (TxReturned (Some e), w1)
      | (Inr t, w1) \<Rightarrow>
          (case fn t w1 of
             (TxPanicked p, w2) \<Rightarrow> (TxPanicked p, snd (tx_call TxRollback (rollback t) w2))
           | (TxReturned (Some e), w2) \<Rightarrow>
               (TxReturned (Some e), snd (tx_call TxRollback (rollback t) w2))
           | (TxReturned None, w2) \<Rightarrow>
               (case tx_call TxCommit (commit t) w2 of (res, w3) \<Rightarrow> (TxReturned res, w3))))"

end
