(* ===== verification/Db_Props.thy ===== *)
theory Db_Props
  imports Db
begin

text \<open>
  What the database Starter promises: a transaction is ended exactly once, and by a commit
  only when its function returned no error; a service does not start over a schema it should
  not use; the pool's limits are usable ones.
\<close>

section \<open>Transactions\<close>

text \<open>The function of a transaction may do what it likes with the world but not speak for WithTx.\<close>

definition leaves_events :: "('t \<Rightarrow> 'w tx_world \<Rightarrow> 'k tx_end \<times> 'w tx_world) \<Rightarrow> bool" where
  "leaves_events fn \<longleftrightarrow> (\<forall>t w. tw_events (snd (fn t w)) = tw_events w)"

text \<open>
  C32: WithTx ends a transaction it began exactly once: with a commit when the function
  returned no error, and the result is then the commit's; otherwise with a rollback, and the
  function's own error or panic is what the caller gets. A Begin that fails runs nothing.
\<close>

theorem with_tx_ends_the_transaction_once:
  assumes "leaves_events fn" "with_tx begin_tx commit rollback fn w = (res, w')"
  shows "(case tx_call TxBegin begin_tx w of
      (Inl e, w1) \<Rightarrow> res = TxReturned (Some e) \<and> w' = w1 \<and> tw_events w' = tw_events w @ [TxBegin]
    | (Inr t, w1) \<Rightarrow>
        (case fn t w1 of
           (TxReturned None, w2) \<Rightarrow>
             tw_events w' = tw_events w @ [TxBegin, TxCommit] \<and>
             res = TxReturned (fst (commit t (tw_env w2))) \<and> tw_env w' = snd (commit t (tw_env w2))
         | (bad, w2) \<Rightarrow>
             tw_events w' = tw_events w @ [TxBegin, TxRollback] \<and> res = bad \<and>
             tw_env w' = snd (rollback t (tw_env w2))))"
proof -
  have ev: "tw_events w2 = tw_events w1" if "fn t w1 = (r, w2)" for t w1 r w2
    using assms(1) that by (metis leaves_events_def snd_conv)
  show ?thesis using assms(2)
    by (auto simp: with_tx_def tx_call_def dest!: ev
          split: prod.splits sum.splits tx_end.splits option.splits)
qed

text \<open>A one-cell database: the transaction holds the value it found.\<close>

theorem with_tx_ends_the_transaction_once_witness:
  "with_tx (\<lambda>w. (Inr w, w)) (\<lambda>t w. (None, w)) (\<lambda>t w. (None, t))
     (\<lambda>t w. (TxPanicked (PanicValue ''boom'') :: unit tx_end, w\<lparr>tw_env := (5::int)\<rparr>))
     \<lparr>tw_env = 3, tw_events = []\<rparr> =
     (TxPanicked (PanicValue ''boom''), \<lparr>tw_env = 3, tw_events = [TxBegin, TxRollback]\<rparr>)"
proof -
  let ?fn = "\<lambda>(t::int) (w::int tx_world). (TxPanicked (PanicValue ''boom'') :: unit tx_end, w\<lparr>tw_env := (5::int)\<rparr>)"
  have l: "leaves_events ?fn" by (simp add: leaves_events_def)
  obtain res w' where r: "with_tx (\<lambda>w. (Inr w, w)) (\<lambda>t w. (None, w)) (\<lambda>t w. (None, t)) ?fn
     \<lparr>tw_env = 3, tw_events = []\<rparr> = (res, w')" by (meson surj_pair)
  from with_tx_ends_the_transaction_once [OF l r] r show ?thesis by (simp add: tx_call_def)
qed

section \<open>Starting\<close>

text \<open>
  The Start of the database succeeds only after a ping that succeeded, and, where it was
  given migrations, only when the driver has a dialect and the schema is up to date: either
  nothing was pending, or the run it was told to make came back without an error.
\<close>

theorem start_refuses_a_stale_schema:
  assumes "db_start ping new_locker goose up has_pending c w = (None, logs, w')"
  shows "fst (ping w) = None \<and>
    (db_migrations c \<longrightarrow>
      (\<exists>p. new_provider new_locker goose (dc_driver (db_cfg c)) = Inr p \<and>
        (if dc_migrate (db_cfg c) then \<exists>n. up p (snd (ping w)) = (Inr n, w') \<and>
             logs = [ApplyingMigrations, MigrationsApplied n]
         else has_pending p (snd (ping w)) = (Inr False, w'))))"
  using assms
  by (auto simp: db_start_def split: prod.splits option.splits sum.splits if_splits bool.splits)

definition sample_db :: db_component where
  "sample_db = \<lparr>db_pool = sql_pool, db_cfg = db_defaults \<lparr>dc_dsn = ''d'', dc_driver = [], dc_max_open = 0,
     dc_max_idle = 0, dc_idle_time = 0, dc_life_time = 0, dc_migrate = False\<rparr>, db_migrations = True\<rparr>"

theorem start_refuses_a_stale_schema_witness:
  "db_start (\<lambda>w. (None, w)) None (\<lambda>_. None :: unit goerr option) (\<lambda>_ w. (Inr 0, w)) (\<lambda>_ w. (Inr False, w))
     sample_db () = (None, [], ()) \<and>
   (\<exists>p. new_provider None (\<lambda>_. None :: unit goerr option) (dc_driver (db_cfg sample_db)) = Inr p)"
proof -
  have s: "db_start (\<lambda>w. (None, w)) None (\<lambda>_. None :: unit goerr option) (\<lambda>_ w. (Inr 0, w)) (\<lambda>_ w. (Inr False, w))
     sample_db () = (None, [], ())"
    by (simp add: db_start_def sample_db_def db_defaults_def new_provider_def dialect_of_def)
  from start_refuses_a_stale_schema [OF s] s show ?thesis by (simp add: sample_db_def)
qed

section \<open>Limits and locks\<close>

lemma time_limits [simp]:
  "pl_max_open (set_idle_time d p) = pl_max_open p" "pl_max_open (set_life_time d p) = pl_max_open p"
  "idle_limit (set_idle_time d p) = idle_limit p" "idle_limit (set_life_time d p) = idle_limit p"
  by (simp_all add: set_idle_time_def set_life_time_def idle_limit_def)

lemma max_open_set_idle [simp]: "pl_max_open (set_max_idle n p) = pl_max_open p"
  by (simp add: set_max_idle_def Let_def)

lemma max_open_set_open [simp]: "pl_max_open (set_max_open n p) = max 0 n"
  by (simp add: set_max_open_def Let_def)

lemma idle_limit_set_idle [simp]:
  "idle_limit (set_max_idle n p) =
     (if 0 < pl_max_open p then min (max 0 n) (pl_max_open p) else max 0 n)"
  by (auto simp: set_max_idle_def idle_limit_def Let_def)

lemma new_pool:
  assumes "db_new sql_open cfg m = Inr (p, c)"
  shows "p = set_life_time (dc_life_time (db_defaults cfg)) (set_idle_time (dc_idle_time (db_defaults cfg))
      (set_max_idle (dc_max_idle (db_defaults cfg)) (set_max_open (dc_max_open (db_defaults cfg)) sql_pool)))"
    and "db_pool c = p" and "sql_open (dc_driver (db_cfg c)) (dc_dsn (db_cfg c)) = None"
    and "db_cfg c = db_defaults cfg"
  using assms by (auto simp: db_new_def Let_def split: option.splits)

text \<open>
  A pool that New opened has the limits of its configuration with the defaults filled in
  (ten open, ten idle), a negative limit meaning no limit or no idle connections, and never
  keeps more idle connections than it may open.
\<close>

theorem pool_limits_are_usable:
  assumes "db_new sql_open cfg m = Inr (p, c)"
  shows "pl_max_open p = (if dc_max_open cfg = 0 then 10 else max 0 (dc_max_open cfg)) \<and>
    idle_limit p =
      (let idle = (if dc_max_idle cfg = 0 then 10 else max 0 (dc_max_idle cfg))
       in if 0 < pl_max_open p then min idle (pl_max_open p) else idle) \<and>
    db_pool c = p \<and> sql_open (dc_driver (db_cfg c)) (dc_dsn (db_cfg c)) = None"
  using new_pool [OF assms] by (simp add: db_defaults_def Let_def)

theorem pool_limits_are_usable_witness:
  "\<exists>p c. db_new (\<lambda>_ _. None :: unit goerr option) ((db_cfg sample_db)\<lparr>dc_max_open := 4\<rparr>) False = Inr (p, c) \<and>
     pl_max_open p = 4 \<and> idle_limit p \<le> 4"
proof -
  obtain p c where n: "db_new (\<lambda>_ _. None :: unit goerr option) ((db_cfg sample_db)\<lparr>dc_max_open := 4\<rparr>) False = Inr (p, c)"
    by (simp add: db_new_def Let_def)
  from pool_limits_are_usable [OF n] n show ?thesis by auto
qed

end
