(* ===== verification/Grpc.thy ===== *)
theory Grpc
  imports Actuator Web_Metrics
begin

text \<open>
  The gRPC Starter: the default handler options (grpc/grpc.go), the RPC metrics
  (grpc/metrics/metrics.go), the health service (grpc/health/health.go) and the mount of the
  reflection service (grpc/reflection/reflection.go).

  An RPC ends with a response and an error, or with a panic. connect-go is a parameter: its
  WithRecover, the reflection handlers, and the printed form of an error of another origin.
  The interceptors run below the HTTP middleware, on the same request and connection.
\<close>

section \<open>RPCs and their errors\<close>

text \<open>A *connect.Error with its code and message, or an error value from elsewhere.\<close>

datatype 'k rpc_err = ConnectError int string | ForeignError 'k

type_synonym 'k rpc_error = "'k rpc_err goerr"

definition code_canceled :: int where "code_canceled = 1"
definition code_unknown :: int where "code_unknown = 2"
definition code_not_found :: int where "code_not_found = 5"
definition code_internal :: int where "code_internal = 13"

definition code_names :: "string list" where
  "code_names = [''canceled'', ''unknown'', ''invalid_argument'', ''deadline_exceeded'', ''not_found'',
     ''already_exists'', ''permission_denied'', ''resource_exhausted'', ''failed_precondition'',
     ''aborted'', ''out_of_range'', ''unimplemented'', ''internal'', ''unavailable'', ''data_loss'',
     ''unauthenticated'']"

text \<open>Code.String.\<close>

definition code_string :: "int \<Rightarrow> string" where
  "code_string c =
     (if 1 \<le> c \<and> c \<le> 16 then code_names ! nat (c - 1) else ''code_'' @ format_int c)"

text \<open>errors.As for a *connect.Error, and CodeOf, which answers Unknown for any other error.\<close>

definition as_connect :: "'k rpc_error \<Rightarrow> (int \<times> string) option" where
  "as_connect e = errors_as (\<lambda>k. case k of ConnectError c m \<Rightarrow> Some (c, m) | ForeignError x \<Rightarrow> None) e"

definition code_of :: "'k rpc_error \<Rightarrow> int" where
  "code_of e = (case as_connect e of Some (c, m) \<Rightarrow> c | None \<Rightarrow> code_unknown)"

definition connect_error :: "int \<Rightarrow> string \<Rightarrow> 'k rpc_error" where
  "connect_error c m = ErrExt (ConnectError c m)"

definition rpc_err_text :: "('k \<Rightarrow> string) \<Rightarrow> 'k rpc_err \<Rightarrow> string" where
  "rpc_err_text txt k =
     (case k of ConnectError c m \<Rightarrow> code_string c @ '': '' @ m | ForeignError x \<Rightarrow> txt x)"

datatype ('r, 'k) rpc_end = RpcEnd "'r option" "'k rpc_error option" | RpcPanic panic

text \<open>The procedure, the HTTP request it came with and the connection.\<close>

type_synonym ('c, 'w, 'r, 'k) rpc =
  "string \<Rightarrow> 'c request \<Rightarrow> 'w conn \<Rightarrow> ('r, 'k) rpc_end \<times> 'w conn"

section \<open>grpc.go\<close>

definition log_from :: "'c request \<Rightarrow> logger \<Rightarrow> logger" where
  "log_from r fallback = (if logger_from r \<noteq> default_logger then logger_from r else fallback)"

definition clean :: "('k \<Rightarrow> string) \<Rightarrow> logger \<Rightarrow> 'c request \<Rightarrow> string \<Rightarrow> 'k rpc_error option \<Rightarrow>
    'w conn \<Rightarrow> 'k rpc_error option \<times> 'w conn" where
  "clean txt log r procedure err c =
     (case err of
        None \<Rightarrow> (None, c)
      | Some e \<Rightarrow>
          (case as_connect e of
             Some (code, m) \<Rightarrow>
               (Some e, log_line (log_from r log) level_error ''rpc failed''
                  [(''procedure'', AText procedure), (''code'', AText (code_string code)),
                   (''err'', AText (err_text (rpc_err_text txt) e))] c)
           | None \<Rightarrow>
               (Some (connect_error code_unknown ''unknown''),
                log_line (log_from r log) level_error ''rpc failed''
                  [(''procedure'', AText procedure),
                   (''err'', AText (err_text (rpc_err_text txt) e))] c)))"

definition wrap_unary :: "('k \<Rightarrow> string) \<Rightarrow> logger \<Rightarrow> ('c, 'w, 'r, 'k) rpc \<Rightarrow> ('c, 'w, 'r, 'k) rpc" where
  "wrap_unary txt log next procedure r c =
     (case next procedure r c of
        (RpcPanic p, c1) \<Rightarrow> (RpcPanic p, c1)
      | (RpcEnd res None, c1) \<Rightarrow> (RpcEnd res None, c1)
      | (RpcEnd res (Some e), c1) \<Rightarrow>
          (case clean txt log r procedure (Some e) c1 of (e', c2) \<Rightarrow> (RpcEnd None e', c2)))"

text \<open>A streaming handler has no response value: its result is its error.\<close>

definition wrap_streaming :: "('k \<Rightarrow> string) \<Rightarrow> logger \<Rightarrow> ('c, 'w, 'r, 'k) rpc \<Rightarrow> ('c, 'w, 'r, 'k) rpc" where
  "wrap_streaming txt log next procedure r c =
     (case next procedure r c of
        (RpcPanic p, c1) \<Rightarrow> (RpcPanic p, c1)
      | (RpcEnd res e, c1) \<Rightarrow>
          (case clean txt log r procedure e c1 of (e', c2) \<Rightarrow> (RpcEnd res e', c2)))"

definition wrap_streaming_client :: "'a \<Rightarrow> 'a" where
  "wrap_streaming_client next = next"

text \<open>The function DefaultOptions gives to WithRecover.\<close>

definition recovered :: "logger \<Rightarrow> string \<Rightarrow> 'c request \<Rightarrow> panic \<Rightarrow> 'w conn \<Rightarrow> 'k rpc_error \<times> 'w conn" where
  "recovered log procedure r p c =
     (connect_error code_internal ''internal error'',
      log_line (log_from r log) level_error ''panic in rpc''
        [(''procedure'', AText procedure), (''panic'', AText (panic_text p))] c)"

text \<open>
  DefaultOptions on a unary and on a streaming handler: recovery outermost, then the
  sanitiser, then whatever \<open>inner\<close> options a service appends. \<open>recover_with\<close> is connect's
  WithRecover. The third entry is the required protocol header, a flag of the handler.
\<close>

type_synonym ('c, 'w, 'r, 'k) recoverer =
  "(string \<Rightarrow> 'c request \<Rightarrow> panic \<Rightarrow> 'w conn \<Rightarrow> 'k rpc_error \<times> 'w conn) \<Rightarrow>
     ('c, 'w, 'r, 'k) rpc \<Rightarrow> ('c, 'w, 'r, 'k) rpc"

definition default_unary :: "('c, 'w, 'r, 'k) recoverer \<Rightarrow> ('k \<Rightarrow> string) \<Rightarrow> logger \<Rightarrow>
    ('c, 'w, 'r, 'k) rpc \<Rightarrow> ('c, 'w, 'r, 'k) rpc" where
  "default_unary recover_with txt log inner =
     recover_with (recovered log) (wrap_unary txt log inner)"

definition default_streaming :: "('c, 'w, 'r, 'k) recoverer \<Rightarrow> ('k \<Rightarrow> string) \<Rightarrow> logger \<Rightarrow>
    ('c, 'w, 'r, 'k) rpc \<Rightarrow> ('c, 'w, 'r, 'k) rpc" where
  "default_streaming recover_with txt log inner =
     recover_with (recovered log) (wrap_streaming txt log inner)"

section \<open>metrics.go\<close>

text \<open>
  The deferred record: the procedure, the label of the code and the time, then the panic goes
  on. An entry of \<open>cn_series\<close> is the Inc and the Observe on one pair of labels.
\<close>

definition rpc_record :: "string \<Rightarrow> time \<Rightarrow> ('r, 'k) rpc_end \<Rightarrow> 'w conn \<Rightarrow> ('r, 'k) rpc_end \<times> 'w conn" where
  "rpc_record procedure start res c =
     (if res = RpcPanic AbortHandler then (res, c)
      else (let code = (case res of
                 RpcPanic p \<Rightarrow> code_string code_internal
               | RpcEnd x None \<Rightarrow> ''ok''
               | RpcEnd x (Some e) \<Rightarrow> code_string (code_of e))
            in (res, c\<lparr>cn_series := cn_series c @ [(procedure, code, cn_clock c - start)]\<rparr>)))"

text \<open>WrapUnary and WrapStreamingHandler of the recorder, which read the same in this model.\<close>

definition rpc_metrics :: "('c, 'w, 'r, 'k) rpc \<Rightarrow> ('c, 'w, 'r, 'k) rpc" where
  "rpc_metrics next procedure r c =
     (case next procedure r c of (res, c1) \<Rightarrow> rpc_record procedure (cn_clock c) res c1)"

section \<open>health.go\<close>

datatype serving_status = NotServing | Serving

text \<open>The loop over the Checks stops at the first that fails.\<close>

fun first_failing :: "ctx \<Rightarrow> (string \<times> ('w, 'k) check) list \<Rightarrow> time \<Rightarrow> 'w \<Rightarrow>
    serving_status \<times> time \<times> 'w" where
  "first_failing x [] t e = (Serving, t, e)"
| "first_failing x ((name, check) # cs) t e =
     (case check x t e of
        (Some err, t', e') \<Rightarrow> (NotServing, t', e')
      | (None, t', e') \<Rightarrow> first_failing x cs t' e')"

definition health_check :: "('w, 'j) app \<Rightarrow> string \<Rightarrow> ctx \<Rightarrow> time \<Rightarrow> 'w \<Rightarrow>
    ('k rpc_error + serving_status) \<times> time \<times> 'w" where
  "health_check app service x t e =
     (if service \<noteq> [] then (Inl (connect_error code_not_found (''unknown service '' @ quote service)), t, e)
      else if \<not> app_is_ready app then (Inr NotServing, t, e)
      else (case first_failing x (app_checks app) t e of (st, t', e') \<Rightarrow> (Inr st, t', e')))"

section \<open>reflection.go\<close>

text \<open>\<open>v1\<close> and \<open>v1_alpha\<close> are connect's two constructors on the named services.\<close>

definition reflection_mount :: "(string list \<Rightarrow> string \<times> ('c, 'w) handler) \<Rightarrow>
    (string list \<Rightarrow> string \<times> ('c, 'w) handler) \<Rightarrow>
    (string \<Rightarrow> ('c, 'w) handler \<Rightarrow> 'm \<Rightarrow> 'm option) \<Rightarrow> string list \<Rightarrow> 'm \<Rightarrow> 'm option" where
  "reflection_mount v1 v1_alpha handle services m =
     handle_all handle [v1 services, v1_alpha services] m"

end
