(* ===== verification/Grpc_Props.thy ===== *)
theory Grpc_Props
  imports Grpc Actuator_Props
begin

text \<open>
  What the gRPC Starter promises: no error text of another origin reaches a caller, the
  metrics count the code the caller receives, and the health service answers as /readyz does.
\<close>

section \<open>The default options\<close>

text \<open>
  What connect documents of WithRecover: it passes http.ErrAbortHandler on and turns any other
  panic into the error of the function it was given.
\<close>

definition lawful_recover :: "('c, 'w, 'r, 'k) recoverer \<Rightarrow> bool" where
  "lawful_recover recover_with \<longleftrightarrow>
     (\<forall>handle next procedure r c. recover_with handle next procedure r c =
        (case next procedure r c of
           (RpcPanic p, c1) \<Rightarrow>
             if p = AbortHandler then (RpcPanic p, c1)
             else (case handle procedure r p c1 of (e, c2) \<Rightarrow> (RpcEnd None (Some e), c2))
         | (RpcEnd x e, c1) \<Rightarrow> (RpcEnd x e, c1)))"

lemma lawful_recoverD:
  "lawful_recover recover_with \<Longrightarrow> recover_with handle next procedure r c =
     (case next procedure r c of
        (RpcPanic p, c1) \<Rightarrow>
          if p = AbortHandler then (RpcPanic p, c1)
          else (case handle procedure r p c1 of (e, c2) \<Rightarrow> (RpcEnd None (Some e), c2))
      | (RpcEnd x e, c1) \<Rightarrow> (RpcEnd x e, c1))"
  unfolding lawful_recover_def by blast

definition connect_recover :: "('c, 'w, 'r, 'k) recoverer" where
  "connect_recover handle next procedure r c =
     (case next procedure r c of
        (RpcPanic p, c1) \<Rightarrow>
          if p = AbortHandler then (RpcPanic p, c1)
          else (case handle procedure r p c1 of (e, c2) \<Rightarrow> (RpcEnd None (Some e), c2))
      | (RpcEnd x e, c1) \<Rightarrow> (RpcEnd x e, c1))"

lemma connect_recover_lawful: "lawful_recover connect_recover"
  by (simp add: lawful_recover_def connect_recover_def)

lemma as_connect_error [simp]: "as_connect (connect_error c m) = Some (c, m)"
  by (simp add: as_connect_def connect_error_def)

lemma clean_log_only [simp]:
  "cn_series (snd (clean txt log r p e c)) = cn_series c" "cn_clock (snd (clean txt log r p e c)) = cn_clock c"
  by (auto simp: clean_def log_line_def split: option.split prod.split)

text \<open>What the sanitiser makes of an error, and what a handler of either kind ends with.\<close>

definition cleaned :: "'k rpc_error \<Rightarrow> 'k rpc_error" where
  "cleaned e = (if as_connect e = None then connect_error code_unknown ''unknown'' else e)"

lemma fst_clean: "fst (clean txt log r p e c) = map_option cleaned e"
  by (auto simp: clean_def cleaned_def split: option.split)

lemma code_of_cleaned [simp]: "code_of (cleaned e) = code_of e"
  by (auto simp: cleaned_def code_of_def split: option.split)

definition is_default_stack :: "('c, 'w, 'r, 'k) recoverer \<Rightarrow> ('k \<Rightarrow> string) \<Rightarrow> logger \<Rightarrow>
    ('c, 'w, 'r, 'k) rpc \<Rightarrow> ('c, 'w, 'r, 'k) rpc \<Rightarrow> bool" where
  "is_default_stack recover_with txt log inner stack \<longleftrightarrow>
     stack = default_unary recover_with txt log inner \<or> stack = default_streaming recover_with txt log inner"

lemma default_stack_result:
  fixes stack :: "('c, 'w, 'r, 'k) rpc"
  assumes "lawful_recover recover_with" "is_default_stack recover_with txt log inner stack"
    and "inner procedure r c = (res1, c1)" "stack procedure r c = (res, c')"
  shows "cn_series c' = cn_series c1 \<and>
    (case res1 of
       RpcPanic p \<Rightarrow>
         res = (if p = AbortHandler then RpcPanic p
                else RpcEnd None (Some (connect_error code_internal ''internal error'')))
     | RpcEnd x None \<Rightarrow> res = RpcEnd x None
     | RpcEnd x (Some e) \<Rightarrow> \<exists>y. res = RpcEnd y (Some (cleaned e)))"
proof -
  note defs = default_unary_def default_streaming_def lawful_recoverD [OF assms(1)]
  show ?thesis
  proof (cases res1)
    case (RpcPanic p)
    obtain e2 :: "'k rpc_error" and c2 where rec: "recovered log procedure r p c1 = (e2, c2)"
      by (meson surj_pair)
    have "e2 = connect_error code_internal ''internal error''" "cn_series c2 = cn_series c1"
      using rec by (auto simp: recovered_def log_line_def)
    with rec RpcPanic assms(2-4) show ?thesis
      by (auto simp: is_default_stack_def defs wrap_unary_def wrap_streaming_def split: if_splits)
  next
    case (RpcEnd x e)
    show ?thesis
    proof (cases e)
      case None
      with RpcEnd assms(2-4) show ?thesis
        by (auto simp: is_default_stack_def defs wrap_unary_def wrap_streaming_def clean_def)
    next
      case (Some e0)
      obtain e2 c2 where cl: "clean txt log r procedure (Some e0) c1 = (e2, c2)"
        by (cases "clean txt log r procedure (Some e0) c1") auto
      have "e2 = Some (cleaned e0)" "cn_series c2 = cn_series c1"
        using fst_clean [of "txt" log r procedure "Some e0" c1] clean_log_only(1) [of "txt" log r procedure "Some e0" c1] cl
        by simp_all
      with cl Some RpcEnd assms(2-4) show ?thesis
        by (auto simp: is_default_stack_def defs wrap_unary_def wrap_streaming_def)
    qed
  qed
qed

text \<open>
  C33: Under the default options an RPC never leaks: what the caller is told is the error the
  handler built with connect, or the bare codes unknown and internal, never the text of an
  error from elsewhere or of a panic; and the only panic that goes on is the deliberate abort.
\<close>

theorem rpc_errors_are_sanitised:
  assumes "lawful_recover recover_with" "is_default_stack recover_with txt log inner stack"
    and "stack procedure r c = (res, c')"
  shows "(case res of
      RpcPanic p \<Rightarrow> p = AbortHandler
    | RpcEnd x None \<Rightarrow> \<exists>c1. inner procedure r c = (RpcEnd x None, c1)
    | RpcEnd x (Some e) \<Rightarrow>
        e = connect_error code_unknown ''unknown'' \<or> e = connect_error code_internal ''internal error'' \<or>
        (as_connect e \<noteq> None \<and> (\<exists>y c1. inner procedure r c = (RpcEnd y (Some e), c1))))"
proof -
  obtain res1 c1 where i: "inner procedure r c = (res1, c1)" by force
  from default_stack_result [OF assms(1,2) i assms(3)] i show ?thesis
    by (auto simp: cleaned_def split: rpc_end.splits option.splits if_splits)
qed

text \<open>
  C34: Mounted below the default options, the RPC metrics count every call that was not
  aborted exactly once, under the procedure and the code the caller receives: a panic as
  internal, an error from elsewhere as unknown, a success as ok. An abort is not counted.
\<close>

theorem rpc_metrics_count_what_the_caller_receives:
  assumes "lawful_recover recover_with"
    and "is_default_stack recover_with txt log (rpc_metrics inner) stack"
    and "inner procedure r c = (res1, c1)" "stack procedure r c = (res, c')"
  shows "cn_series c' = cn_series c1 @
    (case res of
       RpcPanic p \<Rightarrow> []
     | RpcEnd x e \<Rightarrow>
         [(procedure, (case e of None \<Rightarrow> ''ok'' | Some err \<Rightarrow> code_string (code_of err)),
           cn_clock c1 - cn_clock c)])"
proof -
  let ?c2 = "snd (rpc_record procedure (cn_clock c) res1 c1)"
  have m: "rpc_metrics inner procedure r c = (res1, ?c2)"
    using assms(3) by (simp add: rpc_metrics_def rpc_record_def Let_def)
  from default_stack_result [OF assms(1,2) m assms(4)] show ?thesis
    by (auto simp: rpc_record_def Let_def code_of_def [of "connect_error code_internal m" for m]
          split: rpc_end.splits option.splits if_splits)
qed

section \<open>Health\<close>

text \<open>
  The App's Checks and the Actuator's copy are Go maps, listed in any order, so the two agree
  in general only when a Check's answer does not depend on when it is asked.
\<close>

definition steady :: "(string \<times> ('w, 'k) check) list \<Rightarrow> bool" where
  "steady cs \<longleftrightarrow> (\<forall>nc \<in> set cs. \<forall>x t e x' t' e'. fst (snd nc x t e) = fst (snd nc x' t' e'))"

text \<open>The answer of a steady Check, asked at no particular time.\<close>

definition passes :: "string \<times> ('w, 'k) check \<Rightarrow> bool" where
  "passes nc \<longleftrightarrow> (\<forall>x t e. fst (snd nc x t e) = None)"

lemma steady_passes: "steady cs \<Longrightarrow> nc \<in> set cs \<Longrightarrow> passes nc \<longleftrightarrow> fst (snd nc x t e) = None"
  unfolding steady_def passes_def by metis

lemma steady_tl: "steady (nc # cs) \<Longrightarrow> steady cs"
  by (simp add: steady_def)

lemma first_failing_steady:
  "steady cs \<Longrightarrow> fst (first_failing x cs t e) = (if list_all passes cs then Serving else NotServing)"
proof (induction x cs t e rule: first_failing.induct)
  case (2 x name check cs t e)
  obtain res t' e' where ch: "check x t e = (res, t', e')" by (cases "check x t e") auto
  have p: "passes (name, check) \<longleftrightarrow> res = None"
    using steady_passes [OF 2(2), of "(name, check)" x t e] ch by simp
  show ?case using 2(1) [OF ch [symmetric]] steady_tl [OF 2(2)] ch p by (cases res) auto
qed simp

lemma check_results_steady:
  "steady cs \<Longrightarrow> list_all (\<lambda>e. snd e = None) (check_results x cs t e) \<longleftrightarrow> list_all passes cs"
proof (induction x cs t e rule: check_results.induct)
  case (2 x name check cs t e)
  obtain res t' e' where ch: "check x t e = (res, t', e')" by (cases "check x t e") auto
  have p: "passes (name, check) \<longleftrightarrow> res = None"
    using steady_passes [OF 2(2), of "(name, check)" x t e] ch by simp
  show ?case using 2(1) [OF ch [symmetric]] steady_tl [OF 2(2)] ch p by (cases res) auto
qed simp

lemma readyz_status:
  assumes "coherent (cn_w c)" "\<not> wi_wrote (rw_wire (cn_w c))" "wi_room (rw_wire (cn_w c)) = None"
  shows "\<exists>c'. readyz txt view r c = (None, r, c') \<and> wi_status (rw_wire (cn_w c')) =
    (if pv_ready (view (cn_env c)) \<and> \<not> pv_draining (view (cn_env c)) \<and>
        list_all (\<lambda>e. snd e = None) (check_results (rq_ctx r) (pv_checks (view (cn_env c))) (cn_clock c) (cn_env c))
     then 200 else 503)"
proof (cases "pv_ready (view (cn_env c)) \<and> \<not> pv_draining (view (cn_env c))")
  case False
  with reply_answers [OF assms(1,2) _ assms(3), of 503 "health_json ''DOWN'' []" r]
  show ?thesis by (auto simp: readyz_def Let_def)
next
  case True
  let ?cs = "pv_checks (view (cn_env c))" and ?show = "pv_show (view (cn_env c))"
  obtain status code out c1 where run:
    "run_checks txt (rq_ctx r) ?cs ''UP'' 200 [] c = (status, code, out, c1)"
    by (cases "run_checks txt (rq_ctx r) ?cs ''UP'' 200 [] c") auto
  note res = run_checks_results [OF run]
  let ?doc = "health_json status (if ?show \<noteq> ''always'' then [] else out)"
  have "code = 200 \<or> code = 503" using res by auto
  with reply_answers [of c1 code ?doc r] assms res obtain c'
    where "reply code ?doc r c1 = (None, r, c')" "wi_status (rw_wire (cn_w c')) = code" by auto
  moreover have "readyz txt view r c = reply code ?doc r c1"
    using True run by (simp add: readyz_def Let_def)
  ultimately show ?thesis using True res by auto
qed


section \<open>Concrete calls\<close>

definition leaky :: "(unit, unit, unit, unit) rpc" where
  "leaky procedure r c = (RpcEnd (Some ()) (Some (ErrWrap ''pq: '' (ErrExt (ForeignError ())))), c)"

definition panicking_rpc :: "(unit, unit, unit, unit) rpc" where
  "panicking_rpc procedure r c = (RpcPanic (PanicValue ''boom''), c)"

lemma as_connect_leak: "as_connect (ErrWrap t (ErrExt (ForeignError k))) = None"
  by (simp add: as_connect_def)

theorem rpc_errors_are_sanitised_witness:
  "\<exists>c'. default_unary connect_recover (\<lambda>_. ''10.0.0.5'') app_logger leaky ''/greet'' sample_request sample_conn =
     (RpcEnd None (Some (connect_error code_unknown ''unknown'')), c')"
proof -
  let ?stack = "default_unary connect_recover (\<lambda>_. ''10.0.0.5'') app_logger leaky"
  obtain res c' where s: "?stack ''/greet'' sample_request sample_conn = (res, c')" by (meson surj_pair)
  have "is_default_stack connect_recover (\<lambda>_. ''10.0.0.5'') app_logger leaky ?stack"
    by (simp add: is_default_stack_def)
  from rpc_errors_are_sanitised [OF connect_recover_lawful this s] s show ?thesis
    by (auto simp: leaky_def default_unary_def connect_recover_def wrap_unary_def clean_def as_connect_leak)
qed

theorem rpc_metrics_count_what_the_caller_receives_witness:
  "\<exists>c'. default_unary connect_recover (\<lambda>_. []) app_logger (rpc_metrics panicking_rpc)
      ''/greet'' sample_request sample_conn =
     (RpcEnd None (Some (connect_error code_internal ''internal error'')), c') \<and>
   cn_series c' = [(''/greet'', ''internal'', 0)]"
proof -
  let ?stack = "default_unary connect_recover (\<lambda>_. []) app_logger (rpc_metrics panicking_rpc)"
  obtain res c' where s: "?stack ''/greet'' sample_request sample_conn = (res, c')" by (meson surj_pair)
  have st: "is_default_stack connect_recover (\<lambda>_. []) app_logger (rpc_metrics panicking_rpc) ?stack"
    by (simp add: is_default_stack_def)
  have h: "panicking_rpc ''/greet'' sample_request sample_conn = (RpcPanic (PanicValue ''boom''), sample_conn)"
    by (simp add: panicking_rpc_def)
  have m: "rpc_metrics panicking_rpc ''/greet'' sample_request sample_conn =
      (RpcPanic (PanicValue ''boom''), snd (rpc_metrics panicking_rpc ''/greet'' sample_request sample_conn))"
    by (simp add: rpc_metrics_def panicking_rpc_def rpc_record_def Let_def)
  have r: "res = RpcEnd None (Some (connect_error code_internal ''internal error''))"
    using default_stack_result [OF connect_recover_lawful st m s] by simp
  have "code_string code_internal = ''internal''"
    by (simp add: code_string_def code_internal_def code_names_def)
  with rpc_metrics_count_what_the_caller_receives [OF connect_recover_lawful st h s] s r show ?thesis
    by (simp add: code_of_def sample_conn_def)
qed

definition sample_check :: "unit goerr option \<Rightarrow> string \<Rightarrow> (unit, unit) component" where
  "sample_check ans name =
     \<lparr>c_name = name, c_tier = 1, c_start = (\<lambda>x t e. (Inr None, t, e)), c_stop = (\<lambda>x t e. (None, t, e)),
      c_drain = None, c_check = Some (\<lambda>x t e. (ans, t, e))\<rparr>"

definition sample_app :: "(unit, unit) app" where
  "sample_app =
     \<lparr>a_level = 0, a_json = True, a_life = \<lparr>start_timeout = 1, drain_delay = 1, stop_timeout = 1\<rparr>,
      a_comps = [sample_check None ''kafka'', sample_check (Some (ErrText ''refused'')) ''db''],
      a_order = [], a_started = 0, a_ready = True, a_epoch = 1, a_death = None, a_stop_open = True,
      a_closed = [], a_watchers = []\<rparr>"

definition sample_actuator :: "(unit, unit, unit) actuator" where
  "sample_actuator =
     \<lparr>at_cfg = sample_actuator_config, at_own = None, at_ln = None,
      at_checks = rev (app_checks sample_app), at_draining = False\<rparr>"


end
