(* ===== verification/Trace.thy ===== *)
theory Trace
  imports Web Lifecycle Complex_Main
begin

text \<open>
  The tracing Starter (trace/trace.go): the checks of New, the provider Start builds and
  Stop flushes, the middleware with its filter, the naming of spans, and the log handler
  that adds the IDs.

  OpenTelemetry is a parameter: the exporter, the resource merge, the span middleware of
  otelhttp and the effect of naming the span of a request.
\<close>

section \<open>Configuration\<close>

text \<open>A float64 as far as New and Start look at one.\<close>

datatype float64 = NaN | PosInf | NegInf | Finite rat

instantiation float64 :: ord
begin

fun less_float64 :: "float64 \<Rightarrow> float64 \<Rightarrow> bool" where
  "less_float64 NaN y = False"
| "less_float64 x NaN = False"
| "less_float64 NegInf y = (y \<noteq> NegInf)"
| "less_float64 PosInf y = False"
| "less_float64 (Finite a) NegInf = False"
| "less_float64 (Finite a) PosInf = True"
| "less_float64 (Finite a) (Finite b) = (a < b)"

definition less_eq_float64 :: "float64 \<Rightarrow> float64 \<Rightarrow> bool" where
  "less_eq_float64 x y \<longleftrightarrow> x < y \<or> x = y \<and> x \<noteq> NaN"

instance ..

end

record trace_config =
  tc_endpoint :: string
  tc_service :: string
  tc_ratio :: float64

definition trace_new :: "(float64 \<Rightarrow> string) \<Rightarrow> trace_config \<Rightarrow> 'k goerr option" where
  "trace_new print cfg =
     (if tc_ratio cfg < Finite 0 \<or> Finite 1 < tc_ratio cfg
      then Some (ErrText (''trace.sampleRatio: '' @ print (tc_ratio cfg) @ '' is not a share between 0 and 1''))
      else None)"

section \<open>The Component\<close>

text \<open>
  The provider: the endpoint the exporter was told (\<open>None\<close>: the environment's), the service
  name laid over the default resource, and the ratio of the parent-based sampler, if one was set.
\<close>

record tracer_provider =
  tp_endpoint :: "string option"
  tp_service :: "string option"
  tp_sampler :: "float64 option"

text \<open>\<open>ts_global\<close> is the process-wide provider, \<open>ts_propagators\<close> the process-wide propagator.\<close>

record trace_state =
  ts_cfg :: trace_config
  ts_tp :: "tracer_provider option"
  ts_global :: "tracer_provider option"
  ts_propagators :: "string list"

definition trace_resource :: "(string \<Rightarrow> 'k goerr option) \<Rightarrow> trace_config \<Rightarrow> 'k goerr + string option" where
  "trace_resource merge cfg =
     (if tc_service cfg = [] then Inr None
      else (case merge (tc_service cfg) of Some e \<Rightarrow> Inl e | None \<Rightarrow> Inr (Some (tc_service cfg))))"

definition trace_name :: string where "trace_name = ''trace''"
definition trace_tier :: int where "trace_tier = tier_observe"

definition trace_endpoint :: "trace_config \<Rightarrow> string" where
  "trace_endpoint cfg =
     (if tc_endpoint cfg \<noteq> [] then tc_endpoint cfg else ''from OTEL_EXPORTER_OTLP_ENDPOINT'')"

text \<open>A Start that works gives the line it logs at INFO.\<close>

definition trace_start :: "(string option \<Rightarrow> 'k goerr option) \<Rightarrow> (string \<Rightarrow> 'k goerr option) \<Rightarrow>
    trace_state \<Rightarrow> ('k goerr + info_line) \<times> trace_state" where
  "trace_start exporter merge s =
     (let cfg = ts_cfg s;
          ep = (if tc_endpoint cfg \<noteq> [] then Some (tc_endpoint cfg) else None) in
      case exporter ep of
        Some e \<Rightarrow> (Inl e, s)
      | None \<Rightarrow>
          (case trace_resource merge cfg of
             Inl e \<Rightarrow> (Inl e, s)
           | Inr service \<Rightarrow>
               (let tp = \<lparr>tp_endpoint = ep, tp_service = service,
                          tp_sampler = (if Finite 0 < tc_ratio cfg then Some (tc_ratio cfg) else None)\<rparr>
                in (Inr (''exporting traces'', [(''component'', AText trace_name), (''endpoint'', AText (trace_endpoint cfg))]),
                    s\<lparr>ts_tp := Some tp, ts_global := Some tp,
                      ts_propagators := [''tracecontext'', ''baggage'']\<rparr>))))"

definition trace_stop :: "(tracer_provider \<Rightarrow> 'k goerr option) \<Rightarrow> trace_state \<Rightarrow> 'k goerr option" where
  "trace_stop shutdown s = (case ts_tp s of None \<Rightarrow> None | Some tp \<Rightarrow> shutdown tp)"

section \<open>Middleware\<close>

definition is_rpc :: "'c request \<Rightarrow> bool" where
  "is_rpc r \<longleftrightarrow>
     has_prefix (hdr_get ''Content-Type'' (rq_header r)) ''application/grpc'' \<or>
     hdr_get ''Connect-Protocol-Version'' (rq_header r) \<noteq> []"

text \<open>\<open>otel\<close> is the middleware of otelhttp without its filter.\<close>

definition trace_middleware :: "('c, 'w) middleware \<Rightarrow> ('c, 'w) middleware" where
  "trace_middleware otel next r c = (if \<not> is_rpc r then otel next r c else next r c)"

definition route_of :: "string \<Rightarrow> string" where
  "route_of pattern = (case str_index pattern ''/'' of Some i \<Rightarrow> drop i pattern | None \<Rightarrow> [])"

text \<open>\<open>set_name\<close> is SetName and SetAttributes on the span of the request: the name, then the route.\<close>

definition route_span_name :: "(string \<Rightarrow> string \<Rightarrow> 'w \<Rightarrow> 'w) \<Rightarrow> ('c, 'w) middleware" where
  "route_span_name set_name next r c =
     (case next r c of
        (p, r2, c2) \<Rightarrow>
          (let route = route_of (rq_pattern r2) in
           (p, r2, if route = [] then c2
                   else c2\<lparr>cn_env := set_name (rq_method r2 @ '' '' @ route) route (cn_env c2)\<rparr>)))"

text \<open>The five entries; the logger they get is the one WithIDs returns, which is modelled below.\<close>

definition trace_default_middleware :: "('c, 'w) middleware \<Rightarrow> (string \<Rightarrow> string \<Rightarrow> 'w \<Rightarrow> 'w) \<Rightarrow>
    logger \<Rightarrow> ('c, 'w) middleware list" where
  "trace_default_middleware otel set_name lg =
     [request_id, trace_middleware otel, logging lg, recovery lg, route_span_name set_name]"

section \<open>The log handler\<close>

text \<open>
  A slog.Handler: a sink with the attributes it was given and the groups that were opened, or
  the wrapper of WithIDs round one. A span is its trace ID and its span ID.
\<close>

datatype slog_handler = Sink "string list" attrs | TraceHandler slog_handler

text \<open>Attributes given under open groups carry the groups' names, as the text handler prints them.\<close>

definition qualify :: "string list \<Rightarrow> attrs \<Rightarrow> attrs" where
  "qualify groups as = map (\<lambda>a. (concat (map (\<lambda>g. g @ ''.'') groups) @ fst a, snd a)) as"

fun with_attrs :: "attrs \<Rightarrow> slog_handler \<Rightarrow> slog_handler" where
  "with_attrs as (Sink gs done) = Sink gs (done @ qualify gs as)"
| "with_attrs as (TraceHandler h) = TraceHandler (with_attrs as h)"

fun with_group :: "string \<Rightarrow> slog_handler \<Rightarrow> slog_handler" where
  "with_group g (Sink gs done) = Sink (gs @ [g]) done"
| "with_group g (TraceHandler h) = TraceHandler (with_group g h)"

text \<open>Handle: the attributes of the line it writes, for the span of the context, if there is one.\<close>

fun handle_record :: "(string \<times> string) option \<Rightarrow> attrs \<Rightarrow> slog_handler \<Rightarrow> attrs" where
  "handle_record sp rec (Sink gs done) = done @ qualify gs rec"
| "handle_record sp rec (TraceHandler h) =
     handle_record sp
       (case sp of
          None \<Rightarrow> rec
        | Some (t, s) \<Rightarrow> rec @ [(''traceId'', AText t), (''spanId'', AText s)]) h"

definition with_ids :: "slog_handler \<Rightarrow> slog_handler" where
  "with_ids h = TraceHandler h"

section \<open>trace/rpc\<close>

text \<open>rpc.Options: \<open>interceptor\<close> is what otelconnect.NewInterceptor gave back.\<close>

definition rpc_options :: "'k goerr + 'i \<Rightarrow> 'k goerr + 'i list" where
  "rpc_options interceptor =
     (case interceptor of Inl e \<Rightarrow> Inl (ErrWrap ''trace/rpc: '' e) | Inr i \<Rightarrow> Inr [i])"

end
