(* ===== verification/Trace_Props.thy ===== *)
theory Trace_Props
  imports Trace Web_Props
begin

text \<open>
  What the tracing Starter promises: a span is named after the route the mux found, panic or
  not; an RPC gets no HTTP span; the IDs stay on every line however the logger is derived; and
  what Start builds is what the configuration says.
\<close>

section \<open>Spans\<close>

text \<open>
  A middleware that runs the handler below it once, on the same method and path, and leaves
  the rest of the process to it.
\<close>

definition passes_env :: "('c, 'w) middleware \<Rightarrow> bool" where
  "passes_env mw \<longleftrightarrow>
     (\<forall>next r c p r' c'. mw next r c = (p, r', c') \<longrightarrow>
        (\<exists>r1 c1 p1 r2 c2. next r1 c1 = (p1, r2, c2) \<and> rq_method r1 = rq_method r \<and>
           rq_path r1 = rq_path r \<and> cn_env c1 = cn_env c \<and> cn_env c' = cn_env c2))"

lemma passes_envD:
  assumes "passes_env mw" "mw next r c = (p, r', c')"
  obtains r1 c1 p1 r2 c2 where "next r1 c1 = (p1, r2, c2)" "rq_method r1 = rq_method r"
    "rq_path r1 = rq_path r" "cn_env c1 = cn_env c" "cn_env c' = cn_env c2"
  using assms unfolding passes_env_def by blast

lemma env_simps [simp]:
  "cn_env (access_line lg r t c) = cn_env c"
  "recover_handler lg p r c = (p', c') \<Longrightarrow> cn_env c' = cn_env c"
  by (auto simp: access_line_def recover_handler_def log_line_def Let_def split: prod.splits option.splits panic.splits if_splits)

lemma request_id_env: "passes_env request_id"
  unfolding passes_env_def request_id_def
  by (fastforce simp: new_request_id_def Let_def split: if_splits)

lemma logging_env: "passes_env (logging lg)"
proof (unfold passes_env_def, intro allI impI)
  fix h r c p r' and c' :: "'b conn"
  assume run: "logging lg h r c = (p, r', c')"
  let ?r1 = "with_logger (Some (log_with [(''requestId'',
    AText (hdr_get request_id_header (rw_header (cn_w c))))] lg)) r"
  let ?c1 = "if is_probe_path (rq_path ?r1) then c else c\<lparr>cn_w := Recorder new_recorder (cn_w c)\<rparr>"
  obtain p1 r2 c2 where h: "h ?r1 ?c1 = (p1, r2, c2)" by (meson prod_cases3)
  have "cn_env c' = cn_env c2"
    using run h by (auto simp: logging_def Let_def split: if_splits option.splits)
  with h show "\<exists>r1 c1 p1 r2 c2. h r1 c1 = (p1, r2, c2) \<and> rq_method r1 = rq_method r \<and>
      rq_path r1 = rq_path r \<and> cn_env c1 = cn_env c \<and> cn_env c' = cn_env c2"
    by (intro exI [of _ ?r1] exI [of _ ?c1] exI [of _ p1] exI [of _ r2] exI [of _ c2])
      (auto simp: with_logger_def)
qed

lemma recovery_env: "passes_env (recovery lg)"
proof (unfold passes_env_def, intro allI impI)
  fix h r c p r' and c' :: "'b conn"
  assume run: "recovery lg h r c = (p, r', c')"
  let ?c1 = "case cn_w c of Recorder m w \<Rightarrow> c | _ \<Rightarrow> c\<lparr>cn_w := Recorder new_recorder (cn_w c)\<rparr>"
  obtain p1 r2 c2 where h: "h r ?c1 = (p1, r2, c2)" by (meson prod_cases3)
  obtain p3 c3 where rc: "recover_handler lg p1 r2 c2 = (p3, c3)" by (meson surj_pair)
  have "cn_env c' = cn_env c3"
    using run h rc by (cases "cn_w c") (auto simp: recovery_def)
  with h env_simps(2) [OF rc] show "\<exists>r1 c1 p1 r2 c2. h r1 c1 = (p1, r2, c2) \<and> rq_method r1 = rq_method r \<and>
      rq_path r1 = rq_path r \<and> cn_env c1 = cn_env c \<and> cn_env c' = cn_env c2"
    by (intro exI [of _ r] exI [of _ ?c1] exI [of _ p1] exI [of _ r2] exI [of _ c2])
      (auto split: rw.split)
qed

lemma trace_middleware_env: "passes_env otel \<Longrightarrow> passes_env (trace_middleware otel)"
  unfolding passes_env_def trace_middleware_def by (metis (no_types, lifting))

lemma wrap_default_trace:
  "wrap_from (trace_default_middleware otel set_name lg) 5 h =
     request_id (trace_middleware otel (logging lg (recovery lg (route_span_name set_name h))))"
  by (simp add: trace_default_middleware_def eval_nat_numeral)

lemma route_span_env:
  assumes "route_span_name set_name h r c = (p, r', c')" "h r c = (p1, r2, c2)"
  shows "cn_env c' = (if route_of (rq_pattern r2) = [] then cn_env c2
    else set_name (rq_method r2 @ '' '' @ route_of (rq_pattern r2)) (route_of (rq_pattern r2)) (cn_env c2))"
  using assms by (auto simp: route_span_name_def Let_def)

text \<open>
  In the default stack the span of a request the mux routes is named by the method and
  the template of the route, exactly once and after the handler, whether the handler returned
  or panicked; the path the client asked for is never in the name. A request without a route
  leaves the span alone.
\<close>

theorem span_is_named_by_the_route:
  assumes "passes_env otel" "\<And>p h. map_of m p = Some h \<Longrightarrow> keeps_request h"
    and "\<And>p h r c p1 r2 c2. map_of m p = Some h \<Longrightarrow> h r c = (p1, r2, c2) \<Longrightarrow> rq_pattern r2 = rq_pattern r"
    and "pick (map fst m) (rq_method r) (rq_path r) = Inl pat" "map_of m pat = Some h"
    and "wrap_from (trace_default_middleware otel set_name lg) 5 (mux_serve pick m) r c = (p, r', c')"
  shows "\<exists>r1 c1 p1 r2 c2. h r1 c1 = (p1, r2, c2) \<and> rq_pattern r1 = pat \<and>
    cn_env c' = (if route_of pat = [] then cn_env c2
      else set_name (rq_method r @ '' '' @ route_of pat) (route_of pat) (cn_env c2))"
proof -
  let ?h = "route_span_name set_name (mux_serve pick m)"
  obtain ra ca pa rb cb where a: "trace_middleware otel (logging lg (recovery lg ?h)) ra ca = (pa, rb, cb)"
    "rq_method ra = rq_method r" "rq_path ra = rq_path r" "cn_env c' = cn_env cb"
    using passes_envD [OF request_id_env assms(6) [unfolded wrap_default_trace]] by metis
  obtain re ce pe rf cf where b: "logging lg (recovery lg ?h) re ce = (pe, rf, cf)"
    "rq_method re = rq_method ra" "rq_path re = rq_path ra" "cn_env cb = cn_env cf"
    using passes_envD [OF trace_middleware_env [OF assms(1)] a(1)] by metis
  obtain rg cg pg rh ch where d: "recovery lg ?h rg cg = (pg, rh, ch)"
    "rq_method rg = rq_method re" "rq_path rg = rq_path re" "cn_env cf = cn_env ch"
    using passes_envD [OF logging_env b(1)] by metis
  obtain ri ci pi rj cj where f: "?h ri ci = (pi, rj, cj)"
    "rq_method ri = rq_method rg" "rq_path ri = rq_path rg" "cn_env ch = cn_env cj"
    using passes_envD [OF recovery_env d(1)] by metis
  have req: "rq_method ri = rq_method r" "rq_path ri = rq_path r" using a b d f by simp_all
  obtain p1 r2 c2 where h: "h (ri\<lparr>rq_pattern := pat\<rparr>) ci = (p1, r2, c2)" by (meson prod_cases3)
  then have mux: "mux_serve pick m ri ci = (p1, r2, c2)"
    using assms(4,5) req by (simp add: mux_serve_def)
  have "rq_pattern r2 = pat" using assms(3) [OF assms(5) h] by simp
  moreover have "rq_method r2 = rq_method r"
    using assms(2) [OF assms(5)] h req unfolding keeps_request_def by force
  ultimately have "cn_env cj = (if route_of pat = [] then cn_env c2
      else set_name (rq_method r @ '' '' @ route_of pat) (route_of pat) (cn_env c2))"
    using route_span_env [OF f(1) mux] by simp
  with h a b d f show ?thesis
    by (intro exI [of _ "ri\<lparr>rq_pattern := pat\<rparr>"] exI [of _ ci] exI [of _ p1] exI [of _ r2] exI [of _ c2]) simp
qed

section \<open>Log lines\<close>

text \<open>The two ways a logger is derived: With and WithGroup.\<close>

datatype derivation = With attrs | WithGroup string

fun derive :: "slog_handler \<Rightarrow> derivation \<Rightarrow> slog_handler" where
  "derive h (With as) = with_attrs as h"
| "derive h (WithGroup g) = with_group g h"

lemma derive_ids: "\<exists>gs base'. foldl derive (with_ids (Sink gs0 base)) ds = with_ids (Sink gs base')"
proof (induction ds arbitrary: gs0 base)
  case (Cons d ds)
  have "\<exists>gs base'. derive (with_ids (Sink gs0 base)) d = with_ids (Sink gs base')"
    by (cases d) (auto simp: with_ids_def)
  with Cons show ?case by auto
qed (auto simp: with_ids_def)

text \<open>
  A logger made with WithIDs writes the trace and the span ID on every line logged under
  a span, however it was derived since with attributes and groups, after the attributes the
  line had; under no span it writes what the handler below writes.
\<close>

theorem ids_stay_on_every_line:
  "\<exists>gs base'. \<forall>rec.
     (\<forall>t s. handle_record (Some (t, s)) rec (foldl derive (with_ids (Sink [] base)) ds) =
        base' @ qualify gs (rec @ [(''traceId'', AText t), (''spanId'', AText s)])) \<and>
     handle_record None rec (foldl derive (with_ids (Sink [] base)) ds) = base' @ qualify gs rec"
proof -
  obtain gs base' where "foldl derive (with_ids (Sink [] base)) ds = with_ids (Sink gs base')"
    using derive_ids by blast
  then have d: "foldl derive (with_ids (Sink [] base)) ds = TraceHandler (Sink gs base')"
    by (simp add: with_ids_def)
  show ?thesis unfolding d by (intro exI [of _ gs] exI [of _ base']) simp
qed

section \<open>Configuration\<close>

text \<open>
  The range check on the sample ratio lets NaN through, and Start then treats it as not
  set: the sampler is left to the environment, which keeps every trace.
\<close>

theorem nan_ratio_is_accepted:
  "trace_new print \<lparr>tc_endpoint = [], tc_service = [], tc_ratio = NaN\<rparr> = None \<and>
   (\<exists>tp l s'. trace_start (\<lambda>_. None) (\<lambda>_. None)
      \<lparr>ts_cfg = \<lparr>tc_endpoint = [], tc_service = [], tc_ratio = NaN\<rparr>, ts_tp = None, ts_global = None,
       ts_propagators = []\<rparr> = (Inr l, s') \<and> ts_tp s' = Some tp \<and> tp_sampler tp = None)"
  by (simp add: trace_new_def trace_start_def trace_resource_def Let_def)

text \<open>
  A Start that succeeds installs the provider it will flush, with the endpoint and the
  service name of the configuration or the environment's, a sampler only for a ratio above
  zero, and both halves of W3C context; one that fails installs nothing. A Stop without a
  Start does nothing.
\<close>

theorem start_installs_what_stop_flushes:
  "(case trace_start exporter merge s of
      (Inr l, s') \<Rightarrow>
        (\<exists>tp. ts_tp s' = Some tp \<and> ts_global s' = Some tp \<and> trace_stop shutdown s' = shutdown tp \<and>
           (tp_endpoint tp = None \<longleftrightarrow> tc_endpoint (ts_cfg s) = []) \<and>
           (tp_service tp = None \<longleftrightarrow> tc_service (ts_cfg s) = []) \<and>
           (tp_sampler tp = None \<longleftrightarrow> \<not> Finite 0 < tc_ratio (ts_cfg s)) \<and>
           ts_propagators s' = [''tracecontext'', ''baggage''])
    | (Inl e, s') \<Rightarrow> s' = s)"
  by (auto simp: trace_start_def trace_resource_def trace_stop_def Let_def split: option.split sum.split)

section \<open>A concrete request\<close>

definition boom :: "(unit, string) handler" where
  "boom r c = (Some (PanicValue ''boom''), r, c)"

definition traced_conn :: "string conn" where
  "traced_conn =
     \<lparr>cn_w = Wire new_wire, cn_log = [], cn_level = 0, cn_clock = 0, cn_rand = (\<lambda>i. CHR 0x2A),
      cn_drawn = 0, cn_series = [], cn_env = ''GET''\<rparr>"

theorem span_is_named_by_the_route_witness:
  "\<exists>p r' c'. wrap_from (trace_default_middleware (\<lambda>next. next) (\<lambda>name route w. name) app_logger) 5
     (mux_serve (\<lambda>_ _ _. Inl ''GET /hello/{name}'') [(''GET /hello/{name}'', boom)]) sample_request traced_conn =
       (p, r', c') \<and> cn_env c' = ''GET /hello/{name}''"
proof -
  let ?m = "[(''GET /hello/{name}'', boom)]"
  let ?run = "wrap_from (trace_default_middleware (\<lambda>next. next) (\<lambda>name route w. name) app_logger) 5
     (mux_serve (\<lambda>_ _ _. Inl ''GET /hello/{name}'') ?m) sample_request traced_conn"
  obtain p r' c' where run: "?run = (p, r', c')" by (meson prod_cases3)
  have o: "passes_env (\<lambda>next :: (unit, string) handler. next)" by (fastforce simp: passes_env_def)
  have keeps: "map_of ?m q = Some h \<Longrightarrow> keeps_request h" for q h
    by (auto simp: keeps_request_def boom_def split: if_splits)
  have pattern: "map_of ?m q = Some h \<Longrightarrow> h r c = (p1, r2, c2) \<Longrightarrow> rq_pattern r2 = rq_pattern r" for q h r c p1 r2 c2
    by (auto simp: boom_def split: if_splits)
  have route: "route_of ''GET /hello/{name}'' = ''/hello/{name}''" by code_simp
  have "\<exists>r1 c1 p1 r2 c2. boom r1 c1 = (p1, r2, c2) \<and> rq_pattern r1 = ''GET /hello/{name}'' \<and>
      cn_env c' = (if route_of ''GET /hello/{name}'' = [] then cn_env c2
        else (\<lambda>name route w. name) (rq_method sample_request @ '' '' @ route_of ''GET /hello/{name}'')
               (route_of ''GET /hello/{name}'') (cn_env c2))"
    by (rule span_is_named_by_the_route [OF o _ _ _ _ run]; (erule keeps | erule (1) pattern | simp))
  then have "cn_env c' = ''GET /hello/{name}''"
    unfolding route by (auto simp: sample_request_def)
  with run show ?thesis by blast
qed

end
