(* ===== verification/Preset.thy ===== *)
theory Preset
  imports Actuator_Props Db Trace
begin

text \<open>
  The Presets (preset/preset.go, preset/traced/traced.go): one function that wires the base
  App, the database, the Actuator and the HTTP server, and its twin with tracing.

  A Component of the App is its name, its Tier and its methods; the methods act on the world
  and are collected in \<open>wiring\<close>, with what the constructors need of the outside. \<open>None\<close> is a
  run-time panic (a pattern mounted twice).
\<close>

record preset_config =
  pc_log :: log_config
  pc_lifecycle :: lifecycle_config
  pc_web :: web_config
  pc_db :: db_config
  pc_actuator :: actuator_config

record ('w, 'k) methods =
  m_start :: "('w, 'k goerr + nat option) call"
  m_stop :: "('w, 'k goerr option) call"

record ('c, 'w, 'k) wiring =
  wr_sql_open :: "string \<Rightarrow> string \<Rightarrow> 'k goerr option"
  wr_env :: "('c, 'w, 'k) actuator_env"
  wr_web :: "('w, 'k) methods"
  wr_db :: "('w, 'k) methods"
  wr_actuator :: "('w, 'k) methods"
  wr_trace :: "('w, 'k) methods"
  wr_db_check :: "('w, 'k goerr option) call"
  wr_actuator_drain :: "('w, unit) call"

text \<open>The Components as the App holds them: the Actuator drains, the database checks.\<close>

definition actuator_component :: "('c, 'w, 'k) wiring \<Rightarrow> ('w, 'k) component" where
  "actuator_component wr =
     \<lparr>c_name = actuator_name, c_tier = actuator_tier, c_start = m_start (wr_actuator wr),
      c_stop = m_stop (wr_actuator wr), c_drain = Some (wr_actuator_drain wr), c_check = None\<rparr>"

definition db_part :: "('c, 'w, 'k) wiring \<Rightarrow> ('w, 'k) component" where
  "db_part wr =
     \<lparr>c_name = db_name, c_tier = db_tier, c_start = m_start (wr_db wr), c_stop = m_stop (wr_db wr),
      c_drain = None, c_check = Some (wr_db_check wr)\<rparr>"

definition web_component :: "('c, 'w, 'k) wiring \<Rightarrow> ('w, 'k) component" where
  "web_component wr =
     \<lparr>c_name = web_name, c_tier = web_tier, c_start = m_start (wr_web wr), c_stop = m_stop (wr_web wr),
      c_drain = None, c_check = None\<rparr>"

definition trace_component :: "('c, 'w, 'k) wiring \<Rightarrow> ('w, 'k) component" where
  "trace_component wr =
     \<lparr>c_name = trace_name, c_tier = trace_tier, c_start = m_start (wr_trace wr),
      c_stop = m_stop (wr_trace wr), c_drain = None, c_check = None\<rparr>"

text \<open>What a Preset hands back, with the parts it keeps no field for.\<close>

record ('c, 'w, 'k) preset_app =
  pa_app :: "('w, 'k) app"
  pa_web :: "('c, 'w) server"
  pa_db :: pool
  pa_actuator :: "('c, 'w, 'k) actuator"

definition base_logger :: logger where
  "base_logger = \<lparr>lg_app = True, lg_attrs = []\<rparr>"

definition preset_full :: "('c, 'w, 'k) wiring \<Rightarrow> preset_config \<Rightarrow> bool \<Rightarrow>
    ('k goerr + ('c, 'w, 'k) preset_app) option" where
  "preset_full wr cfg migrations =
     (case app_new \<lparr>cfg_log = pc_log cfg, cfg_lifecycle = pc_lifecycle cfg\<rparr> of
        Inl e \<Rightarrow> Some (Inl e)
      | Inr app \<Rightarrow>
     (case db_new (wr_sql_open wr) (pc_db cfg) migrations of
        Inl e \<Rightarrow> Some (Inl e)
      | Inr (pool, database) \<Rightarrow>
     (case actuator_new (pc_actuator cfg) of
        Inl e \<Rightarrow> Some (Inl e)
      | Inr act \<Rightarrow>
     (case web_new (pc_web cfg) True of
        Inl e \<Rightarrow> Some (Inl e)
      | Inr srv \<Rightarrow>
     (case mount_on (wr_env wr) web_handle act (web_use (default_middleware base_logger) srv) of
        None \<Rightarrow> None
      | Some (act', srv') \<Rightarrow>
          Some (Inr \<lparr>pa_app = app_add [actuator_component wr, db_part wr, web_component wr] app,
                     pa_web = srv', pa_db = pool, pa_actuator = act'\<rparr>))))))"

text \<open>
  The tracing twin. \<open>print\<close>, \<open>otel\<close> and \<open>set_name\<close> are the parameters of the tracing Starter.
\<close>

definition traced_full :: "(float64 \<Rightarrow> string) \<Rightarrow> ('c, 'w) middleware \<Rightarrow>
    (string \<Rightarrow> string \<Rightarrow> 'w \<Rightarrow> 'w) \<Rightarrow> ('c, 'w, 'k) wiring \<Rightarrow> preset_config \<Rightarrow> trace_config \<Rightarrow> bool \<Rightarrow>
    ('k goerr + ('c, 'w, 'k) preset_app) option" where
  "traced_full print otel set_name wr cfg tcfg migrations =
     (case app_new \<lparr>cfg_log = pc_log cfg, cfg_lifecycle = pc_lifecycle cfg\<rparr> of
        Inl e \<Rightarrow> Some (Inl e)
      | Inr app \<Rightarrow>
     (case db_new (wr_sql_open wr) (pc_db cfg) migrations of
        Inl e \<Rightarrow> Some (Inl e)
      | Inr (pool, database) \<Rightarrow>
     (case trace_new print tcfg of
        Some e \<Rightarrow> Some (Inl e)
      | None \<Rightarrow>
     (case actuator_new (pc_actuator cfg) of
        Inl e \<Rightarrow> Some (Inl e)
      | Inr act \<Rightarrow>
     (case web_new (pc_web cfg) True of
        Inl e \<Rightarrow> Some (Inl e)
      | Inr srv \<Rightarrow>
     (case mount_on (wr_env wr) web_handle act
             (web_use (trace_default_middleware otel set_name base_logger) srv) of
        None \<Rightarrow> None
      | Some (act', srv') \<Rightarrow>
          Some (Inr \<lparr>pa_app = app_add [actuator_component wr, trace_component wr, db_part wr, web_component wr] app,
                     pa_web = srv', pa_db = pool, pa_actuator = act'\<rparr>)))))))"

end
