(* ===== verification/Preset_Props.thy ===== *)
theory Preset_Props
  imports Preset Lifecycle_Props
begin

text \<open>
  What a Preset promises of the composition: it never panics, the App it hands back starts
  its Components by Tier and accepts their names, the default middleware and the whitelisted
  endpoints are on the server; and the tracing twin wires the same with tracing added.
\<close>

section \<open>Mounting on a fresh server\<close>

text \<open>Mounting a route neither reads nor changes the middleware of the server.\<close>

abbreviation with_mw :: "('c, 'w) middleware list \<Rightarrow> ('c, 'w) server \<Rightarrow> ('c, 'w) server" where
  "with_mw mw s \<equiv> s\<lparr>sv_mw := mw\<rparr>"

lemma web_handle_mw: "web_handle q h (with_mw mw s) = map_option (with_mw mw) (web_handle q h s)"
  by (simp add: web_handle_def mux_handle_def)

lemma handle_all_mw:
  "handle_all web_handle rs (with_mw mw s) = map_option (with_mw mw) (handle_all web_handle rs s)"
proof (induction rs arbitrary: s)
  case (Cons e rs)
  then show ?case
    by (cases e; cases "web_handle (fst e) (snd e) s") (simp_all add: web_handle_mw)
qed simp

lemma routes_from_mw:
  "routes_from ae web_handle seen ns (with_mw mw s) = map_option (with_mw mw) (routes_from ae web_handle seen ns s)"
proof (induction ns arbitrary: seen s)
  case (Cons n ns)
  show ?case
  proof (cases "map_of (endpoints ae) n")
    case (Some rs)
    then show ?thesis
      using Cons by (cases "handle_all web_handle rs s") (simp_all add: handle_all_mw)
  qed (simp add: Cons)
qed simp

lemma mount_on_mw:
  "mount_on ae web_handle a (with_mw mw s) =
     map_option (\<lambda>x. (fst x, with_mw mw (snd x))) (mount_on ae web_handle a s)"
  by (simp add: mount_on_def routes_def routes_from_mw option.map_comp comp_def)

lemma web_use_fresh: "sv_mw s = [] \<Longrightarrow> web_use mw s = with_mw mw s"
  by (simp add: web_use_def)

lemma web_new_fresh: "web_new cfg b = Inr s \<Longrightarrow> sv_mw s = [] \<and> sv_mux s = []"
  by (auto simp: web_new_def split: if_splits)

lemma mount_fresh:
  assumes "actuator_new cfg = Inr a" "sv_mux s = []"
  shows "\<exists>a' s'. mount_on ae web_handle a (with_mw mw s) = Some (a', with_mw mw s') \<and>
    (if ac_addr cfg = []
     then at_own a' = None \<and> map fst (sv_mux s') = concat (map endpoint_patterns (dedup [] (ac_expose (at_cfg a))))
     else \<exists>m. at_own a' = Some (ac_addr cfg, m) \<and> sv_mux s' = [])"
proof -
  note new = actuator_new_expose [OF assms(1)]
  have own: "at_own a = None" using assms(1) by (auto simp: actuator_new_def Let_def split: option.splits)
  show ?thesis
  proof (cases "ac_addr cfg = []")
    case True
    from web_server.routes_mount [of "ac_expose (at_cfg a)" "[]" s ae] new assms(2)
    obtain s' where s': "routes ae web_handle a s = Some s'"
      "map fst (sv_mux s') = concat (map endpoint_patterns (dedup [] (ac_expose (at_cfg a))))"
      by (auto simp: routes_def)
    then have "mount_on ae web_handle a (with_mw mw s) = Some (a, with_mw mw s')"
      using True new by (simp add: mount_on_mw) (simp add: mount_on_def)
    with True s'(2) own show ?thesis by auto
  next
    case False
    from mux.routes_mount [of "ac_expose (at_cfg a)" "[]" "[]" ae] new
    obtain m where "routes ae mux_handle a [] = Some m" by (auto simp: routes_def)
    with False new assms(2) show ?thesis
      by (auto simp: mount_on_def intro!: exI [of _ s])
  qed
qed

section \<open>The Presets\<close>

lemmas preset_parts = actuator_component_def db_part_def web_component_def trace_component_def
  actuator_name_def db_name_def web_name_def trace_name_def actuator_tier_def db_tier_def web_tier_def
  trace_tier_def tier_observe_def tier_resource_def

definition exposed_names :: "actuator_config \<Rightarrow> string list" where
  "exposed_names cfg = (if ac_expose cfg = [] then [''livez'', ''readyz'', ''info''] else ac_expose cfg)"

lemma preset_wiring:
  fixes wr :: "('a, 'b, 'c) wiring"
  shows "\<exists>res. preset_full wr cfg migrations = Some res \<and>
    (case res of
       Inl e \<Rightarrow> True
     | Inr p \<Rightarrow>
         sv_mw (pa_web p) = default_middleware base_logger \<and>
         map c_name (sort_key c_tier (a_comps (pa_app p))) = [''actuator'', ''db'', ''web''] \<and>
         reject_duplicate_names (pa_app p) = None \<and>
         a_started (pa_app p) = 0 \<and> \<not> app_is_ready (pa_app p) \<and>
         map fst (sv_mux (pa_web p)) =
           (if ac_addr (pc_actuator cfg) = []
            then concat (map endpoint_patterns (dedup [] (exposed_names (pc_actuator cfg)))) else []) \<and>
         map_option fst (at_own (pa_actuator p)) =
           (if ac_addr (pc_actuator cfg) = [] then None else Some (ac_addr (pc_actuator cfg))))"
proof -
  consider (err) e where "preset_full wr cfg migrations = Some (Inl e)"
    | (ok) app pool database act srv where
      "app_new \<lparr>cfg_log = pc_log cfg, cfg_lifecycle = pc_lifecycle cfg\<rparr> = (Inr app :: 'c goerr + ('b, 'c) app)"
      "db_new (wr_sql_open wr) (pc_db cfg) migrations = Inr (pool, database)"
      "actuator_new (pc_actuator cfg) = (Inr act :: 'c goerr + ('a, 'b, 'c) actuator)"
      "web_new (pc_web cfg) True = (Inr srv :: 'c goerr + ('a, 'b) server)"
    by (cases "app_new \<lparr>cfg_log = pc_log cfg, cfg_lifecycle = pc_lifecycle cfg\<rparr> :: 'c goerr + ('b, 'c) app";
        cases "db_new (wr_sql_open wr) (pc_db cfg) migrations";
        cases "actuator_new (pc_actuator cfg) :: 'c goerr + ('a, 'b, 'c) actuator";
        cases "web_new (pc_web cfg) True :: 'c goerr + ('a, 'b) server";
        force simp: preset_full_def)
  then show ?thesis
  proof cases
    case err
    then show ?thesis by simp
  next
    case ok
    note fresh = web_new_fresh [OF ok(4)]
    from mount_fresh [OF ok(3) conjunct2 [OF fresh], of "wr_env wr" "default_middleware base_logger"]
    obtain act' s' where mount: "mount_on (wr_env wr) web_handle act (with_mw (default_middleware base_logger) srv) =
        Some (act', with_mw (default_middleware base_logger) s')"
      and where_mounted: "if ac_addr (pc_actuator cfg) = []
        then at_own act' = None \<and> map fst (sv_mux s') = concat (map endpoint_patterns (dedup [] (ac_expose (at_cfg act))))
        else \<exists>m. at_own act' = Some (ac_addr (pc_actuator cfg), m) \<and> sv_mux s' = []" by blast
    from where_mounted actuator_new_expose [OF ok(3)]
    have m: "map_option fst (at_own act') =
        (if ac_addr (pc_actuator cfg) = [] then None else Some (ac_addr (pc_actuator cfg)))"
      "map fst (sv_mux s') = (if ac_addr (pc_actuator cfg) = []
         then concat (map endpoint_patterns (dedup [] (exposed_names (pc_actuator cfg)))) else [])"
      by (auto simp: exposed_names_def split: if_splits)
    have app: "a_comps app = []" "a_started app = 0" "\<not> a_ready app"
      using ok(1) by (auto simp: app_new_def Let_def split: if_splits sum.splits)
    show ?thesis
      using ok mount m fresh app
      by (simp add: preset_full_def web_use_fresh preset_parts app_add_def app_is_ready_def
            reject_duplicate_names_def)
  qed
qed

text \<open>The App of a Preset: nothing of it runs, and its Components in their order.\<close>

lemma preset_app_idle:
  fixes wr :: "('a, 'b, 'c) wiring"
  assumes "preset_full wr cfg migrations = Some (Inr p)"
  shows "app_idle (pa_app p) \<and>
    a_comps (pa_app p) = [actuator_component wr, db_part wr, web_component wr]"
proof -
  obtain app srv' act' pool where app: "app_new \<lparr>cfg_log = pc_log cfg, cfg_lifecycle = pc_lifecycle cfg\<rparr> = (Inr app :: 'c goerr + ('b, 'c) app)"
    and p: "p = \<lparr>pa_app = app_add [actuator_component wr, db_part wr, web_component wr] app,
      pa_web = srv', pa_db = pool, pa_actuator = act'\<rparr>"
    using assms by (auto simp: preset_full_def split: sum.splits prod.splits option.splits)
  from app have "a_comps app = []" "app_idle app"
    by (auto simp: app_new_def Let_def app_idle_def life_inv_def split: if_splits sum.splits)
  then show ?thesis by (simp add: p app_add_def app_idle_def life_inv_def)
qed

text \<open>
  A Preset never panics, and what it hands back is wired as documented: the server has
  the default middleware in its order and, when the Actuator has no address of its own, every
  endpoint of the whitelist; the Components have names the App accepts and start as Actuator,
  database, server; nothing runs yet.
\<close>

theorem preset_wires_the_service:
  fixes wr :: "('a, 'b, 'c) wiring"
  shows "\<exists>res. preset_full wr cfg migrations = Some res \<and>
    (case res of
       Inl e \<Rightarrow> True
     | Inr p \<Rightarrow>
         sv_mw (pa_web p) = default_middleware base_logger \<and>
         map c_name (sort_key c_tier (a_comps (pa_app p))) = [''actuator'', ''db'', ''web''] \<and>
         reject_duplicate_names (pa_app p) = None \<and>
         a_started (pa_app p) = 0 \<and> \<not> app_is_ready (pa_app p) \<and>
         map fst (sv_mux (pa_web p)) =
           (if ac_addr (pc_actuator cfg) = []
            then concat (map endpoint_patterns (dedup [] (exposed_names (pc_actuator cfg)))) else []) \<and>
         map_option fst (at_own (pa_actuator p)) =
           (if ac_addr (pc_actuator cfg) = [] then None else Some (ac_addr (pc_actuator cfg))))"
  by (rule preset_wiring)

text \<open>
  The tracing twin wires what the Preset wires: with a trace section that New accepts it
  fails exactly when the Preset does, with the same error, and otherwise hands back the same
  App, server, pool and Actuator, with the tracing Component next to the Actuator and the
  five middleware in place of the three.
\<close>

theorem traced_preset_adds_only_tracing:
  assumes "trace_new print tcfg = (None :: 'k goerr option)"
  shows "traced_full print otel set_name (wr :: ('c, 'w, 'k) wiring) cfg tcfg migrations =
    map_option (map_sum id (\<lambda>p. p
      \<lparr>pa_app := (pa_app p)\<lparr>a_comps := take 1 (a_comps (pa_app p)) @ trace_component wr # drop 1 (a_comps (pa_app p))\<rparr>,
       pa_web := (pa_web p)\<lparr>sv_mw := trace_default_middleware otel set_name base_logger\<rparr>\<rparr>))
     (preset_full wr cfg migrations)"
proof -
  have mount: "mount_on (wr_env wr) web_handle act (web_use (trace_default_middleware otel set_name base_logger) srv) =
      map_option (\<lambda>x. (fst x, with_mw (trace_default_middleware otel set_name base_logger) (snd x)))
        (mount_on (wr_env wr) web_handle act (web_use (default_middleware base_logger) srv))"
    if "web_new (pc_web cfg) True = (Inr srv :: 'k goerr + ('c, 'w) server)" for act srv
    using web_new_fresh [OF that] by (simp add: web_use_fresh mount_on_mw option.map_comp comp_def)
  have comps: "a_comps app = []"
    if "app_new \<lparr>cfg_log = pc_log cfg, cfg_lifecycle = pc_lifecycle cfg\<rparr> = (Inr app :: 'k goerr + ('w, 'k) app)" for app
    using that by (auto simp: app_new_def Let_def split: if_splits sum.splits)
  show ?thesis
    using mount comps assms
    by (auto simp: traced_full_def preset_full_def app_add_def split: sum.split prod.split option.split)
qed

theorem traced_preset_adds_only_tracing_witness:
  "trace_new (\<lambda>_. []) \<lparr>tc_endpoint = [], tc_service = ''orders'', tc_ratio = Finite 0\<rparr> = (None :: unit goerr option) \<and>
   (\<forall>(wr :: (unit, unit, unit) wiring) cfg.
      (traced_full (\<lambda>_. []) (\<lambda>next. next) (\<lambda>n r w. w) wr cfg
         \<lparr>tc_endpoint = [], tc_service = ''orders'', tc_ratio = Finite 0\<rparr> True = None) =
      (preset_full wr cfg True = None))"
proof -
  have t: "trace_new (\<lambda>_. []) \<lparr>tc_endpoint = [], tc_service = ''orders'', tc_ratio = Finite 0\<rparr> = (None :: unit goerr option)"
    by (simp add: trace_new_def)
  show ?thesis using t by (simp add: traced_preset_adds_only_tracing [OF t])
qed

end
