(* ===== verification/Service.thy ===== *)
theory Service
  imports Grpc Preset Config
begin

text \<open>
  The service the goboot command writes (cmd/goboot/scaffold/grpc): the typed handlers of its
  transport package, and the greeting feature with its repository, its service layer and its
  two adapters, HTTP and gRPC.

  The database driver is a parameter: what the query answers. \<open>ErrExt\<close> carries the error values
  the service can tell apart; \<open>'k\<close> is the rest of them.
\<close>

section \<open>internal/transport\<close>

text \<open>What sql.Row.Scan and the layers above it give back as an error.\<close>

datatype 'k sql_err = NoRows | DriverErr 'k

datatype 'k app_err = StatusErr int string | NotFound | Sql "'k sql_err"

type_synonym 'k app_error = "'k app_err goerr"

definition app_err_text :: "('k sql_err \<Rightarrow> string) \<Rightarrow> 'k app_err \<Rightarrow> string" where
  "app_err_text txt e =
     (case e of StatusErr n d \<Rightarrow> d | NotFound \<Rightarrow> ''greeting: not found'' | Sql x \<Rightarrow> txt x)"

definition status :: "int \<Rightarrow> string \<Rightarrow> 'k app_error" where
  "status n d = ErrExt (StatusErr n d)"

definition as_status :: "'k app_error \<Rightarrow> (int \<times> string) option" where
  "as_status e = errors_as (\<lambda>k. case k of StatusErr n d \<Rightarrow> Some (n, d) | _ \<Rightarrow> None) e"

datatype ('k, 'a) outcome = Value 'a | Fails "'k app_error" | Panics panic

text \<open>A typed handler takes its request value, and acts like a call of a Component's method.\<close>

type_synonym ('w, 'k, 'q, 's) typed_handler = "'q \<Rightarrow> ('w, ('k, 's) outcome) call"

type_synonym ('c, 'k, 'q) bind_fn = "'c request \<Rightarrow> ('k, 'q) outcome"

definition answer_with :: "(rw \<Rightarrow> panic option \<times> rw) \<Rightarrow> ('c, 'w) handler" where
  "answer_with f r c = (case f (cn_w c) of (p, w') \<Rightarrow> (p, r, c\<lparr>cn_w := w'\<rparr>))"

definition typed_handle :: "('k sql_err \<Rightarrow> string) \<Rightarrow> ('s \<Rightarrow> json option) \<Rightarrow> ('c, 'k, 'q) bind_fn \<Rightarrow>
    ('w, 'k, 'q, 's) typed_handler \<Rightarrow> ('c, 'w) handler" where
  "typed_handle txt enc bind h r c =
     (case bind r of
        Panics p \<Rightarrow> (Some p, r, c)
      | Fails e \<Rightarrow> answer_with (write_problem 400 (err_text (app_err_text txt) e)) r c
      | Value q \<Rightarrow>
          (case h q (rq_ctx r) (cn_clock c) (cn_env c) of
             (res, t, w) \<Rightarrow>
               (let c1 = c\<lparr>cn_clock := t, cn_env := w\<rparr> in
                case res of
                  Panics p \<Rightarrow> (Some p, r, c1)
                | Fails e \<Rightarrow>
                    (case as_status e of
                       Some (n, d) \<Rightarrow> answer_with (write_problem n d) r c1
                     | None \<Rightarrow>
                         answer_with (write_problem 500 ''internal error'') r
                           (log_line (logger_from r) level_error ''handler failed''
                              [(''err'', AText (err_text (app_err_text txt) e))] c1))
                | Value s \<Rightarrow> answer_with (write_json 200 (enc s)) r c1)))"

definition no_body :: "('c, 'k, unit) bind_fn" where
  "no_body r = Value ()"

section \<open>internal/greeting\<close>

record greeting =
  gr_id :: int
  gr_lang :: string
  gr_message :: string
  gr_created_at :: time

text \<open>The repository: \<open>query\<close> is the SELECT by language with its Scan.\<close>

definition by_lang :: "(string \<Rightarrow> ('w, 'k sql_err goerr + greeting) call) \<Rightarrow> string \<Rightarrow>
    ('w, 'k app_error + greeting) call" where
  "by_lang query lang x t w =
     (case query lang x t w of
        (Inl e, t', w') \<Rightarrow>
          (Inl (if errors_is (\<lambda>k. k = NoRows) e then ErrExt NotFound else map_goerr Sql e), t', w')
      | (Inr g, t', w') \<Rightarrow> (Inr g, t', w'))"

text \<open>The service layer, on whatever repository it is given.\<close>

definition greet :: "(string \<Rightarrow> ('w, 'k app_error + greeting) call) \<Rightarrow> string \<Rightarrow> string \<Rightarrow>
    ('w, 'k app_error + string) call" where
  "greet repo fallback name x t w =
     (case repo ''en'' x t w of
        (Inl e, t', w') \<Rightarrow>
          (if errors_is (\<lambda>k. k = NotFound) e then Inr (fallback @ '' '' @ name) else Inl e, t', w')
      | (Inr g, t', w') \<Rightarrow> (Inr (gr_message g @ '' '' @ name), t', w'))"

section \<open>internal/greeting/rest\<close>

text \<open>\<open>path_value\<close> is Request.PathValue of \<open>name\<close>, which the mux fills in.\<close>

definition bind_greet :: "('c request \<Rightarrow> string) \<Rightarrow> ('c, 'k, string) bind_fn" where
  "bind_greet path_value r = Value (path_value r)"

definition rest_greet :: "(string \<Rightarrow> ('w, 'k app_error + string) call) \<Rightarrow>
    ('w, 'k, string, string) typed_handler" where
  "rest_greet svc name x t w =
     (case svc name x t w of
        (Inl e, t', w') \<Rightarrow> (Fails e, t', w')
      | (Inr out, t', w') \<Rightarrow> (Value out, t', w'))"

definition greet_response :: "string \<Rightarrow> json option" where
  "greet_response out = Some (JObject [(''greeting'', JString out)])"

definition rest_handler :: "('k sql_err \<Rightarrow> string) \<Rightarrow> ('c request \<Rightarrow> string) \<Rightarrow>
    (string \<Rightarrow> ('w, 'k app_error + string) call) \<Rightarrow> ('c, 'w) handler" where
  "rest_handler txt path_value svc =
     typed_handle txt greet_response (bind_greet path_value) (rest_greet svc)"

definition rest_routes :: "('k sql_err \<Rightarrow> string) \<Rightarrow> ('c request \<Rightarrow> string) \<Rightarrow>
    (string \<Rightarrow> ('w, 'k app_error + string) call) \<Rightarrow> ('c, 'w) server \<Rightarrow> ('c, 'w) server option" where
  "rest_routes txt path_value svc srv =
     web_handle ''GET /hello/{name}'' (rest_handler txt path_value svc) srv"

section \<open>internal/greeting/rpc\<close>

text \<open>
  The two methods on a request with the given name; the service's error is returned bare.
  \<open>send\<close> is the Send of the stream.
\<close>

definition rpc_greet :: "(string \<Rightarrow> ('w, 'k app_error + string) call) \<Rightarrow> string \<Rightarrow>
    ('c, 'w, string, 'k app_err) rpc" where
  "rpc_greet svc name procedure r c =
     (case svc name (rq_ctx r) (cn_clock c) (cn_env c) of
        (Inl e, t, w) \<Rightarrow> (RpcEnd None (Some (map_goerr ForeignError e)), c\<lparr>cn_clock := t, cn_env := w\<rparr>)
      | (Inr out, t, w) \<Rightarrow> (RpcEnd (Some out) None, c\<lparr>cn_clock := t, cn_env := w\<rparr>))"

definition rpc_greet_stream :: "(string \<Rightarrow> ('w, 'k app_error + string) call) \<Rightarrow> string \<Rightarrow>
    (string \<Rightarrow> 'w conn \<Rightarrow> 'k app_err rpc_error option \<times> 'w conn) \<Rightarrow> ('c, 'w, string, 'k app_err) rpc" where
  "rpc_greet_stream svc name send procedure r c =
     (case svc name (rq_ctx r) (cn_clock c) (cn_env c) of
        (Inl e, t, w) \<Rightarrow> (RpcEnd None (Some (map_goerr ForeignError e)), c\<lparr>cn_clock := t, cn_env := w\<rparr>)
      | (Inr out, t, w) \<Rightarrow>
          (case send out (c\<lparr>cn_clock := t, cn_env := w\<rparr>) of (e, c') \<Rightarrow> (RpcEnd None e, c')))"

text \<open>
  \<open>connect\<close> is the generated constructor: the path and the handler of a service whose methods
  run under the options it is given.
\<close>

type_synonym ('c, 'w, 'k) greet_methods =
  "(string \<Rightarrow> ('c, 'w, string, 'k app_err) rpc) \<times>
   (string \<Rightarrow> (string \<Rightarrow> 'w conn \<Rightarrow> 'k app_err rpc_error option \<times> 'w conn) \<Rightarrow> ('c, 'w, string, 'k app_err) rpc)"

definition greet_service :: "('c, 'w, string, 'k app_err) recoverer \<Rightarrow> ('k sql_err \<Rightarrow> string) \<Rightarrow> logger \<Rightarrow>
    (string \<Rightarrow> ('w, 'k app_error + string) call) \<Rightarrow> ('c, 'w, 'k) greet_methods" where
  "greet_service recover_with txt lg svc =
     (\<lambda>name. default_unary recover_with (app_err_text txt) lg (rpc_greet svc name),
      \<lambda>name send. default_streaming recover_with (app_err_text txt) lg (rpc_greet_stream svc name send))"

definition rpc_routes :: "(('c, 'w, 'k) greet_methods \<Rightarrow> string \<times> ('c, 'w) handler) \<Rightarrow>
    ('c, 'w, string, 'k app_err) recoverer \<Rightarrow> ('k sql_err \<Rightarrow> string) \<Rightarrow> logger \<Rightarrow>
    (string \<Rightarrow> ('w, 'k app_error + string) call) \<Rightarrow> ('c, 'w) server \<Rightarrow> ('c, 'w) server option" where
  "rpc_routes connect recover_with txt lg svc srv =
     (case connect (greet_service recover_with txt lg svc) of (path, h) \<Rightarrow> web_handle path h srv)"

section \<open>routes.go\<close>

definition add_routes :: "(('c, 'w, 'k) greet_methods \<Rightarrow> string \<times> ('c, 'w) handler) \<Rightarrow>
    ('c, 'w, string, 'k app_err) recoverer \<Rightarrow> ('k sql_err \<Rightarrow> string) \<Rightarrow> ('c request \<Rightarrow> string) \<Rightarrow>
    (string \<Rightarrow> ('w, 'k sql_err goerr + greeting) call) \<Rightarrow> string \<Rightarrow> ('c, 'w) server \<Rightarrow>
    ('c, 'w) server option" where
  "add_routes connect recover_with txt path_value query fallback srv =
     (let svc = greet (by_lang query) fallback in
      case rest_routes txt path_value svc srv of
        None \<Rightarrow> None
      | Some srv1 \<Rightarrow> rpc_routes connect recover_with txt base_logger svc srv1)"

section \<open>main.go\<close>

text \<open>The service's configuration: the Preset's sections and its own key, with its default.\<close>

record service_config =
  sc_preset :: preset_config
  sc_greeting :: string

definition zero_preset :: preset_config where
  "zero_preset =
     \<lparr>pc_log = \<lparr>log_level = [], log_format = []\<rparr>,
      pc_lifecycle = \<lparr>start_timeout = 0, drain_delay = 0, stop_timeout = 0\<rparr>,
      pc_web = \<lparr>wc_addr = [], wc_read_header_timeout = 0, wc_idle_timeout = 0, wc_max_body = 0,
        wc_cert_file = [], wc_key_file = []\<rparr>,
      pc_db = \<lparr>dc_dsn = [], dc_driver = [], dc_max_open = 0, dc_max_idle = 0, dc_idle_time = 0,
        dc_life_time = 0, dc_migrate = False\<rparr>,
      pc_actuator = \<lparr>ac_addr = [], ac_expose = [], ac_show_details = []\<rparr>\<rparr>"

definition service_load :: "('y, 'k) externals \<Rightarrow> ('y cmap \<Rightarrow> service_config \<Rightarrow> 'k goerr + service_config) \<Rightarrow>
    'k machine \<Rightarrow> 'k goerr + service_config" where
  "service_load x dec mc =
     load x dec mc ''app.yaml'' ''MYSERVICE_'' \<lparr>sc_preset = zero_preset, sc_greeting = ''hello''\<rparr>"

text \<open>
  The migrate subcommand on a loaded configuration. What happens to the pool is recorded; the
  deferred Close comes last on every path behind db.New.
\<close>

datatype migrate_event = PoolOpened | MigrationsRun | CountLogged nat | PoolClosed

definition service_migrate :: "(string \<Rightarrow> string \<Rightarrow> 'k goerr option) \<Rightarrow> 'k goerr option \<Rightarrow>
    (provider \<Rightarrow> 'k goerr option) \<Rightarrow> (provider \<Rightarrow> 'w \<Rightarrow> ('k goerr + nat) \<times> 'w) \<Rightarrow>
    'k goerr + service_config \<Rightarrow> 'w \<Rightarrow> 'k goerr option \<times> migrate_event list \<times> 'w" where
  "service_migrate sql_open new_locker goose up loaded w =
     (case loaded of
        Inl e \<Rightarrow> (Some e, [], w)
      | Inr cfg \<Rightarrow>
     (let pc = sc_preset cfg in
      case (app_new \<lparr>cfg_log = pc_log pc, cfg_lifecycle = pc_lifecycle pc\<rparr> :: 'k goerr + ('w, 'k) app) of
        Inl e \<Rightarrow> (Some e, [], w)
      | Inr app \<Rightarrow>
     (case db_new sql_open (pc_db pc) True of
        Inl e \<Rightarrow> (Some e, [], w)
      | Inr (pool, database) \<Rightarrow>
     (case new_provider new_locker goose (dc_driver (pc_db pc)) of
        Inl e \<Rightarrow> (Some e, [PoolOpened, PoolClosed], w)
      | Inr provider \<Rightarrow>
     (case up provider w of
        (Inl e, w1) \<Rightarrow> (Some e, [PoolOpened, MigrationsRun, PoolClosed], w1)
      | (Inr n, w1) \<Rightarrow> (None, [PoolOpened, MigrationsRun, CountLogged n, PoolClosed], w1))))))"

text \<open>
  serve: load, the Preset, the routes and App.Run, which is a relation. \<open>None\<close> is a panic of the
  wiring.
\<close>

inductive service_serve :: "('k goerr + service_config) \<Rightarrow> ('c, 'w, 'k) wiring \<Rightarrow>
    (string \<Rightarrow> ('c, 'w) server \<Rightarrow> ('c, 'w) server option) \<Rightarrow> ctx \<Rightarrow> time option \<Rightarrow> 'w world \<Rightarrow>
    'k goerr option option \<Rightarrow> 'w world \<Rightarrow> bool"
  for loaded :: "'k goerr + service_config" and wr :: "('c, 'w, 'k) wiring"
    and routes_on :: "string \<Rightarrow> ('c, 'w) server \<Rightarrow> ('c, 'w) server option"
    and c :: ctx and sig :: "time option" and w :: "'w world" where
  load_fails: "loaded = Inl e \<Longrightarrow> service_serve loaded wr routes_on c sig w (Some (Some e)) w"
| preset_fails:
    "loaded = Inr cfg \<Longrightarrow> preset_full wr (sc_preset cfg) True = Some (Inl e) \<Longrightarrow>
     service_serve loaded wr routes_on c sig w (Some (Some e)) w"
| preset_panics:
    "loaded = Inr cfg \<Longrightarrow> preset_full wr (sc_preset cfg) True = None \<Longrightarrow>
     service_serve loaded wr routes_on c sig w None w"
| routes_panic:
    "loaded = Inr cfg \<Longrightarrow> preset_full wr (sc_preset cfg) True = Some (Inr p) \<Longrightarrow>
     routes_on (sc_greeting cfg) (pa_web p) = None \<Longrightarrow>
     service_serve loaded wr routes_on c sig w None w"
| serves:
    "loaded = Inr cfg \<Longrightarrow> preset_full wr (sc_preset cfg) True = Some (Inr p) \<Longrightarrow>
     routes_on (sc_greeting cfg) (pa_web p) = Some srv \<Longrightarrow> app_run c sig (pa_app p) w r a' w' \<Longrightarrow>
     service_serve loaded wr routes_on c sig w (Some r) w'"

end
