(* ===== verification/Service_Props.thy ===== *)
theory Service_Props
  imports Service Grpc_Props Preset_Props
begin

text \<open>
  What the service the goboot command writes promises: both its adapters answer alike, an error
  of the driver says nothing to either kind of caller, its routes keep the contract of a
  handler, and they mount beside everything a Preset has mounted.
\<close>

section \<open>Errors through the layers\<close>

lemma errors_as_map: "errors_as p (map_goerr f e) = errors_as (\<lambda>k. p (f k)) e"
proof (induction e)
  case (ErrJoin es)
  then have "map (errors_as p) (map (map_goerr f) es) = map (errors_as (\<lambda>k. p (f k))) es" by simp
  then show ?case by (simp del: map_map)
qed auto

lemma errors_as_never [simp]: "errors_as (\<lambda>_. None) e = None"
proof (induction e)
  case (ErrJoin es)
  then show ?case by (induction es) auto
qed auto

lemma foreign_error [simp]: "as_connect (map_goerr ForeignError e) = None"
  by (simp add: as_connect_def errors_as_map)

lemma sql_error [simp]:
  "as_status (map_goerr Sql e) = None" "\<not> errors_is (\<lambda>k. k = NotFound) (map_goerr Sql e)"
  by (simp_all add: as_status_def errors_is_def errors_as_map)

lemma not_found_error [simp]:
  "as_status (ErrExt NotFound) = None" "errors_is (\<lambda>k. k = NotFound) (ErrExt NotFound)"
  by (simp_all add: as_status_def errors_is_def)

section \<open>The service layer\<close>

text \<open>What the caller is owed for what the query answered; \<open>None\<close> is a failure.\<close>

definition owed :: "string \<Rightarrow> string \<Rightarrow> 'k sql_err goerr + greeting \<Rightarrow> string option" where
  "owed fallback name res =
     (case res of
        Inr g \<Rightarrow> Some (gr_message g @ '' '' @ name)
      | Inl e \<Rightarrow> if errors_is (\<lambda>k. k = NoRows) e then Some (fallback @ '' '' @ name) else None)"

lemma greet_owes:
  assumes "query ''en'' x t w = (res, t', w')"
  shows "greet (by_lang query) fallback name x t w =
    (case owed fallback name res of
       Some out \<Rightarrow> (Inr out, t', w')
     | None \<Rightarrow> (Inl (map_goerr Sql (projl res)), t', w'))"
  using assms by (auto simp: greet_def by_lang_def owed_def split: sum.split)

section \<open>The adapters\<close>

lemma answer_with_problem:
  "\<exists>w'. write_problem 500 d w = (None, w')"
  using write_problem_ok [OF valid_status_500] by (metis surj_pair)

lemma rest_handler_answers:
  assumes "query ''en'' (rq_ctx r) (cn_clock c) (cn_env c) = (res, t, w)"
  shows "\<exists>p c'. rest_handler pr path_value (greet (by_lang query) fallback) r c = (p, r, c') \<and>
    (p, cn_w c') = (case owed fallback (path_value r) res of
       Some out \<Rightarrow> write_json 200 (greet_response out) (cn_w c)
     | None \<Rightarrow> write_problem 500 ''internal error'' (cn_w c))"
  by (auto simp: rest_handler_def typed_handle_def bind_greet_def rest_greet_def greet_owes [where query = query, OF assms]
      answer_with_def Let_def split: option.splits prod.splits)

text \<open>
  C17: Both adapters answer a name alike, whatever the database says: the stored message, the
  fallback when there is no row, each as a 200 document over HTTP and as the response over
  gRPC; and for any other error, of which not a byte reaches either caller, the fixed 500
  document and the bare code unknown.
\<close>

theorem both_adapters_answer_alike:
  assumes "lawful_recover recover_with"
    and "query ''en'' (rq_ctx r) (cn_clock c) (cn_env c) = (res, t, w)" "path_value r = name"
  shows "(\<exists>p c'. rest_handler pr path_value (greet (by_lang query) fallback) r c = (p, r, c') \<and>
     (p, cn_w c') =
       (case owed fallback name res of
          Some out \<Rightarrow> write_json 200 (Some (JObject [(''greeting'', JString out)])) (cn_w c)
        | None \<Rightarrow> write_problem 500 ''internal error'' (cn_w c))) \<and>
    fst (fst (greet_service recover_with pr lg (greet (by_lang query) fallback)) name procedure r c) =
       (case owed fallback name res of
          Some out \<Rightarrow> RpcEnd (Some out) None
        | None \<Rightarrow> RpcEnd None (Some (connect_error code_unknown ''unknown'')))"
proof
  show "\<exists>p c'. rest_handler pr path_value (greet (by_lang query) fallback) r c = (p, r, c') \<and>
     (p, cn_w c') =
       (case owed fallback name res of
          Some out \<Rightarrow> write_json 200 (Some (JObject [(''greeting'', JString out)])) (cn_w c)
        | None \<Rightarrow> write_problem 500 ''internal error'' (cn_w c))"
    using rest_handler_answers [where path_value = path_value and query = query and fallback = fallback
        and pr = pr, OF assms(2)] assms(3)
    by (cases "owed fallback name res") (simp_all add: greet_response_def)
  show "fst (fst (greet_service recover_with pr lg (greet (by_lang query) fallback)) name procedure r c) =
       (case owed fallback name res of
          Some out \<Rightarrow> RpcEnd (Some out) None
        | None \<Rightarrow> RpcEnd None (Some (connect_error code_unknown ''unknown'')))"
    using greet_owes [where query = query, OF assms(2), of fallback name]
    by (simp add: greet_service_def default_unary_def lawful_recoverD [OF assms(1)] wrap_unary_def
        rpc_greet_def clean_def split: option.split)
qed

section \<open>The routes\<close>

text \<open>The HTTP route keeps the contract of a handler, so the library's lemmas apply to its stack.\<close>

lemma write_json_ok: "valid_status n \<Longrightarrow> write_json n v w = (p, w') \<Longrightarrow> p = None \<and> rw_steps w w'"
  unfolding write_json_def by (rule respond_ok)

interpretation greeting_route: http_handler "rest_handler pr path_value (greet (by_lang query) fallback)"
  for pr path_value query fallback
proof
  fix r c p r' c'
  let ?h = "rest_handler pr path_value (greet (by_lang query) fallback)"
  assume run: "?h r c = (p, r', c')"
  obtain res t w where q: "query ''en'' (rq_ctx r) (cn_clock c) (cn_env c) = (res, t, w)"
    by (metis prod_cases3)
  from rest_handler_answers [where query = query and pr = pr and path_value = path_value
      and fallback = fallback, OF q] run
  have "(p, cn_w c') = (case owed fallback (path_value r) res of
       Some out \<Rightarrow> write_json 200 (greet_response out) (cn_w c)
     | None \<Rightarrow> write_problem 500 ''internal error'' (cn_w c))" by auto
  then show "rw_steps (cn_w c) (cn_w c')"
    using write_json_ok [of 200 _ "cn_w c" p "cn_w c'"]
      write_problem_ok [OF valid_status_500, of _ "cn_w c" p "cn_w c'"]
    by (simp add: eq_commute split: option.splits)
  show "\<exists>es. cn_log c' = cn_log c @ es"
    using run
    by (auto simp: rest_handler_def typed_handle_def bind_greet_def rest_greet_def answer_with_def Let_def
        split: option.splits prod.splits sum.splits outcome.splits if_splits)
qed

lemma patterns_of_an_endpoint: "q \<in> set (endpoint_patterns n) \<Longrightarrow> q \<in> all_patterns"
  by (auto simp: all_patterns_def endpoint_names_def endpoint_patterns_def split: if_splits)

lemma hello_is_no_endpoint: "''GET /hello/{name}'' \<notin> all_patterns"
  by (simp add: all_patterns_def endpoint_names_def endpoint_patterns_def)

text \<open>
  The routes of the service mount on the server of a Preset: the HTTP route never collides
  with an endpoint of the Actuator, and the gRPC path only if it is one of those patterns.
  They come after what was mounted, behind the same middleware.
\<close>

theorem service_mounts_beside_the_preset:
  fixes wr :: "('c, 'w, 'k) wiring"
  assumes "preset_full wr cfg migrations = Some (Inr p)"
    and "\<And>ms. fst (connect ms) = path" "path \<noteq> ''GET /hello/{name}''" "path \<notin> all_patterns"
  shows "\<exists>srv. add_routes connect recover_with pr path_value query fallback (pa_web p) = Some srv \<and>
    map fst (sv_mux srv) = map fst (sv_mux (pa_web p)) @ [''GET /hello/{name}'', path] \<and>
    sv_mw srv = default_middleware base_logger"
proof -
  have mw: "sv_mw (pa_web p) = default_middleware base_logger"
    and m: "set (map fst (sv_mux (pa_web p))) \<subseteq> all_patterns"
    using preset_wiring [of wr cfg migrations] assms(1) patterns_of_an_endpoint
    by (auto split: if_splits)
  have "''GET /hello/{name}'' \<notin> fst ` set (sv_mux (pa_web p))" "path \<notin> fst ` set (sv_mux (pa_web p))"
    using m assms(4) hello_is_no_endpoint by auto
  moreover obtain h where
    "connect (greet_service recover_with pr base_logger (greet (by_lang query) fallback)) = (path, h)"
    using assms(2) by (metis prod.collapse)
  ultimately show ?thesis using assms(3) mw
    by (simp add: add_routes_def rest_routes_def rpc_routes_def web_handle_def mux_handle_def Let_def)
qed

section \<open>Concrete runs\<close>

definition failing_query :: "string \<Rightarrow> (unit, unit sql_err goerr + greeting) call" where
  "failing_query lang x t w = (Inl (ErrWrap ''scan: '' (ErrExt (DriverErr ()))), t, w)"

theorem both_adapters_answer_alike_witness:
  "(\<exists>c'. rest_handler (\<lambda>_. ''pq: password authentication failed'') (\<lambda>_. ''ada'')
       (greet (by_lang failing_query) ''hello'') sample_request sample_conn = (None, sample_request, c') \<and>
     cn_w c' = snd (write_problem 500 ''internal error'' (cn_w sample_conn))) \<and>
   fst (fst (greet_service connect_recover (\<lambda>_. ''pq: password authentication failed'') app_logger
       (greet (by_lang failing_query) ''hello'')) ''ada'' ''/greet.v1.GreetService/Greet'' sample_request sample_conn) =
     RpcEnd None (Some (connect_error code_unknown ''unknown''))"
proof -
  have q: "failing_query ''en'' (rq_ctx sample_request) (cn_clock sample_conn) (cn_env sample_conn) =
      (Inl (ErrWrap ''scan: '' (ErrExt (DriverErr ()))), cn_clock sample_conn, cn_env sample_conn)"
    by (simp add: failing_query_def)
  have o: "owed ''hello'' ''ada'' (Inl (ErrWrap ''scan: '' (ErrExt (DriverErr ()))) :: unit sql_err goerr + greeting) = None"
    by (simp add: owed_def)
  obtain w' where w': "write_problem 500 ''internal error'' (cn_w sample_conn) = (None, w')"
    using answer_with_problem by blast
  from both_adapters_answer_alike [where query = failing_query and path_value = "\<lambda>_. ''ada''" and fallback = "''hello''"
      and pr = "\<lambda>_. ''pq: password authentication failed''" and lg = app_logger,
      OF connect_recover_lawful q refl, of "''/greet.v1.GreetService/Greet''"]
  show ?thesis by (auto simp: o w')
qed

definition idle_handler :: "(unit, unit) handler" where
  "idle_handler r c = (None, r, c)"

definition sample_wiring :: "(unit, unit, unit) wiring" where
  "sample_wiring =
     (let m = \<lparr>m_start = \<lambda>x t w. (Inr None, t, w), m_stop = \<lambda>x t w. (None, t, w)\<rparr> in
      \<lparr>wr_sql_open = \<lambda>_ _. None,
       wr_env = \<lparr>ae_text = \<lambda>_. [], ae_view = \<lambda>_. sample_view, ae_build = None, ae_decode = \<lambda>_. Inr [],
         ae_metrics = idle_handler, ae_profile = \<lambda>_. idle_handler, ae_index = idle_handler,
         ae_cmdline = idle_handler, ae_cpu = idle_handler, ae_trace = idle_handler, ae_symbol = idle_handler\<rparr>,
       wr_web = m, wr_db = m, wr_actuator = m, wr_trace = m,
       wr_db_check = \<lambda>x t w. (None, t, w), wr_actuator_drain = \<lambda>x t w. ((), t, w)\<rparr>)"

definition sample_preset :: preset_config where
  "sample_preset =
     \<lparr>pc_log = \<lparr>log_level = [], log_format = []\<rparr>,
      pc_lifecycle = \<lparr>start_timeout = 0, drain_delay = 0, stop_timeout = 0\<rparr>,
      pc_web = \<lparr>wc_addr = [], wc_read_header_timeout = 0, wc_idle_timeout = 0, wc_max_body = 0,
        wc_cert_file = [], wc_key_file = []\<rparr>,
      pc_db = \<lparr>dc_dsn = ''d'', dc_driver = [], dc_max_open = 0, dc_max_idle = 0, dc_idle_time = 0,
        dc_life_time = 0, dc_migrate = False\<rparr>,
      pc_actuator = \<lparr>ac_addr = [], ac_expose = [], ac_show_details = []\<rparr>\<rparr>"

lemma sample_preset_full: "\<exists>p. preset_full sample_wiring sample_preset True = Some (Inr p)"
proof -
  obtain res where res: "preset_full sample_wiring sample_preset True = Some res"
    using preset_wiring [of sample_wiring sample_preset True] by blast
  moreover have "\<not> isl res"
    using res
    by (auto simp: preset_full_def sample_preset_def sample_wiring_def app_new_def db_new_def actuator_new_def
        web_new_def endpoint_names_def Let_def split: option.splits prod.splits)
  ultimately show ?thesis by (cases res) auto
qed

theorem service_mounts_beside_the_preset_witness:
  "\<exists>(p :: (unit, unit, unit) preset_app) srv. preset_full sample_wiring sample_preset True = Some (Inr p) \<and>
     add_routes (\<lambda>_. (''/greet.v1.GreetService/'', \<lambda>r c. (None, r, c))) connect_recover (\<lambda>_. []) (\<lambda>_. ''ada'')
       failing_query ''hello'' (pa_web p) = Some srv"
proof -
  obtain p :: "(unit, unit, unit) preset_app" where p: "preset_full sample_wiring sample_preset True = Some (Inr p)"
    using sample_preset_full by blast
  have path: "''/greet.v1.GreetService/'' \<notin> all_patterns" "''/greet.v1.GreetService/'' \<noteq> ''GET /hello/{name}''"
    by (simp_all add: all_patterns_def endpoint_names_def endpoint_patterns_def)
  show ?thesis
    using service_mounts_beside_the_preset [OF p, where connect = "\<lambda>_. (''/greet.v1.GreetService/'', \<lambda>r c. (None, r, c))"
        and query = failing_query, OF _ path(2,1)] p
    by fastforce
qed

section \<open>main\<close>

text \<open>
  The service wires itself without a panic and leaves nothing running: whatever Load and the
  constructors answer, however the App's Run ends, every Component that was started has been
  stopped, in the reverse order.
\<close>

theorem serve_stops_what_it_started:
  fixes wr :: "('c, 'w, 'k) wiring"
  assumes "service_serve loaded wr (\<lambda>fallback. add_routes connect recover_with pr path_value query fallback)
      c sig w res w'"
    and "\<And>ms. fst (connect ms) = path" "path \<noteq> ''GET /hello/{name}''" "path \<notin> all_patterns"
  shows "res \<noteq> None \<and> (\<exists>new. trace w' = trace w @ new \<and> stopped_names new = rev (started_names new))"
  using assms(1)
proof cases
  case (preset_panics cfg)
  with preset_wiring [of wr "sc_preset cfg" True] show ?thesis by auto
next
  case (routes_panic cfg p)
  from service_mounts_beside_the_preset [where connect = connect and recover_with = recover_with and pr = pr
      and path_value = path_value and query = query and fallback = "sc_greeting cfg", OF routes_panic(4) assms(2-4)]
    routes_panic(5) show ?thesis by simp
next
  case (serves cfg p srv r a')
  with run_balanced [OF conjunct1 [OF preset_app_idle [OF serves(3)]] serves(5)] show ?thesis by auto
qed (auto intro: exI [of _ "[]"])

text \<open>
  With no driver in the configuration serving uses the default, and the migrate subcommand does
  not: it hands NewProvider the driver as it was before db.New filled the default in, and fails
  where Start on the same configuration and an up-to-date schema succeeds.
\<close>

theorem migrate_does_not_know_the_default_driver:
  fixes w :: 'w
  shows "service_migrate (\<lambda>_ _. None) None (\<lambda>_. None) (\<lambda>_ w. (Inr 0, w))
       (Inr \<lparr>sc_preset = zero_preset, sc_greeting = ''hello''\<rparr>) w =
     (Some (ErrText (''db.driver: no goose dialect for '' @ quote [] @
        ''; supported drivers are pgx, postgres, mysql, sqlite, sqlite3'')) :: 'k goerr option,
      [PoolOpened, PoolClosed], w) \<and>
   (\<exists>pool database. db_new (\<lambda>_ _. None :: 'k goerr option) (pc_db zero_preset) True = Inr (pool, database) \<and>
      db_start (\<lambda>w. (None, w)) None (\<lambda>_. None) (\<lambda>_ w. (Inr 0, w)) (\<lambda>_ w. (Inr False, w)) database w =
        (None :: 'k goerr option, [], w))"
  by (simp add: service_migrate_def zero_preset_def app_new_def db_new_def db_defaults_def new_provider_def
      dialect_of_def db_start_def Let_def)

text \<open>A run of the sample service that a signal ends.\<close>

abbreviation sample_routes :: "string \<Rightarrow> (unit, unit) server \<Rightarrow> (unit, unit) server option" where
  "sample_routes \<equiv> (\<lambda>fallback. add_routes (\<lambda>_. (''/greet.v1.GreetService/'', \<lambda>r c. (None, r, c)))
     connect_recover (\<lambda>_. []) (\<lambda>_. ''ada'') failing_query fallback)"

lemma sample_path: "''/greet.v1.GreetService/'' \<noteq> ''GET /hello/{name}''" "''/greet.v1.GreetService/'' \<notin> all_patterns"
  by (simp_all add: all_patterns_def endpoint_names_def endpoint_patterns_def)

lemma sample_starts_up:
  fixes a :: "(unit, unit) app"
  assumes "a_comps a = [actuator_component sample_wiring, db_part sample_wiring, web_component sample_wiring]"
  shows "\<exists>a1 w1. app_start c a ex_world = Some (None, a1, w1) \<and> clock w1 = 0"
  using assms
  by (simp add: app_start_def reject_duplicate_names_def preset_parts sample_wiring_def perform_def watch_def
      Let_def ex_world_def emit_def)

theorem serve_stops_what_it_started_witness:
  "\<exists>res w'. service_serve (Inr \<lparr>sc_preset = sample_preset, sc_greeting = ''hello''\<rparr>) sample_wiring sample_routes
       ex_ctx (Some 5) ex_world (Some res) w' \<and>
     (\<exists>new. trace w' = trace ex_world @ new \<and> stopped_names new = rev (started_names new))"
proof -
  obtain p :: "(unit, unit, unit) preset_app" where p: "preset_full sample_wiring sample_preset True = Some (Inr p)"
    using sample_preset_full by blast
  note idle = preset_app_idle [OF p]
  let ?c = "notify_context ex_ctx (Some 5)"
  from sample_starts_up [OF conjunct2 [OF idle], of ?c] obtain a1 w1
    where start: "app_start ?c (pa_app p) ex_world = Some (None, a1, w1)" and t: "clock w1 = 0" by blast
  obtain r a3 w3 where stop: "app_stop (without_cancel ex_ctx) a1
      (emit ShuttingDownLog (emit RunningLog w1\<lparr>clock := 5, env := ()\<rparr>)) = Some (r, a3, w3)"
    using app_stop_spec [OF conjunct1 [OF app_start_idle [OF conjunct1 [OF idle] start]]] by blast
  have run: "app_run ex_ctx (Some 5) (pa_app p) ex_world (errors_join [None, r]) a3 w3"
    by (rule run_signal [OF start rtranclp.rtrancl_refl _ _ stop])
      (simp_all add: t notify_context_def ctx_done_def ex_ctx_def)
  obtain srv where srv: "sample_routes ''hello'' (pa_web p) = Some srv"
    using service_mounts_beside_the_preset [OF p, where connect = "\<lambda>_. (''/greet.v1.GreetService/'', \<lambda>r c. (None, r, c))"
        and query = failing_query, OF _ sample_path] by fastforce
  have "service_serve (Inr \<lparr>sc_preset = sample_preset, sc_greeting = ''hello''\<rparr>) sample_wiring sample_routes
       ex_ctx (Some 5) ex_world (Some (errors_join [None, r])) w3"
    by (rule serves [OF refl]) (use p srv run in auto)
  with serve_stops_what_it_started [OF this fst_conv sample_path] show ?thesis by blast
qed

end
