(* ===== verification/Kafka_Loop.thy ===== *)
theory Kafka_Loop
  imports Kafka
begin

text \<open>
  The running Kafka consumer (kafka/kafka.go): the fetch loop, the goroutines of its batch,
  Drain and Stop, in every interleaving.

  A poll gives whatever it gives. \<open>commit\<close> is the client's CommitRecords; its first argument
  says whether the context it was handed is still alive. \<open>kl_taken\<close> holds the records of the
  batches the loop began, \<open>kl_handled\<close> those the Handler returned no error for, \<open>kl_commits\<close>
  what each commit was called with.
\<close>

datatype 'k loop_at = LoopTop | InPoll | Fetched fetches | InBatch "'k worker list" | LoopDone

record ('w, 'k) kafka_run =
  kl_comp :: kafka_state
  kl_at :: "'k loop_at"
  kl_errc :: "fetch_err goerr list"
  kl_taken :: "krecord list"
  kl_handled :: "krecord list"
  kl_commits :: "(krecord list \<times> bool) list"
  kl_world :: 'w

definition kafka_run_start :: "(client_opt list \<Rightarrow> 'k goerr option) \<Rightarrow> 'k goerr option \<Rightarrow>
    kafka_config \<Rightarrow> 'w \<Rightarrow> 'k goerr + ('w, 'k) kafka_run" where
  "kafka_run_start new_client ping cfg w =
     (case kafka_start new_client ping (kafka_state_new cfg) of
        (Some e, s) \<Rightarrow> Inl e
      | (None, s) \<Rightarrow> Inr \<lparr>kl_comp = s, kl_at = LoopTop, kl_errc = [], kl_taken = [],
                        kl_handled = [], kl_commits = [], kl_world = w\<rparr>)"

abbreviation kl_alive :: "('w, 'k) kafka_run \<Rightarrow> bool" where
  "kl_alive s \<equiv> \<not> kst_ctx_cancelled (kl_comp s)"

text \<open>What a step of a goroutine adds to the records it has handled.\<close>

definition newly_handled :: "'k worker \<Rightarrow> 'k worker \<Rightarrow> krecord list" where
  "newly_handled k k' = drop (length (wk_ok k)) (wk_ok k')"

section \<open>The loop\<close>

inductive kafka_loop_step :: "(bool \<Rightarrow> krecord list \<Rightarrow> 'w \<Rightarrow> 'k goerr option \<times> 'w) \<Rightarrow>
    ('w, 'k) khandler \<Rightarrow> ('w, 'k) kafka_run \<Rightarrow> ('w, 'k) kafka_run \<Rightarrow> bool"
  for commit :: "bool \<Rightarrow> krecord list \<Rightarrow> 'w \<Rightarrow> 'k goerr option \<times> 'w" and h :: "('w, 'k) khandler" where
  sees_closing:
    "kl_at s = LoopTop \<Longrightarrow> kst_closing (kl_comp s) \<Longrightarrow>
     kafka_loop_step commit h s (s\<lparr>kl_at := LoopDone\<rparr>)"
| polls:
    "kl_at s = LoopTop \<Longrightarrow> \<not> kst_closing (kl_comp s) \<Longrightarrow>
     kafka_loop_step commit h s (s\<lparr>kl_at := InPoll\<rparr>)"
| poll_returns:
    "kl_at s = InPoll \<Longrightarrow> kafka_loop_step commit h s (s\<lparr>kl_at := Fetched fs, kl_world := w'\<rparr>)"
| lets_go:
    "kl_at s = Fetched fs \<Longrightarrow> ft_closed fs \<or> kst_poll_cancelled (kl_comp s) \<Longrightarrow>
     kafka_loop_step commit h s (s\<lparr>kl_at := LoopDone\<rparr>)"
| is_refused:
    "kl_at s = Fetched fs \<Longrightarrow> \<not> ft_closed fs \<Longrightarrow> \<not> kst_poll_cancelled (kl_comp s) \<Longrightarrow>
     refusal (kafka_name (kst_cfg (kl_comp s))) (ft_errors fs) = Some e \<Longrightarrow>
     kafka_loop_step commit h s
       (s\<lparr>kl_comp := kafka_set_fatal e (kl_comp s), kl_errc := kl_errc s @ [e], kl_at := LoopDone\<rparr>)"
| batch_begins:
    "kl_at s = Fetched fs \<Longrightarrow> \<not> ft_closed fs \<Longrightarrow> \<not> kst_poll_cancelled (kl_comp s) \<Longrightarrow>
     refusal (kafka_name (kst_cfg (kl_comp s))) (ft_errors fs) = None \<Longrightarrow>
     kafka_loop_step commit h s
       (s\<lparr>kl_at := InBatch (map new_worker (ft_partitions fs)),
          kl_taken := kl_taken s @ concat (ft_partitions fs)\<rparr>)"
| handler_returns:
    "kl_at s = InBatch ks \<Longrightarrow> i < length ks \<Longrightarrow> \<not> wk_returned (ks ! i) \<Longrightarrow>
     worker_step (\<lambda>_. kl_alive s) h (ks ! i) (kl_world s) = (k', w') \<Longrightarrow>
     kafka_loop_step commit h s
       (s\<lparr>kl_at := InBatch (ks[i := k']), kl_handled := kl_handled s @ newly_handled (ks ! i) k',
          kl_world := w'\<rparr>)"
| batch_is_committed:
    "kl_at s = InBatch ks \<Longrightarrow> batch_finished ks \<Longrightarrow> mset ok = mset (concat (map wk_ok ks)) \<Longrightarrow>
     ok \<noteq> [] \<Longrightarrow> commit (kl_alive s) ok (kl_world s) = (e, w') \<Longrightarrow>
     kafka_loop_step commit h s
       (s\<lparr>kl_at := LoopTop, kl_commits := kl_commits s @ [(ok, kl_alive s)], kl_world := w'\<rparr>)"
| batch_has_nothing:
    "kl_at s = InBatch ks \<Longrightarrow> batch_finished ks \<Longrightarrow> concat (map wk_ok ks) = [] \<Longrightarrow>
     kafka_loop_step commit h s (s\<lparr>kl_at := LoopTop\<rparr>)"

section \<open>With Drain and Stop\<close>

text \<open>
  Stop runs Drain and then waits. It ends when the loop is done, or when its own context
  expires, which may be at any time.
\<close>

inductive kafka_step :: "(bool \<Rightarrow> krecord list \<Rightarrow> 'w \<Rightarrow> 'k goerr option \<times> 'w) \<Rightarrow>
    ('w, 'k) khandler \<Rightarrow> ('w, 'k) kafka_run \<Rightarrow> ('w, 'k) kafka_run \<Rightarrow> bool"
  for commit :: "bool \<Rightarrow> krecord list \<Rightarrow> 'w \<Rightarrow> 'k goerr option \<times> 'w" and h :: "('w, 'k) khandler" where
  loop: "kafka_loop_step commit h s s' \<Longrightarrow> kafka_step commit h s s'"
| drain_sets_the_flag:
    "kafka_step commit h s (s\<lparr>kl_comp := kafka_drain_flag (kl_comp s)\<rparr>)"
| drain_cancels_the_polls:
    "kst_closing (kl_comp s) \<Longrightarrow>
     kafka_step commit h s (s\<lparr>kl_comp := kafka_drain_cancel (kl_comp s)\<rparr>)"
| stop_ends:
    "kst_running (kl_comp s) \<Longrightarrow> kst_closing (kl_comp s) \<Longrightarrow> kst_poll_cancelled (kl_comp s) \<Longrightarrow>
     kafka_step commit h s (s\<lparr>kl_comp := kafka_stop_end (kl_comp s)\<rparr>)"

text \<open>A call of Stop, with the case its select took: the loop was done, or not.\<close>

definition kafka_run_stop :: "bool \<Rightarrow> 'k goerr \<Rightarrow> ('w, 'k) kafka_run \<Rightarrow>
    'k goerr option \<times> ('w, 'k) kafka_run" where
  "kafka_run_stop clean ctx_err s =
     (case kafka_stop clean ctx_err (kl_comp s) of (r, k) \<Rightarrow> (r, s\<lparr>kl_comp := k\<rparr>))"

inductive_cases kafka_loop_elim: "kafka_loop_step commit h s s'"

inductive_cases kafka_step_elim: "kafka_step commit h s s'"

end
