(* ===== verification/Kafka_Loop_Props.thy ===== *)
theory Kafka_Loop_Props
  imports Kafka_Loop Kafka_Props State_Machine
begin

text \<open>
  What the running Kafka consumer promises in every interleaving with Drain and Stop: what was
  handled is committed once, under a context that is alive as long as no Stop has ended; after
  Drain no new batch begins and the loop ends; the death is one refusal of the broker.
\<close>

section \<open>The accounts of the loop\<close>

lemma mset_concat_update:
  "i < length xs \<Longrightarrow>
     mset (concat (map f (xs[i := y]))) + mset (f (xs ! i)) = mset (concat (map f xs)) + mset (f y)"
proof (induction xs arbitrary: i)
  case (Cons x xs)
  show ?case
  proof (cases i)
    case (Suc j)
    with Cons.prems have "j < length xs" by simp
    from Cons.IH [OF this] show ?thesis by (simp add: Suc add.assoc)
  qed (simp add: ac_simps)
qed simp

lemma worker_step_adds:
  assumes "worker_step alive h k w = (k', w')"
  shows "wk_ok k' = wk_ok k @ newly_handled k k'"
    and "mset (newly_handled k k') + mset (wk_todo k') \<subseteq># mset (wk_todo k)"
    and "r \<in> set (newly_handled k k') \<Longrightarrow> handled h r"
  using assms
  by (auto simp: worker_step_def newly_handled_def intro: handledI
      split: list.splits prod.splits option.splits)

lemma new_worker_simps [simp]:
  "wk_todo \<circ> new_worker = id" "wk_ok \<circ> new_worker = (\<lambda>_. [])"
  by (auto simp: new_worker_def)

definition in_hand :: "('k worker \<Rightarrow> krecord list) \<Rightarrow> 'k loop_at \<Rightarrow> krecord multiset" where
  "in_hand f l = (case l of InBatch ks \<Rightarrow> mset (concat (map f ks)) | _ \<Rightarrow> {#})"

lemma in_hand_simps [simp]:
  "in_hand f LoopTop = {#}" "in_hand f InPoll = {#}" "in_hand f (Fetched fs) = {#}"
  "in_hand f LoopDone = {#}" "in_hand f (InBatch ks) = mset (concat (map f ks))"
  by (simp_all add: in_hand_def)

text \<open>
  Records handled are committed or in the hands of the batch; records taken cover those handled
  and those the batch has still to do.
\<close>

definition account_inv :: "('w, 'k) khandler \<Rightarrow> ('w, 'k) kafka_run \<Rightarrow> bool" where
  "account_inv h s \<longleftrightarrow>
     mset (kl_handled s) = mset (concat (map fst (kl_commits s))) + in_hand wk_ok (kl_at s) \<and>
     mset (kl_handled s) + in_hand wk_todo (kl_at s) \<subseteq># mset (kl_taken s) \<and>
     (\<forall>r \<in> set (kl_handled s). handled h r)"

lemma account_inv_handler:
  assumes inv: "account_inv h s" and at: "kl_at s = InBatch ks" and i: "i < length ks"
    and step: "worker_step alive h (ks ! i) w = (k', w')"
  shows "account_inv h (s\<lparr>kl_at := InBatch (ks[i := k']),
    kl_handled := kl_handled s @ newly_handled (ks ! i) k', kl_world := w'\<rparr>)"
proof -
  let ?new = "newly_handled (ks ! i) k'"
  note adds = worker_step_adds [OF step]
  have "mset (concat (map wk_ok (ks[i := k']))) + mset (wk_ok (ks ! i)) =
      mset (concat (map wk_ok ks)) + mset ?new + mset (wk_ok (ks ! i))"
    unfolding mset_concat_update [OF i] by (subst adds(1)) (simp only: mset_append add_ac)
  then have ok: "mset (concat (map wk_ok (ks[i := k']))) = mset (concat (map wk_ok ks)) + mset ?new"
    by simp
  have "mset ?new + mset (concat (map wk_todo (ks[i := k']))) + mset (wk_todo (ks ! i)) =
      mset (concat (map wk_todo ks)) + (mset ?new + mset (wk_todo k'))"
    using mset_concat_update [OF i, of wk_todo k'] by (simp add: add_ac)
  also have "\<dots> \<subseteq># mset (concat (map wk_todo ks)) + mset (wk_todo (ks ! i))"
    using adds(2) by simp
  finally have todo: "mset ?new + mset (concat (map wk_todo (ks[i := k']))) \<subseteq># mset (concat (map wk_todo ks))"
    by simp
  have "mset (kl_handled s) + mset ?new + mset (concat (map wk_todo (ks[i := k']))) \<subseteq># mset (kl_taken s)"
    using inv at todo
    by (auto simp: account_inv_def add.assoc intro: subset_mset.order_trans [OF subset_mset.add_left_mono])
  with inv at ok adds(3) show ?thesis by (auto simp: account_inv_def add_ac)
qed

lemma account_inv_loop: "kafka_loop_step commit h s s' \<Longrightarrow> account_inv h s \<Longrightarrow> account_inv h s'"
proof (induction rule: kafka_loop_step.induct)
  case (handler_returns s ks i k' w')
  from account_inv_handler [OF handler_returns(5) handler_returns(1,2,4)] show ?case .
next
  case (batch_begins s fs)
  then show ?case by (auto simp: account_inv_def)
next
  case (batch_is_committed s ks ok e w')
  then show ?case
    by (auto simp: account_inv_def intro: subset_mset.order_trans [OF mset_subset_eq_add_left])
next
  case (batch_has_nothing s ks)
  then have "in_hand wk_ok (kl_at s) = {#}" by simp
  with batch_has_nothing(4) show ?case unfolding account_inv_def
    by (auto intro: subset_mset.order_trans [OF mset_subset_eq_add_left])
qed (auto simp: account_inv_def)

lemma account_inv_step: "kafka_step commit h s s' \<Longrightarrow> account_inv h s \<Longrightarrow> account_inv h s'"
proof (induction rule: kafka_step.induct)
  case (loop s s')
  then show ?case by (rule account_inv_loop)
qed (auto simp: account_inv_def)

interpretation account: kept_by_steps "kafka_step commit h" "account_inv h" for commit h
  by unfold_locales (rule account_inv_step)

section \<open>The flags and the death\<close>

lemmas kafka_comp_defs = kafka_drain_flag_def kafka_drain_cancel_def kafka_stop_end_def kafka_set_fatal_def

definition a_refusal :: "kafka_config \<Rightarrow> fetch_err goerr \<Rightarrow> bool" where
  "a_refusal cfg e \<longleftrightarrow> (\<exists>p e'. broker_error e' \<and> \<not> retriable e' \<and> \<not> canceled e' \<and>
     e = refusal_of (kafka_name cfg) p e')"

lemma refusal_is_a_refusal: "refusal (kafka_name cfg) es = Some e \<Longrightarrow> a_refusal cfg e"
  unfolding a_refusal_def by (drule refusal_names_a_broker_error) blast

definition control_inv :: "kafka_config \<Rightarrow> ('w, 'k) kafka_run \<Rightarrow> bool" where
  "control_inv cfg s \<longleftrightarrow>
     kst_cfg (kl_comp s) = cfg \<and> kst_running (kl_comp s) \<and>
     (kst_poll_cancelled (kl_comp s) \<longrightarrow> kst_closing (kl_comp s)) \<and>
     (kst_ctx_cancelled (kl_comp s) \<longrightarrow> kst_poll_cancelled (kl_comp s)) \<and>
     (kl_alive s \<longrightarrow> (\<forall>c \<in> set (kl_commits s). snd c)) \<and>
     kl_errc s = (case kst_fatal (kl_comp s) of None \<Rightarrow> [] | Some e \<Rightarrow> [e]) \<and>
     (\<forall>e. kst_fatal (kl_comp s) = Some e \<longrightarrow> kl_at s = LoopDone \<and> a_refusal cfg e)"

lemma control_inv_loop: "kafka_loop_step commit h s s' \<Longrightarrow> control_inv cfg s \<Longrightarrow> control_inv cfg s'"
proof (induction rule: kafka_loop_step.induct)
  case (is_refused s fs e)
  then show ?case
    by (auto simp: control_inv_def kafka_set_fatal_def dest: refusal_is_a_refusal split: option.splits)
qed (auto simp: control_inv_def split: option.splits)

lemma control_inv_step: "kafka_step commit h s s' \<Longrightarrow> control_inv cfg s \<Longrightarrow> control_inv cfg s'"
proof (induction rule: kafka_step.induct)
  case (loop s s')
  then show ?case by (rule control_inv_loop)
qed (auto simp: control_inv_def kafka_comp_defs)

interpretation control: kept_by_steps "kafka_step commit h" "control_inv cfg" for commit h cfg
  by unfold_locales (rule control_inv_step)

abbreviation kafka_reaches :: "(bool \<Rightarrow> krecord list \<Rightarrow> 'w \<Rightarrow> 'k goerr option \<times> 'w) \<Rightarrow>
    ('w, 'k) khandler \<Rightarrow> ('w, 'k) kafka_run \<Rightarrow> ('w, 'k) kafka_run \<Rightarrow> bool" where
  "kafka_reaches commit h \<equiv> (kafka_step commit h)\<^sup>*\<^sup>*"

lemma start_inv:
  assumes "kafka_run_start new_client ping cfg w = Inr s"
  shows "account_inv h s" "control_inv cfg s"
  using assms
  by (auto simp: kafka_run_start_def kafka_start_def kafka_state_new_def account_inv_def control_inv_def
      split: prod.splits option.splits sum.splits)

text \<open>
  However the loop, Drain and Stop take turns, the consumer dies at most once: what Check
  reports is what went down the death channel, the loop has returned, and it is an error of a
  fetch that is the broker refusing, neither a cancellation nor one the client retries, named
  with the Component and the partition.
\<close>

theorem kafka_dies_of_a_refusal:
  assumes "kafka_run_start new_client ping cfg w = Inr s0" "kafka_reaches commit h s0 s"
  shows "kl_errc s = (case kafka_check (kl_comp s) of None \<Rightarrow> [] | Some e \<Rightarrow> [e]) \<and>
    (\<forall>e. kafka_check (kl_comp s) = Some e \<longrightarrow> kl_at s = LoopDone \<and>
       (\<exists>p e'. broker_error e' \<and> \<not> retriable e' \<and> \<not> canceled e' \<and>
          e = refusal_of (kafka_name cfg) p e'))"
  using control.run_keeps [OF assms(2) start_inv(2) [OF assms(1)]]
  by (simp add: control_inv_def kafka_check_def a_refusal_def)

section \<open>Stopping\<close>

text \<open>Stop is a run of the machine: Drain's two parts and the end.\<close>

lemma kafka_stop_reaches:
  assumes "kst_running (kl_comp s)"
  shows "kafka_reaches commit h s (snd (kafka_run_stop clean e s))"
proof -
  let ?s1 = "s\<lparr>kl_comp := kafka_drain_flag (kl_comp s)\<rparr>"
  let ?s2 = "?s1\<lparr>kl_comp := kafka_drain_cancel (kl_comp ?s1)\<rparr>"
  let ?s3 = "?s2\<lparr>kl_comp := kafka_stop_end (kl_comp ?s2)\<rparr>"
  have "kafka_step commit h s ?s1" by (rule drain_sets_the_flag)
  moreover have "kafka_step commit h ?s1 ?s2"
    by (rule drain_cancels_the_polls) (simp add: kafka_drain_flag_def)
  moreover have "kafka_step commit h ?s2 ?s3"
    by (rule stop_ends) (use assms in \<open>simp_all add: kafka_comp_defs\<close>)
  moreover have "snd (kafka_run_stop clean e s) = ?s3"
    using assms by (simp add: kafka_run_stop_def kafka_stop_def kafka_drain_def)
  ultimately show ?thesis by (metis (no_types) rtranclp.rtrancl_into_rtrancl rtranclp.rtrancl_refl)
qed

text \<open>After the loop has returned nothing of it moves again.\<close>

definition settled_as :: "('w, 'k) kafka_run \<Rightarrow> ('w, 'k) kafka_run \<Rightarrow> bool" where
  "settled_as s0 s \<longleftrightarrow> kl_at s = LoopDone \<and> kl_handled s = kl_handled s0 \<and>
     kl_commits s = kl_commits s0 \<and> kl_world s = kl_world s0 \<and>
     (kst_client_open (kl_comp s) \<longrightarrow> kst_client_open (kl_comp s0))"

interpretation after_return: kept_by_steps "kafka_step commit h" "settled_as s0" for commit h s0
proof
  fix s s'
  assume "kafka_step commit h s s'" "settled_as s0 s"
  then show "settled_as s0 s'"
    by (induction rule: kafka_step.induct)
      (auto simp: settled_as_def kafka_comp_defs elim: kafka_loop_elim)
qed


section \<open>Draining\<close>

definition kafka_drained :: "('w, 'k) kafka_run \<Rightarrow> bool" where
  "kafka_drained s \<longleftrightarrow> kst_closing (kl_comp s) \<and> kst_poll_cancelled (kl_comp s)"

text \<open>What the loop of a drained consumer has still to do: at most one batch.\<close>

fun steps_left :: "'k loop_at \<Rightarrow> nat" where
  "steps_left LoopTop = 1"
| "steps_left InPoll = 2"
| "steps_left (Fetched fs) = 1"
| "steps_left (InBatch ks) = work_left ks + 2"
| "steps_left LoopDone = 0"

definition drained_step :: "(bool \<Rightarrow> krecord list \<Rightarrow> 'w \<Rightarrow> 'k goerr option \<times> 'w) \<Rightarrow>
    ('w, 'k) khandler \<Rightarrow> ('w, 'k) kafka_run \<Rightarrow> ('w, 'k) kafka_run \<Rightarrow> bool" where
  "drained_step commit h s s' \<longleftrightarrow> kafka_drained s \<and> kafka_loop_step commit h s s'"

lemma work_left_less:
  assumes "i < length ks" "\<not> wk_returned (ks ! i)" "worker_step alive h (ks ! i) w = (k', w')"
  shows "work_left (ks[i := k']) < work_left ks"
  by (rule batch_step_less [OF goroutine [OF assms]])

lemma drained_step_less: "drained_step commit h s s' \<Longrightarrow> steps_left (kl_at s') < steps_left (kl_at s)"
  unfolding drained_step_def kafka_drained_def
  by (auto elim!: kafka_loop_elim dest: work_left_less)

lemma drained_not_stuck:
  assumes "kafka_drained s" "kl_at s \<noteq> LoopDone"
  shows "\<exists>s'. drained_step commit h s s'"
proof (cases "kl_at s")
  case LoopTop
  with assms show ?thesis by (auto simp: drained_step_def kafka_drained_def intro: sees_closing)
next
  case InPoll
  with assms show ?thesis by (auto simp: drained_step_def intro: poll_returns)
next
  case (Fetched fs)
  with assms show ?thesis by (auto simp: drained_step_def kafka_drained_def intro: lets_go)
next
  case (InBatch ks)
  consider i where "i < length ks" "\<not> wk_returned (ks ! i)"
    | "batch_finished ks" "concat (map wk_ok ks) = []" | "batch_finished ks" "concat (map wk_ok ks) \<noteq> []"
    by (auto simp: batch_finished_def list_all_length)
  then show ?thesis
  proof cases
    case (1 i)
    obtain k' w' where "worker_step (\<lambda>_. kl_alive s) h (ks ! i) (kl_world s) = (k', w')" by force
    from handler_returns [OF InBatch 1 this] assms(1) show ?thesis by (auto simp: drained_step_def)
  next
    case 2
    from batch_has_nothing [OF InBatch 2] assms(1) show ?thesis by (auto simp: drained_step_def)
  next
    case 3
    obtain e w' where "commit (kl_alive s) (concat (map wk_ok ks)) (kl_world s) = (e, w')" by force
    from batch_is_committed [of s ks "concat (map wk_ok ks)" commit e w' h] InBatch 3 this assms(1)
    show ?thesis by (auto simp: drained_step_def)
  qed
qed (use assms in simp)

interpretation draining: ending_machine "drained_step commit h" "\<lambda>s. steps_left (kl_at s)"
  "\<lambda>s. kafka_drained s \<longrightarrow> kl_at s = LoopDone" for commit h
  by unfold_locales (auto intro: drained_step_less drained_not_stuck)

definition no_new_batch :: "('w, 'k) kafka_run \<Rightarrow> ('w, 'k) kafka_run \<Rightarrow> bool" where
  "no_new_batch s0 s \<longleftrightarrow> kafka_drained s \<and> kl_taken s = kl_taken s0"

interpretation drained_run: kept_by_steps "kafka_step commit h" "no_new_batch s0" for commit h s0
proof
  fix s s'
  assume "kafka_step commit h s s'" "no_new_batch s0 s"
  then show "no_new_batch s0 s'"
    by (induction rule: kafka_step.induct)
      (auto simp: no_new_batch_def kafka_drained_def kafka_comp_defs elim!: kafka_loop_elim)
qed

interpretation drained_loop: kept_by_steps "drained_step commit h" "no_new_batch s0" for commit h s0
  by unfold_locales (auto simp: drained_step_def intro: drained_run.step_keeps loop)

text \<open>
  C18: Once Drain has returned, no new batch begins, whatever else happens; and the loop returns:
  it always has a next step until it has, and takes at most two more than the handlers still
  have to run in the batch it holds, when their calls and the commit return.
\<close>

theorem drained_loop_returns:
  assumes "kafka_drained s"
  shows "(\<forall>s'. kafka_reaches commit h s s' \<longrightarrow> kafka_drained s' \<and> kl_taken s' = kl_taken s) \<and>
    (\<exists>s'. (drained_step commit h)\<^sup>*\<^sup>* s s' \<and> kl_at s' = LoopDone) \<and>
    (\<forall>n s'. (drained_step commit h ^^ n) s s' \<longrightarrow>
       n \<le> (case kl_at s of InBatch ks \<Rightarrow> work_left ks + 2 | _ \<Rightarrow> 2))"
proof (intro conjI allI impI)
  have start: "no_new_batch s s" using assms by (simp add: no_new_batch_def)
  fix s'
  assume "kafka_reaches commit h s s'"
  from drained_run.run_keeps [OF this start]
  show "kafka_drained s'" "kl_taken s' = kl_taken s" by (simp_all add: no_new_batch_def)
next
  obtain s' where "(drained_step commit h)\<^sup>*\<^sup>* s s'" "kafka_drained s' \<longrightarrow> kl_at s' = LoopDone"
    using draining.reaches_final by blast
  moreover have "no_new_batch s s" using assms by (simp add: no_new_batch_def)
  ultimately show "\<exists>s'. (drained_step commit h)\<^sup>*\<^sup>* s s' \<and> kl_at s' = LoopDone"
    using drained_loop.run_keeps by (metis no_new_batch_def)
next
  fix n s'
  assume "(drained_step commit h ^^ n) s s'"
  from draining.run_bounded [OF this]
  show "n \<le> (case kl_at s of InBatch ks \<Rightarrow> work_left ks + 2 | _ \<Rightarrow> 2)"
    by (auto split: loop_at.split)
qed

section \<open>Concrete runs\<close>

definition sample_kafka :: kafka_config where
  "sample_kafka =
     \<lparr>kc_brokers = [''b:9092''], kc_topic = ''orders'', kc_group = ''g'', kc_tls = False,
      kc_sasl = \<lparr>sasl_mechanism = [], sasl_username = [], sasl_password = []\<rparr>\<rparr>"

definition commits_well :: "bool \<Rightarrow> krecord list \<Rightarrow> unit \<Rightarrow> unit goerr option \<times> unit" where
  "commits_well alive rs w = (None, w)"

definition sample_fetch :: fetches where
  "sample_fetch = \<lparr>ft_closed = False, ft_errors = [], ft_partitions = [[sample_record 0]]\<rparr>"

definition sample_running :: "(unit, unit) kafka_run" where
  "sample_running =
     \<lparr>kl_comp = (kafka_state_new sample_kafka)\<lparr>kst_client_open := True, kst_running := True\<rparr>,
      kl_at = LoopTop, kl_errc = [], kl_taken = [], kl_handled = [], kl_commits = [], kl_world = ()\<rparr>"

text \<open>One record has been fetched, handled and committed; then Drain sets its flag and the loop returns.\<close>

definition sample_committed :: "(unit, unit) kafka_run" where
  "sample_committed = sample_running\<lparr>kl_taken := [sample_record 0], kl_handled := [sample_record 0],
     kl_commits := [([sample_record 0], True)]\<rparr>"

definition sample_returned :: "(unit, unit) kafka_run" where
  "sample_returned = sample_committed\<lparr>
     kl_comp := kafka_drain_flag (kl_comp sample_committed), kl_at := LoopDone\<rparr>"

lemma sample_starts:
  "kafka_run_start (\<lambda>_. None :: unit goerr option) None sample_kafka () = Inr sample_running"
  by (simp add: kafka_run_start_def kafka_start_def kafka_mechanism_def kafka_state_new_def
      sample_kafka_def sample_running_def)

lemma sample_commits: "kafka_reaches commits_well refuses_offset_1 sample_running sample_committed"
proof -
  let ?step = "kafka_step commits_well refuses_offset_1"
  let ?k = "new_worker [sample_record 0] :: unit worker"
  let ?k' = "?k\<lparr>wk_todo := [], wk_ok := [sample_record 0], wk_returned := True\<rparr>"
  let ?s1 = "sample_running\<lparr>kl_at := InPoll\<rparr>"
  let ?s2 = "sample_running\<lparr>kl_at := Fetched sample_fetch\<rparr>"
  let ?s3 = "sample_running\<lparr>kl_at := InBatch [?k], kl_taken := [sample_record 0]\<rparr>"
  let ?s4 = "?s3\<lparr>kl_at := InBatch [?k'], kl_handled := [sample_record 0]\<rparr>"
  note defs = sample_running_def kafka_state_new_def
  have "?step sample_running ?s1"
    by (rule loop, rule polls) (simp_all add: defs)
  moreover have "?step ?s1 ?s2"
    using loop [OF poll_returns [where fs = sample_fetch and w' = "()", of ?s1 commits_well refuses_offset_1]]
    by (simp add: defs)
  moreover have "?step ?s2 ?s3"
    using loop [OF batch_begins [of ?s2 sample_fetch commits_well refuses_offset_1]]
    by (simp add: defs sample_fetch_def)
  moreover have "?step ?s3 ?s4"
    using loop [OF handler_returns [of ?s3 "[?k]" 0 refuses_offset_1 ?k' "()" commits_well]]
    by (simp add: defs new_worker_def worker_step_def sample_call newly_handled_def)
  moreover have "?step ?s4 sample_committed"
    using loop [OF batch_is_committed [of ?s4 "[?k']" "[sample_record 0]" commits_well None "()" refuses_offset_1]]
    by (simp add: defs new_worker_def batch_finished_def commits_well_def sample_committed_def)
  ultimately show ?thesis by (meson rtranclp.rtrancl_into_rtrancl rtranclp.rtrancl_refl)
qed

lemma sample_loop_returns: "kafka_reaches commits_well refuses_offset_1 sample_running sample_returned"
proof -
  let ?s6 = "sample_committed\<lparr>kl_comp := kafka_drain_flag (kl_comp sample_committed)\<rparr>"
  have "kafka_step commits_well refuses_offset_1 sample_committed ?s6" by (rule drain_sets_the_flag)
  moreover have "kafka_step commits_well refuses_offset_1 ?s6 sample_returned"
    using loop [OF sees_closing [of ?s6 commits_well refuses_offset_1]]
    by (simp add: sample_committed_def sample_running_def sample_returned_def kafka_drain_flag_def)
  ultimately show ?thesis using sample_commits by (meson rtranclp.rtrancl_into_rtrancl)
qed

theorem kafka_dies_of_a_refusal_witness:
  "kl_errc sample_returned = (case kafka_check (kl_comp sample_returned) of None \<Rightarrow> [] | Some e \<Rightarrow> [e])"
  using kafka_dies_of_a_refusal [OF sample_starts sample_loop_returns] by blast


theorem drained_loop_returns_witness:
  "\<exists>s'. (drained_step commits_well refuses_offset_1)\<^sup>*\<^sup>*
     (sample_running\<lparr>kl_at := InPoll, kl_comp := kafka_drain (kl_comp sample_running)\<rparr>) s' \<and> kl_at s' = LoopDone"
proof -
  have "kafka_drained (sample_running\<lparr>kl_at := InPoll, kl_comp := kafka_drain (kl_comp sample_running)\<rparr>)"
    by (simp add: kafka_drained_def kafka_drain_def kafka_comp_defs sample_running_def)
  from drained_loop_returns [OF this, of commits_well refuses_offset_1] show ?thesis by blast
qed

end
