(* ===== verification/Scaffold.thy ===== *)
theory Scaffold
  imports Go_Errors Go_Slog
begin

text \<open>
  The Scaffold command (cmd/goboot/main.go): the name of the service, the environment prefix,
  the textual substitutions, and the files it writes.

  The embedded projects are a parameter, as a list of files and directories in the order
  fs.WalkDir visits them; the file system is a map from the paths under the new directory to
  their contents, and \<open>fails\<close> says which operation on it fails.
\<close>

section \<open>Names\<close>

text \<open>path.Base: trailing slashes are dropped; what follows the last slash that is left.\<close>

definition strip_slashes :: "string \<Rightarrow> string" where
  "strip_slashes s = rev (dropWhile (\<lambda>c. c = CHR ''/'') (rev s))"

definition path_base :: "string \<Rightarrow> string" where
  "path_base p =
     (if p = [] then ''.''
      else let s = strip_slashes p in
           if s = [] then ''/''
           else rev (takeWhile (\<lambda>c. c \<noteq> CHR ''/'') (rev s)))"

definition service_name :: "string \<Rightarrow> 'k goerr + string" where
  "service_name module =
     (if module = [] \<or> contains_any module (CHR '' '' # CHR 0x09 # newline) \<or> has_prefix module ''-''
      then Inl (ErrText (quote module @ '' is not a module path''))
      else (let name = path_base module in
            if name = ''.'' \<or> name = ''..'' \<or> name = ''/'' \<or> name = []
            then Inl (ErrText (quote module @ '' ends in nothing that can name a directory''))
            else Inr name))"

definition env_rune :: "string \<Rightarrow> string" where
  "env_rune r =
     (case r of
        [c] \<Rightarrow> if between 97 c 122 \<or> between 65 c 90 \<or> between 48 c 57 then [c] else ''_''
      | _ \<Rightarrow> ''_'')"

definition env_prefix :: "string \<Rightarrow> string" where
  "env_prefix name = map upper_byte (concat (map env_rune (runes name))) @ ''_''"

section \<open>Substitution\<close>

text \<open>
  strings.Replacer: from left to right, at each byte the first pair in argument order whose
  old text starts there; no old text is empty.
\<close>

fun first_match :: "(string \<times> string) list \<Rightarrow> string \<Rightarrow> (string \<times> string) option" where
  "first_match [] s = None"
| "first_match ((old, new) # ps) s =
     (if old \<noteq> [] \<and> has_prefix s old then Some (old, new) else first_match ps s)"

lemma first_match_progress: "first_match ps s = Some (old, new) \<Longrightarrow> old \<noteq> [] \<and> has_prefix s old"
  by (induction ps s rule: first_match.induct) (auto split: if_splits)

function replace_all :: "(string \<times> string) list \<Rightarrow> string \<Rightarrow> string" where
  "replace_all ps [] = []"
| "replace_all ps (c # s) =
     (case first_match ps (c # s) of
        None \<Rightarrow> c # replace_all ps s
      | Some (old, new) \<Rightarrow> new @ replace_all ps (drop (length old) (c # s)))"
  by pat_completeness auto
termination
  by (relation "measure (\<lambda>(ps, s). length s)") (auto dest!: first_match_progress)

definition own_import :: "string" where
  "own_import = ''github.com/squall-chua/go-boot/''"

definition substitutions :: "string \<Rightarrow> string \<Rightarrow> string \<Rightarrow> (string \<times> string) list" where
  "substitutions src module name =
     [(own_import @ ''cmd/goboot/'' @ src @ ''/internal/'', module @ ''/internal/''),
      (''MYSERVICE_'', env_prefix name),
      (''myservice'', name),
      (own_import @ ''internal/gen'', module @ ''/internal/gen'')]"

section \<open>Writing\<close>

text \<open>An entry of the embedded tree: its path, and its contents or that it is a directory.\<close>

datatype entry = Directory string | File string string

definition go_floor :: string where
  "go_floor = ''1.25.7''"

text \<open>
  The walk: a path is the source directory's with the prefix replaced, so it is kept here
  relative to the new directory. The result is the error, if one came up, the count of files
  and what was written.
\<close>

fun walk :: "(string \<Rightarrow> 'k goerr option) \<Rightarrow> (string \<times> string) list \<Rightarrow> string \<Rightarrow> entry list \<Rightarrow> nat \<Rightarrow>
    (string \<times> string) list \<Rightarrow> 'k goerr option \<times> nat \<times> (string \<times> string) list" where
  "walk fails sub src [] n out = (None, n, out)"
| "walk fails sub src (Directory p # es) n out =
     (case fails (trim_prefix p src) of
        Some e \<Rightarrow> (Some e, n, out)
      | None \<Rightarrow> walk fails sub src es n out)"
| "walk fails sub src (File p body # es) n out =
     (case fails (trim_prefix p src) of
        Some e \<Rightarrow> (Some e, Suc n, out)
      | None \<Rightarrow> walk fails sub src es (Suc n) (out @ [(trim_prefix p src, replace_all sub body)]))"

definition go_mod :: "string \<Rightarrow> string" where
  "go_mod module = ''module '' @ module @ newline @ newline @ ''go '' @ go_floor @ newline"

text \<open>
  write: \<open>exists name\<close> says that the directory is there already, \<open>tree\<close> is the embedded
  tree of each project. The result is the error, the name, the count and the files.
\<close>

definition scaffold_write :: "(string \<Rightarrow> bool) \<Rightarrow> (string \<Rightarrow> entry list) \<Rightarrow> (string \<Rightarrow> 'k goerr option) \<Rightarrow>
    string \<Rightarrow> bool \<Rightarrow> 'k goerr option \<times> string \<times> nat \<times> (string \<times> string) list" where
  "scaffold_write exists tree fails module grpc =
     (case service_name module of
        Inl e \<Rightarrow> (Some e, [], 0, [])
      | Inr name \<Rightarrow>
          (let src = (if grpc then ''scaffold/grpc'' else ''scaffold/http'') in
           if exists name then (Some (ErrText (name @ '' already exists'')), name, 0, [])
           else (case walk fails (substitutions src module name) src (tree src) 0 [] of
                   (Some e, n, out) \<Rightarrow> (Some e, name, n, out)
                 | (None, n, out) \<Rightarrow>
                     (case fails ''/go.mod'' of
                        Some e \<Rightarrow> (Some e, name, Suc n, out)
                      | None \<Rightarrow> (None, name, Suc n, out @ [(''/go.mod'', go_mod module)])))))"

section \<open>The command line\<close>

text \<open>
  package flag on a set with the one boolean flag \<open>grpc\<close> and ContinueOnError: it parses up to
  the first argument that is no flag, or up to and including \<open>--\<close>. An error it makes is printed
  before it is returned; asking for help is an error of its own.
\<close>

definition parse_bool :: "string \<Rightarrow> bool option" where
  "parse_bool s =
     (if s \<in> set [''1'', ''t'', ''T'', ''TRUE'', ''true'', ''True''] then Some True
      else if s \<in> set [''0'', ''f'', ''F'', ''FALSE'', ''false'', ''False''] then Some False
      else None)"

datatype flag_error = HelpWanted | BadFlag string

text \<open>What one argument is: no flag, the end of the flags, an error, or the flag's value.\<close>

datatype flag_arg = NoFlag | FlagsEnd | FlagError flag_error | GrpcFlag bool

definition flag_value :: "string \<Rightarrow> string \<times> string \<times> bool" where
  "flag_value name =
     (case cut (tl name) ''='' of (rest, v, has) \<Rightarrow> (hd name # rest, v, has))"

definition parse_flag :: "string \<Rightarrow> flag_arg" where
  "parse_flag s =
     (if length s < 2 \<or> hd s \<noteq> CHR ''-'' then NoFlag
      else if s = ''--'' then FlagsEnd
      else (let name = (if s ! 1 = CHR ''-'' then drop 2 s else drop 1 s) in
            if hd name = CHR ''-'' \<or> hd name = CHR ''=''
            then FlagError (BadFlag (''bad flag syntax: '' @ s))
            else (case flag_value name of
                    (n, v, has) \<Rightarrow>
                      if n \<noteq> ''grpc''
                      then (if n = ''help'' \<or> n = ''h'' then FlagError HelpWanted
                            else FlagError (BadFlag (''flag provided but not defined: -'' @ n)))
                      else if \<not> has then GrpcFlag True
                      else (case parse_bool v of
                              Some b \<Rightarrow> GrpcFlag b
                            | None \<Rightarrow>
                                FlagError (BadFlag (''invalid boolean value '' @ quote v @
                                  '' for -grpc: parse error''))))))"

fun parse_flags :: "bool \<Rightarrow> string list \<Rightarrow> flag_error + bool \<times> string list" where
  "parse_flags grpc [] = Inr (grpc, [])"
| "parse_flags grpc (s # ss) =
     (case parse_flag s of
        NoFlag \<Rightarrow> Inr (grpc, s # ss)
      | FlagsEnd \<Rightarrow> Inr (grpc, ss)
      | FlagError e \<Rightarrow> Inl e
      | GrpcFlag b \<Rightarrow> parse_flags b ss)"

definition lines_text :: "string list \<Rightarrow> string" where
  "lines_text ls = concat (map (\<lambda>l. l @ newline) ls)"

definition usage :: "string" where
  "usage = lines_text
     [''usage: goboot new [-grpc] <module-path>'', [],
      ''Writes a new go-boot service into a directory named after the last element of'',
      ''the module path.'', [],
      ''  goboot new github.com/acme/orders          an HTTP service with a database'',
      ''  goboot new -grpc github.com/acme/orders    the same, plus gRPC and buf'']"

text \<open>What run returns, and what it has printed and written by then.\<close>

datatype 'k run_result = RunDone | RunUsage | RunHelp | RunError "'k goerr"

record 'k run_end =
  re_result :: "'k run_result"
  re_stdout :: string
  re_stderr :: string
  re_files :: "(string \<times> string) list"

definition next_steps :: "string \<Rightarrow> nat \<Rightarrow> bool \<Rightarrow> string" where
  "next_steps name n grpc =
     lines_text ([''wrote '' @ name @ ''/ ('' @ format_int (int n) @ '' files)'', [], ''next:'',
                  ''  cd '' @ name] @
                 (if grpc then [''  buf generate''] else []) @
                 [''  go mod tidy'', ''  go run . migrate'', ''  go run .'', [],
                  ''Read '' @ name @ ''/README.md before you deploy it.''])"

definition goboot_run :: "(string \<Rightarrow> bool) \<Rightarrow> (string \<Rightarrow> entry list) \<Rightarrow> (string \<Rightarrow> 'k goerr option) \<Rightarrow>
    string list \<Rightarrow> 'k run_end" where
  "goboot_run exists tree fails args =
     (if args = [] \<or> hd args \<noteq> ''new''
      then \<lparr>re_result = RunUsage, re_stdout = [], re_stderr = [], re_files = []\<rparr>
      else (case parse_flags False (tl args) of
              Inl HelpWanted \<Rightarrow> \<lparr>re_result = RunHelp, re_stdout = [], re_stderr = usage, re_files = []\<rparr>
            | Inl (BadFlag e) \<Rightarrow>
                \<lparr>re_result = RunError (ErrText e), re_stdout = [], re_stderr = e @ newline @ usage, re_files = []\<rparr>
            | Inr (grpc, rest) \<Rightarrow>
                if length rest \<noteq> 1
                then \<lparr>re_result = RunUsage, re_stdout = [], re_stderr = [], re_files = []\<rparr>
                else (case scaffold_write exists tree fails (hd rest) grpc of
                        (Some e, name, n, out) \<Rightarrow>
                          \<lparr>re_result = RunError e, re_stdout = [], re_stderr = [], re_files = out\<rparr>
                      | (None, name, n, out) \<Rightarrow>
                          \<lparr>re_result = RunDone, re_stdout = next_steps name n grpc, re_stderr = [],
                           re_files = out\<rparr>)))"

text \<open>main: the exit code, what was printed to the two streams, and the files.\<close>

definition goboot_main :: "('k \<Rightarrow> string) \<Rightarrow> (string \<Rightarrow> bool) \<Rightarrow> (string \<Rightarrow> entry list) \<Rightarrow>
    (string \<Rightarrow> 'k goerr option) \<Rightarrow> string list \<Rightarrow> int \<times> string \<times> string \<times> (string \<times> string) list" where
  "goboot_main ext exists tree fails args =
     (let e = goboot_run exists tree fails args in
      case re_result e of
        RunDone \<Rightarrow> (0, re_stdout e, re_stderr e, re_files e)
      | RunError err \<Rightarrow>
          (1, re_stdout e, re_stderr e @ ''goboot: '' @ err_text ext err @ newline, re_files e)
      | _ \<Rightarrow> (2, re_stdout e, re_stderr e @ usage, re_files e))"

end
