(* ===== verification/Scaffold_Props.thy ===== *)
theory Scaffold_Props
  imports Scaffold
begin

text \<open>
  What the Scaffold promises: the directory it creates is one element below the current one,
  the environment prefix is a name an environment variable may have, and a run that succeeds
  wrote every file of the project once, with the substitutions made, beside a go.mod.
\<close>

section \<open>Names\<close>

lemma path_base_elem: "CHR ''/'' \<in> set (path_base p) \<Longrightarrow> path_base p = ''/''"
  by (auto simp: path_base_def Let_def dest: set_takeWhileD split: if_splits)

lemma path_base_chars: "set (path_base p) \<subseteq> set p \<union> {CHR ''.'', CHR ''/''}"
  by (auto simp: path_base_def strip_slashes_def Let_def dest!: set_takeWhileD set_dropWhileD split: if_splits)

lemma upper_env_rune: "c \<in> set (map upper_byte (env_rune r)) \<Longrightarrow>
  between 65 c 90 \<or> between 48 c 57 \<or> c = CHR ''_''"
  by (auto simp: env_rune_def upper_byte_def between_def split: list.splits if_splits)

text \<open>
  A module path the Scaffold accepts names one directory right below the current one:
  one element, not the current or the parent directory, without white space; and the prefix
  made of it holds only upper-case letters, digits and underscores, and ends in one.
\<close>

theorem service_name_is_one_element:
  assumes "service_name module = Inr name"
  shows "name \<noteq> [] \<and> CHR ''/'' \<notin> set name \<and> name \<noteq> ''.'' \<and> name \<noteq> ''..'' \<and>
    \<not> contains_any name (CHR '' '' # CHR 0x09 # newline) \<and>
    list_all (\<lambda>c. between 65 c 90 \<or> between 48 c 57 \<or> c = CHR ''_'') (env_prefix name) \<and>
    last (env_prefix name) = CHR ''_''"
proof -
  have n: "name = path_base module" "\<not> contains_any module (CHR '' '' # CHR 0x09 # newline)"
    "name \<noteq> ''.''" "name \<noteq> ''..''" "name \<noteq> ''/''" "name \<noteq> []"
    using assms by (auto simp: service_name_def Let_def split: if_splits)
  have "\<not> contains_any name (CHR '' '' # CHR 0x09 # newline)"
    using n(1,2) path_base_chars [of module] by (fastforce simp: contains_any_def list_ex_iff)
  moreover have "list_all (\<lambda>c. between 65 c 90 \<or> between 48 c 57 \<or> c = CHR ''_'') (env_prefix name)"
    using upper_env_rune by (fastforce simp: env_prefix_def list_all_iff)
  ultimately show ?thesis using n path_base_elem [of module] by (auto simp: env_prefix_def)
qed

theorem service_name_is_one_element_witness:
  "service_name ''github.com/acme/my-orders/'' = (Inr ''my-orders'' :: unit goerr + string) \<and>
   env_prefix ''my-orders'' = ''MY_ORDERS_'' \<and> last (env_prefix ''my-orders'') = CHR ''_''"
proof -
  have s: "service_name ''github.com/acme/my-orders/'' = (Inr ''my-orders'' :: unit goerr + string)"
    by code_simp
  have "env_prefix ''my-orders'' = ''MY_ORDERS_''" by code_simp
  with s service_name_is_one_element [OF s] show ?thesis by blast
qed

section \<open>Writing\<close>

fun files_of :: "entry list \<Rightarrow> (string \<times> string) list" where
  "files_of [] = []"
| "files_of (Directory p # es) = files_of es"
| "files_of (File p b # es) = (p, b) # files_of es"

lemma walk_ok:
  "walk fails sub src es n out = (None, n', out') \<Longrightarrow>
     n' = n + length (files_of es) \<and>
     out' = out @ map (\<lambda>f. (trim_prefix (fst f) src, replace_all sub (snd f))) (files_of es)"
  by (induction fails sub src es n out rule: walk.induct) (auto split: option.splits)

lemma walk_prefix:
  "walk fails sub src es n out = (e, n', out') \<Longrightarrow>
     \<exists>k. out' = out @ take k (map (\<lambda>f. (trim_prefix (fst f) src, replace_all sub (snd f))) (files_of es))"
proof (induction fails sub src es n out rule: walk.induct)
  case (3 fails sub src p body es n out)
  show ?case
  proof (cases "fails (trim_prefix p src)")
    case None
    with 3 obtain k where "out' = (out @ [(trim_prefix p src, replace_all sub body)]) @
        take k (map (\<lambda>f. (trim_prefix (fst f) src, replace_all sub (snd f))) (files_of es))" by auto
    then show ?thesis by (intro exI [of _ "Suc k"]) simp
  qed (use 3 in \<open>auto intro: exI [of _ 0]\<close>)
qed (auto split: option.splits intro: exI [of _ 0])

text \<open>
  A Scaffold run that succeeds made a new directory and wrote into it every file of the
  project it chose, in order and once, with the substitutions made, and then the go.mod with
  the module path and the pinned Go version; the count it reports is the number of files. A
  run that fails before the walk writes nothing, and one that fails later wrote only a leading
  part of those files.
\<close>

theorem scaffold_writes_the_whole_project:
  fixes fails :: "string \<Rightarrow> 'k goerr option"
  shows "(case scaffold_write exists tree fails module grpc of
      (res, name, n, out) \<Rightarrow>
        (let src = (if grpc then ''scaffold/grpc'' else ''scaffold/http'');
             files = map (\<lambda>f. (trim_prefix (fst f) src, replace_all (substitutions src module name) (snd f)))
                       (files_of (tree src)) @ [(''/go.mod'', go_mod module)]
         in (\<exists>k. out = take k files) \<and>
            (if exists name then res \<noteq> None \<and> out = []
             else if res = None
             then out = files \<and> n = length files \<and> service_name module = (Inr name :: 'k goerr + string)
             else True)))"
proof (cases "service_name module :: 'k goerr + string")
  case (Inl e)
  then show ?thesis by (auto simp: scaffold_write_def Let_def intro: exI [of _ 0])
next
  case (Inr name)
  let ?src = "if grpc then ''scaffold/grpc'' else ''scaffold/http''"
  let ?sub = "substitutions ?src module name"
  let ?files = "map (\<lambda>f. (trim_prefix (fst f) ?src, replace_all ?sub (snd f))) (files_of (tree ?src))"
  obtain e n out where w: "walk fails ?sub ?src (tree ?src) 0 [] = (e, n, out)" by (meson prod_cases3)
  show ?thesis
  proof (cases "exists name")
    case True
    with Inr show ?thesis by (auto simp: scaffold_write_def Let_def intro: exI [of _ 0])
  next
    case False
    obtain k where "out = take k ?files" using walk_prefix [OF w] by auto
    then have part: "\<exists>k. out = take k (?files @ [(''/go.mod'', go_mod module)])"
      by (intro exI [of _ "min k (length ?files)"]) (simp add: min_def)
    show ?thesis
    proof (cases e)
      case None
      with walk_ok [of fails ?sub ?src "tree ?src" 0 "[]" n out] w
      have all: "out = ?files" "n = length ?files" by auto
      then have whole: "\<exists>k. out @ [(''/go.mod'', go_mod module)] = take k (?files @ [(''/go.mod'', go_mod module)])"
        by (intro exI [of _ "Suc (length ?files)"]) simp
      with Inr False w None part all show ?thesis
        by (cases "fails ''/go.mod''") (simp_all add: scaffold_write_def Let_def)
    next
      case (Some x)
      with Inr False w part show ?thesis by (simp add: scaffold_write_def Let_def)
    qed
  qed
qed

section \<open>The command\<close>

text \<open>
  The exit code tells what happened: 0 exactly when the command was \<open>new\<close> with well-formed
  flags and one module path and the project has been written, and then the next steps are
  printed and nothing else; 2 for wrong usage, with the usage text and nothing written; 1 for
  any other error. A failure prints nothing to the standard output and says why on the other.
\<close>

theorem exit_code_tells_what_happened:
  fixes fails :: "string \<Rightarrow> 'k goerr option"
  assumes "goboot_main ext exists tree fails args = (code, out, err, files)"
  shows "(code = 0 \<longleftrightarrow> (\<exists>rest grpc module name n. args = ''new'' # rest \<and>
        parse_flags False rest = Inr (grpc, [module]) \<and>
        scaffold_write exists tree fails module grpc = (None, name, n, files) \<and>
        out = next_steps name n grpc \<and> err = [])) \<and>
    (code = 2 \<longrightarrow> files = [] \<and> out = [] \<and> (\<exists>e. err = e @ usage)) \<and>
    (code \<noteq> 0 \<and> code \<noteq> 2 \<longrightarrow> code = 1 \<and> out = [] \<and> (\<exists>e. err = e @ newline))"
proof (cases "args = [] \<or> hd args \<noteq> ''new''")
  case True
  with assms show ?thesis by (auto simp: goboot_main_def goboot_run_def)
next
  case False
  then obtain rest where args: "args = ''new'' # rest" by (cases args) auto
  show ?thesis
  proof (cases "parse_flags False rest")
    case (Inl e)
    with assms args show ?thesis
      by (cases e) (auto simp: goboot_main_def goboot_run_def Let_def)
  next
    case (Inr p)
    obtain grpc ms where p: "p = (grpc, ms)" by force
    show ?thesis
    proof (cases "length ms = 1")
      case True
      then obtain module where ms: "ms = [module]" by (cases ms) auto
      obtain res name n fs where w: "scaffold_write exists tree fails module grpc = (res, name, n, fs)"
        by (metis prod_cases4)
      with Inr p ms assms args show ?thesis
        by (cases res) (auto simp: goboot_main_def goboot_run_def Let_def)
    next
      case False
      with Inr p assms args show ?thesis by (auto simp: goboot_main_def goboot_run_def Let_def)
    qed
  qed
qed

theorem exit_code_tells_what_happened_witness:
  "goboot_main (\<lambda>_. []) (\<lambda>_. False) (\<lambda>_. []) (\<lambda>_. None :: unit goerr option) [''new'', ''-grpc=T'', ''acme/orders''] =
     (0, next_steps ''orders'' 1 True, [], [(''/go.mod'', go_mod ''acme/orders'')])"
proof -
  let ?main = "goboot_main (\<lambda>_. []) (\<lambda>_. False) (\<lambda>_. []) (\<lambda>_. None :: unit goerr option)
      [''new'', ''-grpc=T'', ''acme/orders'']"
  have f: "parse_flags False [''-grpc=T'', ''acme/orders''] = Inr (True, [''acme/orders''])" by code_simp
  have n: "service_name ''acme/orders'' = (Inr ''orders'' :: unit goerr + string)" by code_simp
  have m: "?main = (0, next_steps ''orders'' 1 True, [], [(''/go.mod'', go_mod ''acme/orders'')])"
    by (simp add: goboot_main_def goboot_run_def f n scaffold_write_def del: parse_flags.simps)
  from exit_code_tells_what_happened [OF m] have "\<exists>rest grpc module. [''new'', ''-grpc=T'', ''acme/orders''] =
      ''new'' # rest \<and> parse_flags False rest = Inr (grpc, [module])" by blast
  with m show ?thesis by simp
qed

end
