(* ===== verification/Secure.thy ===== *)
theory Secure
  imports Service Security
begin

text \<open>
  The service of examples/http-secure: the security middleware behind the default one, the
  Actuator mounted through a wrapper that guards all but the probes, an open feature and a
  guarded one. Its typed adapter, examples/internal/transport, is line for line the one of the
  generated service and is modelled there (\<open>typed_handle\<close>).
\<close>

section \<open>The Actuator behind a guard\<close>

text \<open>What follows the last space, all of the pattern when there is none.\<close>

definition after_space :: "string \<Rightarrow> string" where
  "after_space p = rev (takeWhile (\<lambda>c. c \<noteq> CHR '' '') (rev p))"

definition is_probe :: "string \<Rightarrow> bool" where
  "is_probe pattern \<longleftrightarrow>
     (let p = after_space pattern in
      p = ''/livez'' \<or> p = ''/readyz'' \<or> p = ''/actuator/livez'' \<or> p = ''/actuator/readyz'')"

definition operators_handle :: "('c, 'w) middleware \<Rightarrow> string \<Rightarrow> ('c, 'w) handler \<Rightarrow>
    ('c, 'w) server \<Rightarrow> ('c, 'w) server option" where
  "operators_handle mw pattern h srv =
     (if is_probe pattern then web_handle pattern h srv else web_handle pattern (mw h) srv)"

interpretation operators: mount_target "operators_handle mw" "\<lambda>s. map fst (sv_mux s)" for mw
proof
  fix p h m
  show "p \<notin> set (map fst (sv_mux m)) \<Longrightarrow> \<exists>m'. operators_handle mw p h m = Some m' \<and>
      map fst (sv_mux m') = map fst (sv_mux m) @ [p]"
    using web_server.fresh [of p m] by (simp add: operators_handle_def)
  show "p \<in> set (map fst (sv_mux m)) \<Longrightarrow> operators_handle mw p h m = None"
    using web_server.taken [of p m] by (simp add: operators_handle_def)
qed

section \<open>The open feature: internal/hello\<close>

definition hello :: "string \<Rightarrow> string" where
  "hello name = name"

definition bind_hello :: "('c request \<Rightarrow> string) \<Rightarrow> ('c, 'k, string) bind_fn" where
  "bind_hello path_value r = Value (path_value r)"

definition say_hello :: "('w, 'k, string, string) typed_handler" where
  "say_hello name x t w = (Value (hello name), t, w)"

definition hello_response :: "string \<Rightarrow> json option" where
  "hello_response out = Some (JObject [(''hello'', JString out)])"

definition hello_routes :: "('k sql_err \<Rightarrow> string) \<Rightarrow> ('c request \<Rightarrow> string) \<Rightarrow>
    ('c, 'w) server \<Rightarrow> ('c, 'w) server option" where
  "hello_routes pr path_value srv =
     web_handle ''GET /hello/{name}'' (typed_handle pr hello_response (bind_hello path_value) say_hello) srv"

section \<open>The guarded feature: internal/orders\<close>

definition order_accept :: "string \<Rightarrow> 'c request \<Rightarrow> 'w conn \<Rightarrow> 'w conn" where
  "order_accept subject r c =
     log_line (logger_from r) level_info ''order accepted'' [(''sub'', AText subject)] c"

definition order_create :: "(principal, 'w) handler" where
  "order_create r c =
     (case principal_from r of
        None \<Rightarrow> answer_with (write_problem 401 ''authentication required'') r c
      | Some p \<Rightarrow>
          answer_with (write_json 202 (Some (JObject [(''acceptedFor'', JString (pr_subject p))]))) r
            (order_accept (pr_subject p) r c))"

definition order_routes :: "(principal, 'w) server \<Rightarrow> (principal, 'w) server option" where
  "order_routes srv = web_handle ''POST /orders'' (require_scope [''orders:write''] order_create) srv"

section \<open>main.go and routes.go\<close>

definition secure_routes :: "('k sql_err \<Rightarrow> string) \<Rightarrow> (principal request \<Rightarrow> string) \<Rightarrow>
    (principal, 'w) server \<Rightarrow> (principal, 'w) server option" where
  "secure_routes pr path_value srv =
     (case hello_routes pr path_value srv of None \<Rightarrow> None | Some srv1 \<Rightarrow> order_routes srv1)"

record secure_config =
  xc_log :: log_config
  xc_lifecycle :: lifecycle_config
  xc_web :: web_config
  xc_actuator :: actuator_config
  xc_security :: security_config

definition secure_load :: "('y, 'k) externals \<Rightarrow> ('y cmap \<Rightarrow> secure_config \<Rightarrow> 'k goerr + secure_config) \<Rightarrow>
    'k machine \<Rightarrow> secure_config \<Rightarrow> 'k goerr + secure_config" where
  "secure_load x dec mc zero = load x dec mc ''app.yaml'' ''ORDERS_'' zero"

record ('w, 'p, 'v, 'k) secure_app =
  xa_app :: "('w, 'k) app"
  xa_web :: "(principal, 'w) server"
  xa_actuator :: "(principal, 'w, 'k) actuator"
  xa_keys :: "('p, 'v, 'k) key_set option"

text \<open>
  run up to app.Run. \<open>ke\<close> and \<open>auth\<close> are the parameters of \<open>security_middleware\<close>; \<open>t\<close> and \<open>v\<close> are
  the clock and the world a key file is read in. \<open>None\<close> is a panic of the mux.
\<close>

definition secure_build :: "(principal, 'w, 'k) wiring \<Rightarrow> ('p, 'v, 'k) key_env \<Rightarrow>
    (jwt_options \<Rightarrow> (principal, 'w) middleware) \<Rightarrow> ('k sql_err \<Rightarrow> string) \<Rightarrow> (principal request \<Rightarrow> string) \<Rightarrow>
    secure_config \<Rightarrow> time \<Rightarrow> 'v \<Rightarrow> ('k goerr + ('w, 'p, 'v, 'k) secure_app) option" where
  "secure_build wr ke auth pr path_value cfg t v =
     (case app_new \<lparr>cfg_log = xc_log cfg, cfg_lifecycle = xc_lifecycle cfg\<rparr> of
        Inl e \<Rightarrow> Some (Inl e)
      | Inr app \<Rightarrow>
     (case actuator_new (xc_actuator cfg) of
        Inl e \<Rightarrow> Some (Inl e)
      | Inr act \<Rightarrow>
     (case web_new (xc_web cfg) True of
        Inl e \<Rightarrow> Some (Inl e)
      | Inr srv \<Rightarrow>
     (case security_middleware ke auth (xc_security cfg) t v of
        Inl e \<Rightarrow> Some (Inl e)
      | Inr (sec, keys) \<Rightarrow>
     (case mount_on (wr_env wr) (operators_handle (require_scope [''actuator''])) act
             (web_use (default_middleware base_logger @ sec) srv) of
        None \<Rightarrow> None
      | Some (act', srv1) \<Rightarrow>
     (case secure_routes pr path_value srv1 of
        None \<Rightarrow> None
      | Some srv2 \<Rightarrow>
          Some (Inr \<lparr>xa_app = app_add [actuator_component wr, web_component wr] app, xa_web = srv2,
                     xa_actuator = act', xa_keys = keys\<rparr>)))))))"

text \<open>run as a whole, for the answer of Load.\<close>

inductive secure_run :: "('k goerr + secure_config) \<Rightarrow>
    (secure_config \<Rightarrow> ('k goerr + ('w, 'p, 'v, 'k) secure_app) option) \<Rightarrow> ctx \<Rightarrow> time option \<Rightarrow> 'w world \<Rightarrow>
    'k goerr option option \<Rightarrow> 'w world \<Rightarrow> bool"
  for loaded :: "'k goerr + secure_config"
    and build :: "secure_config \<Rightarrow> ('k goerr + ('w, 'p, 'v, 'k) secure_app) option"
    and c :: ctx and sig :: "time option" and w :: "'w world" where
  secure_load_fails: "loaded = Inl e \<Longrightarrow> secure_run loaded build c sig w (Some (Some e)) w"
| secure_build_fails:
    "loaded = Inr cfg \<Longrightarrow> build cfg = Some (Inl e) \<Longrightarrow> secure_run loaded build c sig w (Some (Some e)) w"
| secure_panics: "loaded = Inr cfg \<Longrightarrow> build cfg = None \<Longrightarrow> secure_run loaded build c sig w None w"
| secure_runs:
    "loaded = Inr cfg \<Longrightarrow> build cfg = Some (Inr s) \<Longrightarrow> app_run c sig (xa_app s) w r a' w' \<Longrightarrow>
     secure_run loaded build c sig w (Some r) w'"

end
