(* ===== verification/Secure_Props.thy ===== *)
theory Secure_Props
  imports Secure Service_Props Security_Props
begin

text \<open>
  What the wiring of the secure service promises: it never panics, everything but the probes
  and the open route stands behind a guard, and nobody without the operators' scope changes
  the level of the log, whatever the request and whatever the middleware is configured to do.
\<close>

section \<open>Who may change the level\<close>

text \<open>
  A handler is closed to requests outside \<open>A\<close> when it leaves the level of the log alone for
  them.
\<close>

definition closed_to :: "('c request \<Rightarrow> bool) \<Rightarrow> ('c, 'w) handler \<Rightarrow> bool" where
  "closed_to A h \<longleftrightarrow> (\<forall>r c p r' c'. h r c = (p, r', c') \<longrightarrow> A r \<or> cn_level c' = cn_level c)"

lemma closed_toI:
  "(\<And>r c p r' c'. h r c = (p, r', c') \<Longrightarrow> \<not> A r \<Longrightarrow> cn_level c' = cn_level c) \<Longrightarrow> closed_to A h"
  unfolding closed_to_def by blast

lemma closed_toD: "closed_to A h \<Longrightarrow> h r c = (p, r', c') \<Longrightarrow> \<not> A r \<Longrightarrow> cn_level c' = cn_level c"
  unfolding closed_to_def by blast

text \<open>A condition the middleware cannot change: it looks at the header and the Principal only.\<close>

definition of_caller :: "('c request \<Rightarrow> bool) \<Rightarrow> bool" where
  "of_caller A \<longleftrightarrow> (\<forall>r r'. rq_header r' = rq_header r \<longrightarrow> rq_claims r' = rq_claims r \<longrightarrow> A r' = A r)"

lemma of_caller_context:
  assumes "of_caller A"
  shows "A (r\<lparr>rq_logger := l\<rparr>) = A r" "A (r\<lparr>rq_max_body := n\<rparr>) = A r" "A (r\<lparr>rq_pattern := q\<rparr>) = A r"
  by (rule assms [unfolded of_caller_def, rule_format]; simp)+

definition keeps_closed :: "('c request \<Rightarrow> bool) \<Rightarrow> ('c, 'w) middleware \<Rightarrow> bool" where
  "keeps_closed A m \<longleftrightarrow> (\<forall>h. closed_to A h \<longrightarrow> closed_to A (m h))"

lemma keeps_closedI:
  "(\<And>h r c p r' c'. (\<And>r c p r' c'. h r c = (p, r', c') \<Longrightarrow> \<not> A r \<Longrightarrow> cn_level c' = cn_level c) \<Longrightarrow>
      m h r c = (p, r', c') \<Longrightarrow> \<not> A r \<Longrightarrow> cn_level c' = cn_level c) \<Longrightarrow> keeps_closed A m"
  unfolding keeps_closed_def closed_to_def by blast

lemma log_line_level [simp]: "cn_level (log_line lg l msg as c) = cn_level c"
  by (simp add: log_line_def)

lemma access_line_level [simp]: "cn_level (access_line lg r t c) = cn_level c"
  by (simp add: access_line_def Let_def split: prod.split)

lemma recover_handler_level: "recover_handler lg p r c = (p', c') \<Longrightarrow> cn_level c' = cn_level c"
  by (auto simp: recover_handler_def Let_def split: option.splits panic.splits if_splits prod.splits)

lemma request_id_closed: "keeps_closed A request_id"
  by (rule keeps_closedI) (force simp: request_id_def new_request_id_def split: if_splits)

lemma logging_closed:
  assumes "of_caller A"
  shows "keeps_closed A (logging lg)"
proof (rule keeps_closedI)
  fix h r c p r' c'
  assume h: "\<And>r c p r' c'. h r c = (p, r', c') \<Longrightarrow> \<not> A r \<Longrightarrow> cn_level c' = cn_level c"
    and run: "logging lg h r c = (p, r', c')" and "\<not> A r"
  then have "h (r\<lparr>rq_logger := l\<rparr>) c1 = (p1, r1, c2) \<Longrightarrow> cn_level c2 = cn_level c1" for l c1 p1 r1 c2
    by (simp add: of_caller_context [OF assms])
  with run show "cn_level c' = cn_level c"
    by (fastforce simp: logging_def Let_def with_logger_def split: if_splits prod.splits option.splits)
qed

lemma recovery_closed: "keeps_closed A (recovery lg)"
proof (rule keeps_closedI)
  fix h r c p r' c'
  assume h: "\<And>r c p r' c'. h r c = (p, r', c') \<Longrightarrow> \<not> A r \<Longrightarrow> cn_level c' = cn_level c"
    and run: "recovery lg h r c = (p, r', c')" and a: "\<not> A r"
  let ?c1 = "case cn_w c of Recorder rec w \<Rightarrow> c | _ \<Rightarrow> c\<lparr>cn_w := Recorder new_recorder (cn_w c)\<rparr>"
  obtain p2 r2 c2 where h2: "h r ?c1 = (p2, r2, c2)" by (cases "h r ?c1") auto
  obtain p3 c3 where r3: "recover_handler lg p2 r2 c2 = (p3, c3)" by (cases "recover_handler lg p2 r2 c2") auto
  have "cn_level c' = cn_level c3"
    using run h2 r3 by (auto simp: recovery_def split: rw.splits)
  moreover have "cn_level ?c1 = cn_level c" by (simp split: rw.split)
  ultimately show "cn_level c' = cn_level c"
    using h [OF h2 a] recover_handler_level [OF r3] by simp
qed

lemma headers_closed: "keeps_closed A (headers_middleware d)"
  by (rule keeps_closedI) (force simp: headers_middleware_def)

lemma cors_closed: "cors cfg = Inr m \<Longrightarrow> keeps_closed A m"
  by (rule keeps_closedI) (force simp: cors_def cors_handler_def Let_def split: if_splits prod.splits)

lemma deny_level: "deny n d ch r c = (p, r', c') \<Longrightarrow> cn_level c' = cn_level c"
  by (auto simp: deny_def split: prod.splits)

lemma answer_level: "answer_with f r c = (p, r', c') \<Longrightarrow> cn_level c' = cn_level c"
  by (auto simp: answer_with_def split: prod.splits)

text \<open>
  The caller holds the scope: a Principal with it is in the request, or the request carries a
  token that Authenticate, if there is one, verifies and that has it.
\<close>

definition holder :: "('p, 'k) jwt_lib \<Rightarrow> ('p, 'v, 'k, 'w) key_slot \<Rightarrow> jwt_options option \<Rightarrow> string \<Rightarrow>
    principal request \<Rightarrow> bool" where
  "holder jl slot opts scope r \<longleftrightarrow>
     (\<exists>pr. rq_claims r = Some pr \<and> scope \<in> set (pr_scopes pr)) \<or>
     (\<exists>jo raw c0 c1 cs. opts = Some jo \<and> bearer r = Some raw \<and>
        parse_with_claims jl slot jo raw c0 = (Inr cs, c1) \<and> scope \<in> set (scopes_of cs))"

lemma bearer_of_caller: "rq_header r' = rq_header r \<Longrightarrow> bearer r' = bearer r"
  by (simp add: bearer_def)

lemma holder_of_caller: "of_caller (holder jl slot opts scope)"
  unfolding of_caller_def
proof (intro allI impI)
  fix r r' :: "principal request"
  assume hd: "rq_header r' = rq_header r" "rq_claims r' = rq_claims r"
  then have "bearer r' = bearer r" by (simp add: bearer_def)
  with hd(2) show "holder jl slot opts scope r' = holder jl slot opts scope r" by (simp add: holder_def)
qed

lemma authenticate_closed:
  "keeps_closed (holder jl slot (Some opts) scope) (authenticate txt jl slot opts)"
proof (rule keeps_closedI)
  fix h r c p r' c'
  assume h: "\<And>r c p r' c'. h r c = (p, r', c') \<Longrightarrow> \<not> holder jl slot (Some opts) scope r \<Longrightarrow> cn_level c' = cn_level c"
    and run: "authenticate txt jl slot opts h r c = (p, r', c')" and no: "\<not> holder jl slot (Some opts) scope r"
  show "cn_level c' = cn_level c"
  proof (cases "bearer r")
    case None
    with run no h show ?thesis by (auto simp: authenticate_def)
  next
    case (Some raw)
    obtain res c1 where parse: "parse_with_claims jl slot opts raw c = (res, c1)"
      by (cases "parse_with_claims jl slot opts raw c") auto
    note fr = parse_with_claims_frame [OF parse]
    show ?thesis
    proof (cases res)
      case (Inl e)
      with run Some parse fr show ?thesis
        by (auto simp: authenticate_def invalid_token_def dest!: deny_level)
    next
      case (Inr cs)
      let ?r1 = "r\<lparr>rq_claims := Some (principal_of cs)\<rparr>"
      obtain p2 r2 c2 where h2: "h ?r1 c1 = (p2, r2, c2)" by (cases "h ?r1 c1") auto
      have "scope \<notin> set (scopes_of cs)"
        using no Some parse Inr unfolding holder_def by blast
      then have "\<not> holder jl slot (Some opts) scope ?r1"
        using no bearer_of_caller [of ?r1 r] unfolding holder_def by (auto simp: principal_of_def)
      from h [OF h2 this] run Some parse Inr fr h2 show ?thesis by (simp add: authenticate_def)
    qed
  qed
qed

lemma require_closed: "closed_to (holder jl slot opts scope) (require_scope [scope] h)"
  by (rule closed_toI)
    (auto simp: require_scope_def require_def principal_from_def has_scopes_def holder_def
      split: option.splits if_splits dest: deny_level)

section \<open>Stacks and muxes\<close>

lemma foldr_closed:
  "list_all (keeps_closed A) ms \<Longrightarrow> closed_to A h \<Longrightarrow> closed_to A (foldr (\<lambda>m k. m k) ms h)"
  by (induction ms) (auto simp: keeps_closed_def)

lemma http_error_level: "mux_serve pick [] r c = (p, r', c') \<Longrightarrow> cn_level c' = cn_level c"
  by (auto simp: mux_serve_def split: sum.splits prod.splits)

lemma mux_closed:
  assumes "of_caller A" "\<And>q h. (q, h) \<in> set m \<Longrightarrow> closed_to A h"
  shows "closed_to A (mux_serve pick m)"
proof (rule closed_toI)
  fix r c p r' c'
  assume run: "mux_serve pick m r c = (p, r', c')" and no: "\<not> A r"
  show "cn_level c' = cn_level c"
  proof (cases "pick (map fst m) (rq_method r) (rq_path r)")
    case (Inr code)
    with run show ?thesis by (auto simp: mux_serve_def split: prod.splits)
  next
    case (Inl q)
    show ?thesis
    proof (cases "map_of m q")
      case None
      with run Inl show ?thesis by (simp add: mux_serve_def)
    next
      case (Some h)
      with run Inl have "h (r\<lparr>rq_pattern := q\<rparr>) c = (p, r', c')" by (simp add: mux_serve_def)
      from closed_toD [OF assms(2) [OF map_of_SomeD [OF Some]] this] no show ?thesis
        by (simp add: of_caller_context [OF assms(1)])
    qed
  qed
qed

lemma server_closed:
  assumes "of_caller A" "list_all (keeps_closed A) (sv_mw s)" "\<And>q h. (q, h) \<in> set (sv_mux s) \<Longrightarrow> closed_to A h"
  shows "closed_to A (web_wrap pick s)"
proof (rule closed_toI)
  fix r c p r' c'
  assume run: "web_wrap pick s r c = (p, r', c')" and no: "\<not> A r"
  note stack = foldr_closed [OF assms(2) mux_closed [OF assms(1,3)]]
  from run obtain r2 where "foldr (\<lambda>m k. m k) (sv_mw s) (mux_serve pick (sv_mux s))
      (with_max_body (sv_max_body s) r) c = (p, r2, c')"
    by (auto simp: web_wrap_foldr split: prod.splits)
  from closed_toD [OF stack this] no show "cn_level c' = cn_level c"
    by (simp add: with_max_body_def of_caller_context [OF assms(1)])
qed

section \<open>What is mounted\<close>

lemma handle_all_mounts:
  "handle_all (operators_handle mw) rs s = Some s' \<Longrightarrow>
     set (sv_mux s') = set (sv_mux s) \<union> (\<lambda>(q, h). (q, if is_probe q then h else mw h)) ` set rs \<and> sv_mw s' = sv_mw s"
proof (induction rs arbitrary: s)
  case (Cons e rs)
  obtain q h where e: "e = (q, h)" by force
  with Cons.prems obtain s1 where s1: "operators_handle mw q h s = Some s1"
    "handle_all (operators_handle mw) rs s1 = Some s'" by (auto split: option.splits)
  then have "set (sv_mux s1) = insert (q, if is_probe q then h else mw h) (set (sv_mux s)) \<and> sv_mw s1 = sv_mw s"
    by (auto simp: operators_handle_def web_handle_def mux_handle_def split: if_splits)
  with Cons.IH [OF s1(2)] e show ?case by auto
qed simp

lemma routes_from_mounts:
  assumes "routes_from ae (operators_handle mw) seen ns s = Some s'"
    and "\<And>q g. (q, g) \<in> set (sv_mux s) \<Longrightarrow> P q g"
    and "\<And>n rs q h. map_of (endpoints ae) n = Some rs \<Longrightarrow> (q, h) \<in> set rs \<Longrightarrow>
      P q (if is_probe q then h else mw h)"
  shows "sv_mw s' = sv_mw s \<and> (\<forall>(q, g) \<in> set (sv_mux s'). P q g)"
  using assms(1,2)
proof (induction ns arbitrary: seen s)
  case Nil
  then show ?case by auto
next
  case (Cons n ns)
  show ?case
  proof (cases "map_of (endpoints ae) n")
    case None
    with Cons.prems have "routes_from ae (operators_handle mw) seen ns s = Some s'" by simp
    then show ?thesis by (rule Cons.IH) (rule Cons.prems(2))
  next
    case (Some rs)
    show ?thesis
    proof (cases "n \<in> set seen")
      case True
      with Some Cons.prems have "routes_from ae (operators_handle mw) seen ns s = Some s'" by simp
      then show ?thesis by (rule Cons.IH) (rule Cons.prems(2))
    next
      case False
      with Some Cons.prems(1) obtain s1 where s1: "handle_all (operators_handle mw) rs s = Some s1"
        "routes_from ae (operators_handle mw) (n # seen) ns s1 = Some s'" by (auto split: option.splits)
      note m = handle_all_mounts [OF s1(1)]
      have "P q g" if "(q, g) \<in> set (sv_mux s1)" for q g
        using that m Cons.prems(2) [of q g] assms(3) [OF Some] by auto
      from Cons.IH [OF s1(2) this] m show ?thesis by simp
    qed
  qed
qed

lemma probes_of_an_endpoint:
  assumes "map_of (endpoints ae) n = Some rs" "(q, h) \<in> set rs"
  shows "if is_probe q then h = livez \<or> h = readyz (ae_text ae) (ae_view ae) else True"
proof -
  have open_patterns: "is_probe ''GET /livez''" "is_probe ''GET /actuator/livez''" "is_probe ''GET /readyz''"
    "is_probe ''GET /actuator/readyz''" "\<not> is_probe ''GET /actuator/info''" "\<not> is_probe ''GET /actuator/metrics''"
    "\<not> is_probe ''/actuator/loglevel''" "\<not> is_probe ''GET /actuator/pprof/''"
    "\<not> is_probe ''GET /actuator/pprof/cmdline''" "\<not> is_probe ''GET /actuator/pprof/profile''"
    "\<not> is_probe ''GET /actuator/pprof/trace''" "\<not> is_probe ''GET /actuator/pprof/symbol''"
    "\<not> is_probe ''POST /actuator/pprof/symbol''" by code_simp+
  from assms show ?thesis by (auto simp: endpoints_def open_patterns split: if_splits)
qed

lemma reply_level: "reply code doc r c = (p, r', c') \<Longrightarrow> cn_level c' = cn_level c"
  by (auto simp: reply_def split: prod.splits)

lemma run_checks_level: "run_checks pr x cs st code out c = (st', code', out', c') \<Longrightarrow> cn_level c' = cn_level c"
  by (induction cs arbitrary: st code out c)
    (fastforce simp: Let_def split: prod.splits option.splits)+

lemma probes_closed: "closed_to A livez" "closed_to A (readyz pr view)"
  by (auto simp: livez_def readyz_def Let_def intro!: closed_toI split: if_splits prod.splits
      dest!: reply_level run_checks_level)

lemma hello_closed: "closed_to A (typed_handle pr hello_response (bind_hello path_value) say_hello)"
  by (auto simp: typed_handle_def bind_hello_def say_hello_def intro!: closed_toI dest!: answer_level)

lemma order_closed: "closed_to A order_create"
  by (auto simp: order_create_def order_accept_def intro!: closed_toI dest!: answer_level split: option.splits)

lemma require_keeps_closed: "keeps_closed A (require want all)"
  by (rule keeps_closedI) (auto simp: require_def split: option.splits if_splits dest: deny_level)

lemma guarded_order_closed: "closed_to A (require_scope scopes order_create)"
  using require_keeps_closed order_closed unfolding keeps_closed_def require_scope_def by blast

section \<open>The service\<close>

lemma secure_build_parts:
  fixes wr :: "(principal, 'w, 'k) wiring" and s :: "('w, 'p, 'v, 'k) secure_app"
  assumes "secure_build wr ke auth pr path_value cfg t v = Some (Inr s)"
  shows "\<exists>app act srv sec act' srv1.
    app_new \<lparr>cfg_log = xc_log cfg, cfg_lifecycle = xc_lifecycle cfg\<rparr> = (Inr app :: 'k goerr + ('w, 'k) app) \<and>
    actuator_new (xc_actuator cfg) = (Inr act :: 'k goerr + (principal, 'w, 'k) actuator) \<and>
    web_new (xc_web cfg) True = (Inr srv :: 'k goerr + (principal, 'w) server) \<and>
    security_middleware ke auth (xc_security cfg) t v = Inr (sec, xa_keys s) \<and>
    mount_on (wr_env wr) (operators_handle (require_scope [''actuator''])) act
       (web_use (default_middleware base_logger @ sec) srv) = Some (act', srv1) \<and>
    secure_routes pr path_value srv1 = Some (xa_web s) \<and>
    xa_app s = app_add [actuator_component wr, web_component wr] app \<and> xa_actuator s = act'"
  using assms unfolding secure_build_def
  by (simp split: sum.splits option.splits prod.splits; force)

lemma secure_routes_mount:
  "secure_routes pr path_value s = Some s' \<Longrightarrow>
     sv_mw s' = sv_mw s \<and> sv_mux s' = sv_mux s @
       [(''GET /hello/{name}'', typed_handle pr hello_response (bind_hello path_value) say_hello),
        (''POST /orders'', require_scope [''orders:write''] order_create)]"
  by (auto simp: secure_routes_def hello_routes_def order_routes_def web_handle_def mux_handle_def
      split: option.splits if_splits)

lemma mount_on_operators:
  assumes "mount_on ae (operators_handle mw) act s = Some (act', s')" "sv_mux s = []"
    and "\<And>n rs q h. map_of (endpoints ae) n = Some rs \<Longrightarrow> (q, h) \<in> set rs \<Longrightarrow>
      P q (if is_probe q then h else mw h)"
  shows "sv_mw s' = sv_mw s \<and> (\<forall>(q, g) \<in> set (sv_mux s'). P q g)"
proof (cases "ac_addr (at_cfg act) = []")
  case True
  with assms(1) have run: "routes_from ae (operators_handle mw) [] (ac_expose (at_cfg act)) s = Some s'"
    by (auto simp: mount_on_def routes_def)
  show ?thesis by (rule routes_from_mounts [where P = P, OF run _ assms(3)]) (simp_all add: assms(2))
next
  case False
  with assms show ?thesis by (auto simp: mount_on_def)
qed

lemma secure_stack_closed:
  fixes jl :: "('p, 'k) jwt_lib" and slot :: "('p, 'v, 'k, 'w) key_slot" and ke :: "('p, 'v, 'k) key_env"
  assumes "security_middleware ke (authenticate txt jl slot) cfg t v = Inr (sec, keys)"
  obtains opts where
    "list_all (keeps_closed (holder jl slot opts scope)) (default_middleware base_logger @ sec)"
    "\<And>jo. opts = Some jo \<Longrightarrow> \<exists>ks. authenticate_new ke (sc_jwt cfg) t v = Inr (jo, ks)"
proof -
  let ?P = "\<lambda>opts. list_all (keeps_closed (holder jl slot opts scope)) (default_middleware base_logger @ sec)"
  have base: "list_all (keeps_closed (holder jl slot opts scope)) (default_middleware base_logger)" for opts
    by (simp add: default_middleware_def request_id_closed recovery_closed logging_closed holder_of_caller)
  from assms obtain c where c: "cors (sc_cors cfg) = (Inr c :: 'k goerr + (principal, 'w) middleware)"
    by (auto simp: security_middleware_def split: sum.splits)
  show thesis
  proof (cases "jwt_is_zero (sc_jwt cfg)")
    case True
    with assms c have "?P None"
      by (auto simp: security_middleware_def Let_def base headers_closed cors_closed [OF c])
    then show thesis by (rule that) simp
  next
    case False
    with assms c obtain jo ks where jo: "authenticate_new ke (sc_jwt cfg) t v = Inr (jo, ks)"
      by (auto simp: security_middleware_def Let_def split: sum.splits)
    with False assms c have "?P (Some jo)"
      by (auto simp: security_middleware_def Let_def base headers_closed cors_closed [OF c] authenticate_closed)
    then show thesis by (rule that) (use jo in auto)
  qed
qed


lemma mount_behind_operators:
  assumes "actuator_new cfg = Inr a" "sv_mux s = []"
  shows "\<exists>a' s'. mount_on ae (operators_handle mw) a s = Some (a', s') \<and>
    map fst (sv_mux s') = (if ac_addr cfg = [] then concat (map endpoint_patterns (dedup [] (exposed_names cfg))) else [])"
proof -
  note new = actuator_new_expose [OF assms(1)]
  show ?thesis
  proof (cases "ac_addr cfg = []")
    case True
    from operators.routes_mount [of "ac_expose (at_cfg a)" "[]" s ae mw] new assms(2)
    obtain s' where "routes ae (operators_handle mw) a s = Some s'"
      "map fst (sv_mux s') = concat (map endpoint_patterns (dedup [] (ac_expose (at_cfg a))))"
      by (auto simp: routes_def)
    with True new show ?thesis by (auto simp: mount_on_def exposed_names_def)
  next
    case False
    from mux.routes_mount [of "ac_expose (at_cfg a)" "[]" "[]" ae] new
    obtain m where "routes ae mux_handle a [] = Some m" by (auto simp: routes_def)
    with False new assms(2) show ?thesis by (auto simp: mount_on_def)
  qed
qed

lemma secure_wiring_guards:
  fixes wr :: "(principal, 'w, 'k) wiring" and ke :: "('p, 'v, 'k) key_env"
  shows "\<exists>res. secure_build wr ke auth pr path_value cfg t v = Some res \<and>
    (case res of
       Inl e \<Rightarrow> True
     | Inr s \<Rightarrow>
         (\<exists>sec. security_middleware ke auth (xc_security cfg) t v = Inr (sec, xa_keys s) \<and>
            sv_mw (xa_web s) = default_middleware base_logger @ sec) \<and>
         map fst (sv_mux (xa_web s)) =
           (if ac_addr (xc_actuator cfg) = []
            then concat (map endpoint_patterns (dedup [] (exposed_names (xc_actuator cfg)))) else []) @
           [''GET /hello/{name}'', ''POST /orders''] \<and>
         (\<forall>(q, g) \<in> set (sv_mux (xa_web s)).
            is_probe q \<or> q = ''GET /hello/{name}'' \<or> (\<exists>scope h. g = require_scope [scope] h)))"
proof -
  consider (err) e where "secure_build wr ke auth pr path_value cfg t v = Some (Inl e)"
    | (ok) app act srv sec keys where
      "app_new \<lparr>cfg_log = xc_log cfg, cfg_lifecycle = xc_lifecycle cfg\<rparr> = (Inr app :: 'k goerr + ('w, 'k) app)"
      "actuator_new (xc_actuator cfg) = (Inr act :: 'k goerr + (principal, 'w, 'k) actuator)"
      "web_new (xc_web cfg) True = (Inr srv :: 'k goerr + (principal, 'w) server)"
      "security_middleware ke auth (xc_security cfg) t v = Inr (sec, keys)"
    by (cases "app_new \<lparr>cfg_log = xc_log cfg, cfg_lifecycle = xc_lifecycle cfg\<rparr> :: 'k goerr + ('w, 'k) app";
        cases "actuator_new (xc_actuator cfg) :: 'k goerr + (principal, 'w, 'k) actuator";
        cases "web_new (xc_web cfg) True :: 'k goerr + (principal, 'w) server";
        cases "security_middleware ke auth (xc_security cfg) t v";
        force simp: secure_build_def)
  then show ?thesis
  proof cases
    case err
    then show ?thesis by simp
  next
    case ok
    let ?srv = "web_use (default_middleware base_logger @ sec) srv"
    let ?ms = "if ac_addr (xc_actuator cfg) = []
      then concat (map endpoint_patterns (dedup [] (exposed_names (xc_actuator cfg)))) else []"
    have fresh: "sv_mux ?srv = []" "sv_mw ?srv = default_middleware base_logger @ sec"
      using web_new_fresh [OF ok(3)] by (simp_all add: web_use_def)
    obtain act' srv1 where mount: "mount_on (wr_env wr) (operators_handle (require_scope [''actuator''])) act ?srv =
        Some (act', srv1)" and ms: "map fst (sv_mux srv1) = ?ms"
      using mount_behind_operators [OF ok(2) fresh(1)] by blast
    have m: "sv_mw srv1 = sv_mw ?srv \<and> (\<forall>(q, g) \<in> set (sv_mux srv1).
        is_probe q \<or> (\<exists>scope h. g = require_scope [scope] h))"
      by (rule mount_on_operators [OF mount fresh(1)]) auto
    have sub: "set ?ms \<subseteq> all_patterns"
      using patterns_of_an_endpoint by (auto split: if_splits)
    have "''POST /orders'' \<notin> all_patterns"
      by (simp add: all_patterns_def endpoint_names_def endpoint_patterns_def)
    moreover have "set (map fst (sv_mux srv1)) \<subseteq> all_patterns"
      unfolding ms by (rule sub)
    ultimately have "''GET /hello/{name}'' \<notin> fst ` set (sv_mux srv1)" "''POST /orders'' \<notin> fst ` set (sv_mux srv1)"
      using hello_is_no_endpoint by auto
    then obtain srv2 where routes: "secure_routes pr path_value srv1 = Some srv2"
      by (simp add: secure_routes_def hello_routes_def order_routes_def web_handle_def mux_handle_def)
    note added = secure_routes_mount [OF routes]
    let ?s = "\<lparr>xa_app = app_add [actuator_component wr, web_component wr] app, xa_web = srv2,
      xa_actuator = act', xa_keys = keys\<rparr>"
    have built: "secure_build wr ke auth pr path_value cfg t v = Some (Inr ?s)"
      using ok mount routes by (simp add: secure_build_def)
    have mw: "\<exists>sec. security_middleware ke auth (xc_security cfg) t v = Inr (sec, keys) \<and>
        sv_mw srv2 = default_middleware base_logger @ sec"
      using ok(4) m added fresh(2) by metis
    have pats: "map fst (sv_mux srv2) = ?ms @ [''GET /hello/{name}'', ''POST /orders'']"
      using added ms by simp
    have guards: "\<forall>(q, g) \<in> set (sv_mux srv2).
        is_probe q \<or> q = ''GET /hello/{name}'' \<or> (\<exists>scope h. g = require_scope [scope] h)"
      using m added by auto
    show ?thesis
      by (rule exI [of _ "Inr ?s"], rule conjI [OF built], unfold sum.case secure_app.simps,
          intro conjI mw pats guards)
  qed
qed

lemma secure_wiring_built:
  assumes "secure_build wr ke auth pr path_value cfg t v = Some (Inr s)"
  shows "\<exists>sec. security_middleware ke auth (xc_security cfg) t v = Inr (sec, xa_keys s) \<and>
      sv_mw (xa_web s) = default_middleware base_logger @ sec"
    and "map fst (sv_mux (xa_web s)) =
      (if ac_addr (xc_actuator cfg) = []
       then concat (map endpoint_patterns (dedup [] (exposed_names (xc_actuator cfg)))) else []) @
      [''GET /hello/{name}'', ''POST /orders'']"
  using secure_wiring_guards [of wr ke auth pr path_value cfg t v] assms by auto

text \<open>
  The wiring of the secure service never panics. Behind the default middleware stands the
  whole security stack, and what is mounted is the whitelisted endpoints and the two routes of
  the features, each behind a guard that asks for a scope, but the probes and the open route.
\<close>

theorem secure_service_guards_its_routes:
  fixes wr :: "(principal, 'w, 'k) wiring" and ke :: "('p, 'v, 'k) key_env"
  shows "\<exists>res. secure_build wr ke auth pr path_value cfg t v = Some res \<and>
    (case res of
       Inl e \<Rightarrow> True
     | Inr s \<Rightarrow>
         (\<exists>sec. security_middleware ke auth (xc_security cfg) t v = Inr (sec, xa_keys s) \<and>
            sv_mw (xa_web s) = default_middleware base_logger @ sec) \<and>
         map fst (sv_mux (xa_web s)) =
           (if ac_addr (xc_actuator cfg) = []
            then concat (map endpoint_patterns (dedup [] (exposed_names (xc_actuator cfg)))) else []) @
           [''GET /hello/{name}'', ''POST /orders''] \<and>
         (\<forall>(q, g) \<in> set (sv_mux (xa_web s)).
            is_probe q \<or> q = ''GET /hello/{name}'' \<or> (\<exists>scope h. g = require_scope [scope] h)))"
  by (rule secure_wiring_guards)

lemma level_route:
  fixes wr :: "(principal, 'w, 'k) wiring" and s :: "('w, 'p, 'v, 'k) secure_app"
  assumes "secure_build wr ke auth pr path_value cfg t v = Some (Inr s)"
    and "ac_addr (xc_actuator cfg) = []" "''loglevel'' \<in> set (ac_expose (xc_actuator cfg))"
  shows "map_of (sv_mux (xa_web s)) ''/actuator/loglevel'' =
    Some (require_scope [''actuator''] (log_level_handler (ae_decode (wr_env wr))))"
proof -
  let ?P = "\<lambda>q g. q = ''/actuator/loglevel'' \<longrightarrow>
    g = require_scope [''actuator''] (log_level_handler (ae_decode (wr_env wr)))"
  obtain act srv sec act' srv1 where
    srv: "web_new (xc_web cfg) True = (Inr srv :: 'k goerr + (principal, 'w) server)"
    and mount: "mount_on (wr_env wr) (operators_handle (require_scope [''actuator''])) act
       (web_use (default_middleware base_logger @ sec) srv) = Some (act', srv1)"
    and routes: "secure_routes pr path_value srv1 = Some (xa_web s)"
    using secure_build_parts [OF assms(1)] by blast
  have fresh: "sv_mux (web_use (default_middleware base_logger @ sec) srv) = []"
    using web_new_fresh [OF srv] by (simp add: web_use_def)
  have no: "\<not> is_probe ''/actuator/loglevel''" by code_simp
  have one: "?P q (if is_probe q then h else require_scope [''actuator''] h)"
    if "map_of (endpoints (wr_env wr)) n = Some rs" "(q, h) \<in> set rs" for n rs q h
    using that no by (auto simp: endpoints_def split: if_splits)
  have "\<forall>(q, g) \<in> set (sv_mux (xa_web s)). ?P q g"
    using mount_on_operators [where P = ?P, OF mount fresh one] secure_routes_mount [OF routes] by auto
  moreover have "map_of (sv_mux (xa_web s)) ''/actuator/loglevel'' \<noteq> None"
  proof -
    from assms(3) have "exposed_names (xc_actuator cfg) = ac_expose (xc_actuator cfg)"
      by (auto simp: exposed_names_def)
    moreover have "''/actuator/loglevel'' \<in> set (endpoint_patterns ''loglevel'')"
      by (simp add: endpoint_patterns_def)
    moreover have "map fst (sv_mux (xa_web s)) =
        concat (map endpoint_patterns (dedup [] (exposed_names (xc_actuator cfg)))) @
        [''GET /hello/{name}'', ''POST /orders'']"
      using secure_wiring_built(2) [OF assms(1)] assms(2) by simp
    ultimately have "''/actuator/loglevel'' \<in> set (map fst (sv_mux (xa_web s)))"
      using assms(3) by (auto simp: set_dedup)
    then show ?thesis by (simp add: map_of_eq_None_iff)
  qed
  ultimately show ?thesis using map_of_SomeD by fastforce
qed

section \<open>Its life\<close>

lemma secure_app_idle:
  fixes wr :: "(principal, 'w, 'k) wiring" and s :: "('w, 'p, 'v, 'k) secure_app"
  assumes "secure_build wr ke auth pr path_value cfg t v = Some (Inr s)"
  shows "app_idle (xa_app s)"
proof -
  obtain app where app: "app_new \<lparr>cfg_log = xc_log cfg, cfg_lifecycle = xc_lifecycle cfg\<rparr> = (Inr app :: 'k goerr + ('w, 'k) app)"
    and s: "xa_app s = app_add [actuator_component wr, web_component wr] app"
    using secure_build_parts [OF assms] by blast
  from app have "app_idle app"
    by (auto simp: app_new_def Let_def app_idle_def life_inv_def split: if_splits sum.splits)
  with s show ?thesis by (simp add: app_add_def app_idle_def life_inv_def)
qed

text \<open>
  However the run of the secure service ends, it has not panicked and every Component it
  started has been stopped, in the reverse order.
\<close>

theorem secure_run_stops_what_it_started:
  fixes wr :: "(principal, 'w, 'k) wiring"
  assumes "secure_run loaded (\<lambda>cfg. secure_build wr ke auth pr path_value cfg t v) c sig w res w'"
  shows "res \<noteq> None \<and> (\<exists>new. trace w' = trace w @ new \<and> stopped_names new = rev (started_names new))"
  using assms
proof cases
  case (secure_panics cfg)
  with secure_wiring_guards [of wr ke auth pr path_value cfg t v] show ?thesis by auto
next
  case (secure_runs cfg s r a')
  with run_balanced [OF secure_app_idle [OF secure_runs(3)] secure_runs(4)] show ?thesis by auto
qed (auto intro: exI [of _ "[]"])

section \<open>A concrete service\<close>

text \<open>One with a single key at an https address and a token that has the operators' scope.\<close>

definition operator_jwt :: "(unit, unit) jwt_lib" where
  "operator_jwt = sample_jwt\<lparr>jl_verify := (\<lambda>opts raw keys t. Inr [(''scope'', ClaimText ''actuator'')])\<rparr>"

definition secure_wiring :: "(principal, unit, unit) wiring" where
  "secure_wiring =
     (let m = \<lparr>m_start = \<lambda>x t w. (Inr None, t, w), m_stop = \<lambda>x t w. (None, t, w)\<rparr>;
          idle = (\<lambda>r c. (None, r, c)) in
      \<lparr>wr_sql_open = \<lambda>_ _. None,
       wr_env = \<lparr>ae_text = \<lambda>_. [], ae_view = \<lambda>_. sample_view, ae_build = None, ae_decode = \<lambda>_. Inr ''DEBUG'',
         ae_metrics = idle, ae_profile = \<lambda>_. idle, ae_index = idle,
         ae_cmdline = idle, ae_cpu = idle, ae_trace = idle, ae_symbol = idle\<rparr>,
       wr_web = m, wr_db = m, wr_actuator = m, wr_trace = m,
       wr_db_check = \<lambda>x t w. (None, t, w), wr_actuator_drain = \<lambda>x t w. ((), t, w)\<rparr>)"

definition secure_keys :: "(unit, unit, unit) key_env" where
  "secure_keys =
     \<lparr>ke_keys = \<lparr>kw_point = \<lambda>_ _. Inr (), kw_json = \<lambda>_. Inr [], kw_pem = \<lambda>_. None, kw_pkix = \<lambda>_. Inr (OtherType []),
        kw_pkcs1 = \<lambda>_. Inr (OtherType []), kw_cert = \<lambda>_. Inr (OtherType []), kw_base64_error = \<lambda>_. ErrText []\<rparr>,
      ke_net = \<lparr>nw_url = \<lambda>_. Inr (''https'', ''auth.example.com''), nw_loopback = \<lambda>_. False\<rparr>,
      ke_get = \<lambda>_ t v. (Inl (ErrText ''down''), t, v), ke_read = \<lambda>_ _. Inl (ErrText ''missing'')\<rparr>"

definition secure_sample :: secure_config where
  "secure_sample =
     \<lparr>xc_log = pc_log sample_preset, xc_lifecycle = pc_lifecycle sample_preset, xc_web = pc_web sample_preset,
      xc_actuator = \<lparr>ac_addr = [], ac_expose = [''livez'', ''readyz'', ''info'', ''metrics'', ''loglevel''],
        ac_show_details = []\<rparr>,
      xc_security = \<lparr>sc_hsts_max_age = 4320 * 60 * minute,
        sc_cors = \<lparr>co_origins = [''https://app.example.com''], co_methods = [], co_headers = [], co_exposed = [],
          co_credentials = False, co_max_age = 0\<rparr>,
        sc_jwt = \<lparr>jc_issuer = ''https://auth.example.com/'', jc_audience = [''orders-api''],
          jc_jwks_url = ''https://auth.example.com/.well-known/jwks.json'', jc_jwks_file = [],
          jc_public_key_file = [], jc_leeway = 0\<rparr>\<rparr>\<rparr>"

definition level_request :: "principal request" where
  "level_request = bearer_request\<lparr>rq_method := ''PUT'', rq_path := ''/actuator/loglevel''\<rparr>"

definition build_sample :: "(unit goerr + (unit, unit, unit, unit) secure_app) option" where
  "build_sample = secure_build secure_wiring secure_keys (authenticate (\<lambda>_. []) operator_jwt sample_slot)
     (\<lambda>_. []) (\<lambda>_. ''ada'') secure_sample 0 ()"

abbreviation sample_pick :: router where
  "sample_pick \<equiv> (\<lambda>_ _ _. Inl ''/actuator/loglevel'')"

lemma sample_service:
  "\<exists>s opts m. build_sample = Some (Inr s) \<and> cors (sc_cors (xc_security secure_sample)) = (Inr m :: unit goerr + _) \<and>
     sv_mw (xa_web s) = default_middleware base_logger @ [headers_middleware (4320 * 60 * minute), m,
       authenticate (\<lambda>_. []) operator_jwt sample_slot opts]"
proof -
  have aud: "trim_space ''orders-api'' \<noteq> []" by code_simp
  obtain m where m: "cors (sc_cors (xc_security secure_sample)) = (Inr m :: unit goerr + (principal, unit) middleware)"
    by (simp add: cors_def secure_sample_def)
  let ?a = "authenticate (\<lambda>_. []) operator_jwt sample_slot"
  obtain opts keys where sec: "security_middleware secure_keys ?a (xc_security secure_sample) 0 () =
      Inr ([headers_middleware (4320 * 60 * minute), m, ?a opts], keys)"
    using m aud
    by (simp add: security_middleware_def secure_sample_def jwt_is_zero_def authenticate_new_def keys_for_def
        named_sources_def check_jwks_url_def secure_keys_def Let_def)
  obtain res where res: "build_sample = Some res"
    using secure_wiring_guards [of secure_wiring secure_keys ?a "\<lambda>_. []" "\<lambda>_. ''ada''" secure_sample 0 "()"]
    unfolding build_sample_def by blast
  moreover have "\<not> isl res"
    using res sec unfolding build_sample_def secure_build_def
    by (auto simp: secure_sample_def sample_preset_def app_new_def actuator_new_def
        web_new_def endpoint_names_def Let_def split: option.splits prod.splits)
  ultimately obtain s where s: "build_sample = Some (Inr s)" by (cases res) auto
  with secure_wiring_built(1) [OF s [unfolded build_sample_def]] sec
  have "sv_mw (xa_web s) = default_middleware base_logger @ [headers_middleware (4320 * 60 * minute), m, ?a opts]"
    by auto
  with s m show ?thesis by blast
qed

lemma bearer_context [simp]:
  "bearer (r\<lparr>rq_logger := l\<rparr>) = bearer r" "bearer (r\<lparr>rq_max_body := n\<rparr>) = bearer r"
  by (simp_all add: bearer_def)

lemma sample_operator:
  "bearer level_request = Some ''abc''"
  "\<exists>c1. parse_with_claims operator_jwt sample_slot opts ''abc'' c = (Inr [(''scope'', ClaimText ''actuator'')], c1) \<and>
     cn_level c1 = cn_level c"
  "scopes_of [(''scope'', ClaimText ''actuator'')] = [''actuator'']"
proof -
  show "bearer level_request = Some ''abc''" by code_simp
  show "scopes_of [(''scope'', ClaimText ''actuator'')] = [''actuator'']" by code_simp
  show "\<exists>c1. parse_with_claims operator_jwt sample_slot opts ''abc'' c = (Inr [(''scope'', ClaimText ''actuator'')], c1) \<and>
     cn_level c1 = cn_level c"
    by (simp add: parse_with_claims_def operator_jwt_def sample_jwt_def sample_slot_def keyfunc_def candidates_def
        sample_keys_def Let_def)
qed

text \<open>The level is DEBUG after the operator's PUT, in the handler and under each of the middleware.\<close>

definition puts_debug :: "(principal, unit) handler \<Rightarrow> bool" where
  "puts_debug h \<longleftrightarrow> (\<forall>r c p r' c'. rq_method r = ''PUT'' \<longrightarrow> bearer r = Some ''abc'' \<longrightarrow>
     h r c = (p, r', c') \<longrightarrow> cn_level c' = level_debug)"

lemma puts_debugI:
  "(\<And>r c p r' c'. rq_method r = ''PUT'' \<Longrightarrow> bearer r = Some ''abc'' \<Longrightarrow> h r c = (p, r', c') \<Longrightarrow>
     cn_level c' = level_debug) \<Longrightarrow> puts_debug h"
  unfolding puts_debug_def by blast

lemma puts_debugD:
  "puts_debug h \<Longrightarrow> h r c = (p, r', c') \<Longrightarrow> rq_method r = ''PUT'' \<Longrightarrow> bearer r = Some ''abc'' \<Longrightarrow>
     cn_level c' = level_debug"
  unfolding puts_debug_def by blast

lemma operator_puts:
  assumes "rq_method r = ''PUT''" "rq_claims r = Some pr" "pr_scopes pr = [''actuator'']"
    and "require_scope [''actuator''] (log_level_handler (\<lambda>_. Inr ''DEBUG'')) r c = (p, r', c')"
  shows "cn_level c' = level_debug"
proof -
  have u: "unmarshal_level ''DEBUG'' = (Inr level_debug :: unit goerr + int)" by code_simp
  from assms have "reply 200 (json_map [(''level'', level_string level_debug)]) r (c\<lparr>cn_level := level_debug\<rparr>) =
      (p, r', c')"
    by (simp add: require_scope_def require_def principal_from_def has_scopes_def log_level_handler_def u)
  from reply_level [OF this] show ?thesis by simp
qed

lemma authenticated_puts:
  assumes "map_of m ''/actuator/loglevel'' =
    Some (require_scope [''actuator''] (log_level_handler (\<lambda>_. Inr ''DEBUG'')))"
  shows "puts_debug (authenticate (\<lambda>_. []) operator_jwt sample_slot opts (mux_serve sample_pick m))"
proof (rule puts_debugI)
  fix r :: "principal request" and c p r' c'
  assume r: "rq_method r = ''PUT''" "bearer r = Some ''abc''"
    and run: "authenticate (\<lambda>_. []) operator_jwt sample_slot opts (mux_serve sample_pick m) r c = (p, r', c')"
  obtain c1 where c1: "parse_with_claims operator_jwt sample_slot opts ''abc'' c =
      (Inr [(''scope'', ClaimText ''actuator'')], c1)" using sample_operator(2) by blast
  let ?r1 = "r\<lparr>rq_claims := Some (principal_of [(''scope'', ClaimText ''actuator'')]),
    rq_pattern := ''/actuator/loglevel''\<rparr>"
  obtain r2 where "require_scope [''actuator''] (log_level_handler (\<lambda>_. Inr ''DEBUG'')) ?r1 c1 = (p, r2, c')"
    using run r(2) c1 assms by (auto simp: authenticate_def mux_serve_def split: prod.splits)
  then show "cn_level c' = level_debug"
    by (rule operator_puts [where pr = "principal_of [(''scope'', ClaimText ''actuator'')]", rotated 3])
      (simp_all add: r principal_of_def sample_operator(3))
qed

lemma stack_puts:
  assumes "puts_debug h"
  shows "puts_debug (request_id h)" "puts_debug (logging lg h)" "puts_debug (recovery lg h)"
    "puts_debug (headers_middleware d h)" "cors cfg = Inr m \<Longrightarrow> puts_debug (m h)"
proof -
  note h = puts_debugD [OF assms]
  show "puts_debug (request_id h)"
    by (rule puts_debugI) (auto simp: request_id_def new_request_id_def split: if_splits dest: h)
  show "puts_debug (logging lg h)"
    by (rule puts_debugI) (auto simp: logging_def Let_def with_logger_def split: if_splits prod.splits option.splits dest!: h)
  show "puts_debug (recovery lg h)"
    by (rule puts_debugI) (auto simp: recovery_def split: rw.splits prod.splits dest!: recover_handler_level h)
  show "puts_debug (headers_middleware d h)"
    by (rule puts_debugI) (auto simp: headers_middleware_def dest: h)
  show "cors cfg = Inr m \<Longrightarrow> puts_debug (m h)"
    by (rule puts_debugI)
      (auto simp: cors_def cors_handler_def is_preflight_def Let_def split: if_splits prod.splits dest: h)
qed


end
