(* ===== verification/Dbtest.thy ===== *)
theory Dbtest
  imports Db Config
begin

text \<open>
  The database support for tests (db/dbtest/dbtest.go): the server a test starts, with what is
  torn down when the test ends, and the lint of a schema.

  The embedded PostgreSQL, the pool and the environment are parameters. A test is the list of
  what it reported and the clean-ups it has registered.
\<close>

section \<open>filepath.Join\<close>

text \<open>path/filepath on Unix: Clean walks the elements; \<open>out\<close> holds those kept, the last one first.\<close>

fun clean_elems :: "bool \<Rightarrow> string list \<Rightarrow> string list \<Rightarrow> string list" where
  "clean_elems rooted out [] = rev out"
| "clean_elems rooted out (e # es) =
     (if e = [] \<or> e = ''.'' then clean_elems rooted out es
      else if e = ''..'' then
        (case out of
           [] \<Rightarrow> clean_elems rooted (if rooted then [] else [e]) es
         | l # ls \<Rightarrow> clean_elems rooted (if l = ''..'' then e # out else ls) es)
      else clean_elems rooted (e # out) es)"

definition path_clean :: "string \<Rightarrow> string" where
  "path_clean p =
     (let rooted = has_prefix p ''/'';
          body = join (clean_elems rooted [] (split_on p ''/'')) ''/'';
          res = (if rooted then ''/'' @ body else body)
      in if res = [] then ''.'' else res)"

definition path_join :: "string list \<Rightarrow> string" where
  "path_join es =
     (case dropWhile (\<lambda>e. e = []) es of [] \<Rightarrow> [] | rest \<Rightarrow> path_clean (join rest ''/''))"

section \<open>A server for a test\<close>

datatype cleanup = StopServer | ClosePool

text \<open>\<open>Fatalf\<close> ends the function with its report; \<open>Errorf\<close> reports and goes on.\<close>

record test_log =
  tl_reports :: "string list"
  tl_cleanups :: "cleanup list"

definition new_test :: test_log where
  "new_test = \<lparr>tl_reports = [], tl_cleanups = []\<rparr>"

definition tb_error :: "string \<Rightarrow> test_log \<Rightarrow> test_log" where
  "tb_error msg tb = tb\<lparr>tl_reports := tl_reports tb @ [msg]\<rparr>"

definition tb_cleanup :: "cleanup \<Rightarrow> test_log \<Rightarrow> test_log" where
  "tb_cleanup c tb = tb\<lparr>tl_cleanups := tl_cleanups tb @ [c]\<rparr>"

record server_config =
  sv_port :: nat
  sv_binaries :: string
  sv_runtime :: string
  sv_data :: string

text \<open>
  What the test meets: the kernel's port, GOBOOT_PG_BINARIES (empty when it is not set),
  os.UserCacheDir, os.TempDir, tb.TempDir, the calls of the embedded server and its URL,
  sql.Open, and what db.NewProvider rests on.
\<close>

record 'k test_env =
  te_text :: "'k \<Rightarrow> string"
  te_port :: "'k goerr + nat"
  te_binaries :: string
  te_cache :: "'k goerr + string"
  te_tmp :: string
  te_dir :: string
  te_start :: "server_config \<Rightarrow> 'k goerr option"
  te_stop :: "'k goerr option"
  te_url :: "server_config \<Rightarrow> string"
  te_open :: "string \<Rightarrow> string \<Rightarrow> 'k goerr option"
  te_locker :: "'k goerr option"
  te_goose :: "provider \<Rightarrow> 'k goerr option"
  te_up :: "provider \<Rightarrow> 'k goerr option"

definition binaries_path :: "'k test_env \<Rightarrow> string" where
  "binaries_path te =
     (if te_binaries te \<noteq> [] then te_binaries te
      else path_join [(case te_cache te of Inl e \<Rightarrow> te_tmp te | Inr cache \<Rightarrow> cache),
             ''go-boot'', ''embedded-postgres''])"

definition fatal :: "string \<Rightarrow> 'k test_env \<Rightarrow> 'k goerr \<Rightarrow> test_log \<Rightarrow> 'a option \<times> test_log" where
  "fatal what te e tb = (None, tb_error (''dbtest: '' @ what @ '': '' @ err_text (te_text te) e) tb)"

definition free_port :: "'k test_env \<Rightarrow> test_log \<Rightarrow> nat option \<times> test_log" where
  "free_port te tb =
     (case te_port te of
        Inl e \<Rightarrow> fatal ''find a free port'' te e tb
      | Inr p \<Rightarrow> (Some p, tb))"

text \<open>\<open>None\<close>: the test has ended. The pool is known by the connection string it was opened on.\<close>

definition start_dsn :: "'k test_env \<Rightarrow> bool \<Rightarrow> test_log \<Rightarrow> string option \<times> test_log" where
  "start_dsn te migrations tb =
     (case free_port te tb of
        (None, tb1) \<Rightarrow> (None, tb1)
      | (Some port, tb1) \<Rightarrow>
          (let cfg = \<lparr>sv_port = port, sv_binaries = binaries_path te,
                      sv_runtime = path_join [te_dir te, ''runtime''],
                      sv_data = path_join [te_dir te, ''data'']\<rparr>
           in case te_start te cfg of
                Some e \<Rightarrow> fatal ''start postgres'' te e tb1
              | None \<Rightarrow>
                  (let tb2 = tb_cleanup StopServer tb1;
                       dsn = te_url te cfg @ ''?sslmode=disable''
                   in case te_open te ''pgx'' dsn of
                        Some e \<Rightarrow> fatal ''open pool'' te e tb2
                      | None \<Rightarrow>
                          (let tb3 = tb_cleanup ClosePool tb2 in
                           if \<not> migrations then (Some dsn, tb3)
                           else (case new_provider (te_locker te) (te_goose te) ''pgx'' of
                              Inl e \<Rightarrow> fatal ''provider'' te e tb3
                            | Inr p \<Rightarrow>
                                (case te_up te p of
                                   Some e \<Rightarrow> fatal ''apply migrations'' te e tb3
                                 | None \<Rightarrow> (Some dsn, tb3)))))))"

definition dbtest_start :: "'k test_env \<Rightarrow> bool \<Rightarrow> test_log \<Rightarrow> bool \<times> test_log" where
  "dbtest_start te migrations tb =
     (case start_dsn te migrations tb of (dsn, tb') \<Rightarrow> (dsn \<noteq> None, tb'))"

text \<open>The end of a test: the clean-ups, last in first out; the server's may fail.\<close>

definition run_cleanup :: "'k test_env \<Rightarrow> cleanup \<Rightarrow> test_log \<Rightarrow> test_log" where
  "run_cleanup te c tb =
     (case c of
        ClosePool \<Rightarrow> tb
      | StopServer \<Rightarrow>
          (case te_stop te of
             Some e \<Rightarrow> tb_error (''dbtest: stop postgres: '' @ err_text (te_text te) e) tb
           | None \<Rightarrow> tb))"

definition cleanup_order :: "test_log \<Rightarrow> cleanup list" where
  "cleanup_order tb = rev (tl_cleanups tb)"

definition end_test :: "'k test_env \<Rightarrow> test_log \<Rightarrow> test_log" where
  "end_test te tb = fold (run_cleanup te) (cleanup_order tb) tb"

section \<open>The schema\<close>

text \<open>information_schema.columns and information_schema.tables, as far as the lint reads them.\<close>

record schema_column =
  co_schema :: string
  co_table :: string
  co_name :: string
  co_type :: string

record schema_table =
  ta_schema :: string
  ta_name :: string
  ta_type :: string

record schema =
  sm_columns :: "schema_column list"
  sm_tables :: "schema_table list"

text \<open>The pattern \<open>^[a-z_][a-z0-9_]*$\<close>.\<close>

definition snake_head :: "char \<Rightarrow> bool" where
  "snake_head c \<longleftrightarrow> between 97 c 122 \<or> c = CHR ''_''"

definition snake_case :: "string \<Rightarrow> bool" where
  "snake_case s = (case s of [] \<Rightarrow> False
     | c # cs \<Rightarrow> snake_head c \<and> list_all (\<lambda>c. snake_head c \<or> between 48 c 57) cs)"

text \<open>
  The three queries on a schema; \<open>skipped\<close> is \<open>$1\<close>. ORDER BY 1 sorts the names by their bytes, as
  the collation of the identifier type does.
\<close>

definition column_path :: "schema_column \<Rightarrow> string" where
  "column_path c = co_table c @ ''.'' @ co_name c"

definition bad_identifiers :: "schema \<Rightarrow> string list \<Rightarrow> string list" where
  "bad_identifiers sm skipped =
     sort (map column_path (filter (\<lambda>c. co_schema c = ''public'' \<and> co_table c \<notin> set skipped \<and>
       (\<not> snake_case (co_table c) \<or> \<not> snake_case (co_name c))) (sm_columns sm)))"

definition naive_timestamps :: "schema \<Rightarrow> string list \<Rightarrow> string list" where
  "naive_timestamps sm skipped =
     sort (map column_path (filter (\<lambda>c. co_schema c = ''public'' \<and> co_table c \<notin> set skipped \<and>
       co_type c = ''timestamp without time zone'') (sm_columns sm)))"

definition has_version :: "schema \<Rightarrow> schema_table \<Rightarrow> bool" where
  "has_version sm t \<longleftrightarrow>
     list_ex (\<lambda>c. co_schema c = ta_schema t \<and> co_table c = ta_name t \<and> co_name c = ''version'') (sm_columns sm)"

definition unversioned :: "schema \<Rightarrow> string list \<Rightarrow> string list" where
  "unversioned sm skipped =
     sort (map ta_name (filter (\<lambda>t. ta_schema t = ''public'' \<and> ta_type t = ''BASE TABLE'' \<and>
       ta_name t \<notin> set skipped \<and> \<not> has_version sm t) (sm_tables sm)))"

section \<open>The lint\<close>

type_synonym lint_query = "schema \<Rightarrow> string list \<Rightarrow> string list"

definition lint_checks :: "(string \<times> lint_query) list" where
  "lint_checks =
     [(''identifier is not lower_snake_case'', bad_identifiers),
      (''timestamp column has no time zone'', naive_timestamps),
      (''table has no version column, so JPA optimistic locking cannot work'', unversioned)]"

text \<open>
  A pool on a schema: the error of the call of QueryContext with some arguments, of the Scan of a
  row, and of the end of the rows.
\<close>

record 'k lint_pool =
  lp_schema :: schema
  lp_query :: "lint_query \<Rightarrow> 'k goerr option"
  lp_scan :: "string \<Rightarrow> 'k goerr option"
  lp_end :: "string list \<Rightarrow> 'k goerr option"

fun scan_rows :: "'k lint_pool \<Rightarrow> string list \<Rightarrow> string list \<Rightarrow> 'k goerr + string list" where
  "scan_rows lp [] out = (case lp_end lp out of Some e \<Rightarrow> Inl e | None \<Rightarrow> Inr out)"
| "scan_rows lp (r # rs) out =
     (case lp_scan lp r of Some e \<Rightarrow> Inl e | None \<Rightarrow> scan_rows lp rs (out @ [r]))"

definition query_strings :: "'k lint_pool \<Rightarrow> lint_query \<Rightarrow> string list \<Rightarrow> 'k goerr + string list" where
  "query_strings lp q skipped =
     (case lp_query lp q of
        Some e \<Rightarrow> Inl e
      | None \<Rightarrow> scan_rows lp (q (lp_schema lp) skipped) [])"

fun lint_loop :: "'k lint_pool \<Rightarrow> string list \<Rightarrow> (string \<times> lint_query) list \<Rightarrow> string list \<Rightarrow>
    'k goerr + string list" where
  "lint_loop lp skipped [] findings = Inr findings"
| "lint_loop lp skipped ((what, q) # cs) findings =
     (case query_strings lp q skipped of
        Inl e \<Rightarrow> Inl (ErrWrap (what @ '': '') e)
      | Inr found \<Rightarrow>
          lint_loop lp skipped cs
            (if found \<noteq> [] then findings @ [what @ '': '' @ join found '', ''] else findings))"

text \<open>\<open>None\<close> is a nil list, which is taken for an empty one.\<close>

definition lint :: "'k lint_pool \<Rightarrow> string list option \<Rightarrow> 'k goerr + string list" where
  "lint lp skipped =
     lint_loop lp (case skipped of None \<Rightarrow> [] | Some s \<Rightarrow> s) lint_checks []"

definition skipped_tables :: "string list" where
  "skipped_tables = [''goose_db_version'', ''flyway_schema_history'', ''databasechangelog'',
     ''databasechangeloglock'']"

definition lint_conventions :: "('k \<Rightarrow> string) \<Rightarrow> 'k lint_pool \<Rightarrow> test_log \<Rightarrow> test_log" where
  "lint_conventions txt lp tb =
     (case lint lp (Some skipped_tables) of
        Inl e \<Rightarrow> tb_error (''dbtest: lint: '' @ err_text txt e) tb
      | Inr findings \<Rightarrow> fold (\<lambda>f. tb_error (''dbtest: '' @ f)) findings tb)"

end
