(* ===== verification/Dbtest_Props.thy ===== *)
theory Dbtest_Props
  imports Dbtest
begin

text \<open>
  What the test support promises: whatever fails, a server that was started is stopped and its
  pool closed before; and the lint reports a schema exactly when it breaks one of the three
  conventions, go-boot's own tables and those of the migration tools left out.
\<close>

section \<open>The end of a test\<close>

text \<open>
  Starting a server for a test either gives a pool and reports nothing, and the end of the test
  closes the pool and then stops the server; or it has ended the test with one report, and what
  is torn down is what had been set up. Clean-ups of the test's own come after these.
\<close>

theorem pool_closes_before_the_server_stops:
  "case start_dsn te migrations tb of
     (Some dsn, tb') \<Rightarrow>
       tl_reports tb' = tl_reports tb \<and> cleanup_order tb' = [ClosePool, StopServer] @ cleanup_order tb
   | (None, tb') \<Rightarrow>
       (\<exists>msg. tl_reports tb' = tl_reports tb @ [msg]) \<and>
       (\<exists>new \<in> {[], [StopServer], [ClosePool, StopServer]}. cleanup_order tb' = new @ cleanup_order tb)"
  by (auto simp: start_dsn_def free_port_def fatal_def tb_error_def tb_cleanup_def cleanup_order_def Let_def
      split: sum.splits option.splits prod.splits)

section \<open>The lint\<close>

text \<open>A pool that answers.\<close>

definition healthy :: "schema \<Rightarrow> 'k lint_pool" where
  "healthy sm = \<lparr>lp_schema = sm, lp_query = \<lambda>_. None, lp_scan = \<lambda>_. None, lp_end = \<lambda>_. None\<rparr>"

lemma healthy_simps [simp]:
  "lp_query (healthy sm) q = None" "lp_schema (healthy sm) = sm"
  by (simp_all add: healthy_def)

lemma healthy_rows: "scan_rows (healthy sm) rs out = Inr (out @ rs)"
  by (induction rs arbitrary: out) (simp_all add: healthy_def)

lemma healthy_query: "query_strings (healthy sm) q skipped = Inr (q sm skipped)"
  by (simp add: query_strings_def healthy_rows)

definition finding :: "string \<Rightarrow> string list \<Rightarrow> string list" where
  "finding what found = (if found = [] then [] else [what @ '': '' @ join found '', ''])"

text \<open>The conventions, for one column and for one table.\<close>

definition good_column :: "string list \<Rightarrow> schema_column \<Rightarrow> bool" where
  "good_column skipped c \<longleftrightarrow>
     (co_schema c = ''public'' \<longrightarrow> co_table c \<in> set skipped \<or>
        snake_case (co_table c) \<and> snake_case (co_name c) \<and> co_type c \<noteq> ''timestamp without time zone'')"

definition good_table :: "schema \<Rightarrow> string list \<Rightarrow> schema_table \<Rightarrow> bool" where
  "good_table sm skipped t \<longleftrightarrow>
     (ta_schema t = ''public'' \<longrightarrow> ta_type t = ''BASE TABLE'' \<longrightarrow> ta_name t \<in> set skipped \<or> has_version sm t)"

lemma sort_Nil_iff [simp]: "sort xs = [] \<longleftrightarrow> xs = []"
  by (metis length_0_conv length_sort)

lemma queries_empty:
  "bad_identifiers sm skipped = [] \<and> naive_timestamps sm skipped = [] \<longleftrightarrow>
     list_all (good_column skipped) (sm_columns sm)"
  "unversioned sm skipped = [] \<longleftrightarrow> list_all (good_table sm skipped) (sm_tables sm)"
  by (auto simp: bad_identifiers_def naive_timestamps_def unversioned_def good_column_def good_table_def
      filter_empty_conv list_all_iff)

lemma healthy_lint:
  "lint (healthy sm) (Some skipped) =
     Inr (finding ''identifier is not lower_snake_case'' (bad_identifiers sm skipped) @
          finding ''timestamp column has no time zone'' (naive_timestamps sm skipped) @
          finding ''table has no version column, so JPA optimistic locking cannot work'' (unversioned sm skipped))"
  by (simp add: lint_def lint_checks_def healthy_query finding_def)

lemma reports_of_fold:
  "tl_reports (fold (\<lambda>f. tb_error (''dbtest: '' @ f)) fs tb) = tl_reports tb @ map (\<lambda>f. ''dbtest: '' @ f) fs"
  by (induction fs arbitrary: tb) (simp_all add: tb_error_def)

text \<open>
  On a pool that answers the lint reports nothing exactly when every column and every table of
  the public schema keeps the conventions, the tables of the migration tools left out.
\<close>

theorem lint_passes_exactly_the_conventions:
  "tl_reports (lint_conventions txt (healthy sm) tb) = tl_reports tb \<longleftrightarrow>
     list_all (good_column skipped_tables) (sm_columns sm) \<and>
     list_all (good_table sm skipped_tables) (sm_tables sm)"
proof -
  have "tl_reports (lint_conventions txt (healthy sm) tb) = tl_reports tb \<longleftrightarrow>
      bad_identifiers sm skipped_tables = [] \<and> naive_timestamps sm skipped_tables = [] \<and>
      unversioned sm skipped_tables = []"
    unfolding lint_conventions_def healthy_lint sum.case reports_of_fold by (simp add: finding_def)
  then show ?thesis by (simp add: queries_empty [symmetric])
qed

text \<open>
  go-boot's own table of migrations breaks two of the conventions, so without the list of skipped
  tables every schema go-boot creates would fail the lint; with it that table is silent.
\<close>

definition goose_schema :: schema where
  "goose_schema =
     \<lparr>sm_columns =
        [\<lparr>co_schema = ''public'', co_table = ''goose_db_version'', co_name = ''id'', co_type = ''integer''\<rparr>,
         \<lparr>co_schema = ''public'', co_table = ''goose_db_version'', co_name = ''tstamp'',
           co_type = ''timestamp without time zone''\<rparr>],
      sm_tables = [\<lparr>ta_schema = ''public'', ta_name = ''goose_db_version'', ta_type = ''BASE TABLE''\<rparr>]\<rparr>"

theorem skipping_is_load_bearing:
  "lint (healthy goose_schema) (Some skipped_tables) = (Inr [] :: unit goerr + string list) \<and>
   lint (healthy goose_schema) None =
     (Inr [''timestamp column has no time zone: goose_db_version.tstamp'',
       ''table has no version column, so JPA optimistic locking cannot work: goose_db_version''] ::
       unit goerr + string list)"
  by code_simp

end
