(* ===== verification/Consumers.thy ===== *)
theory Consumers
  imports Kafka_Loop Rabbit Web
begin

text \<open>
  The two consumers as Components of an App: what Start, Drain, Stop and Check of
  kafka/kafka.go and rabbit/rabbit.go do when the App calls them, each on its own machine
  (Kafka_Loop, Rabbit), which lives somewhere in the App's world.

  The four methods have one shape in the two packages: Start sets the machine going, Drain
  sets a flag and tells the client, Stop drains, waits for the loop or for its context, and
  ends. A \<open>machine\<close> holds what differs; a \<open>place\<close> holds what is outside: where in the world
  the state is, the log, the client's answers, and how long the wait of Stop took.
\<close>

section \<open>Machines and places\<close>

text \<open>
  \<open>mc_cancels\<close> says whether Drain has a call of the client to make; \<open>mc_cancel\<close> is given
  whether it went well. \<open>mc_about\<close> is what the line of Start adds to the Component's name.
\<close>

record ('a, 's, 'k) machine =
  mc_name :: string
  mc_tier :: int
  mc_about :: attrs
  mc_begin :: "'a \<Rightarrow> 's \<Rightarrow> 'k goerr option \<times> 's"
  mc_started :: "'s \<Rightarrow> bool"
  mc_flag :: "'s \<Rightarrow> 's"
  mc_cancels :: "'s \<Rightarrow> bool"
  mc_cancel :: "bool \<Rightarrow> 's \<Rightarrow> 's"
  mc_end :: "bool \<Rightarrow> 's \<Rightarrow> 's"
  mc_check :: "'s \<Rightarrow> 'k goerr option"

text \<open>
  \<open>pl_answers\<close> is what the client answers during Start, \<open>pl_cancel\<close> what it answers to
  Drain, and how long each takes. \<open>pl_wait\<close> is the select of Stop: True when it took the case
  of the done channel.
\<close>

record ('w, 'a, 's, 'k) place =
  pl_get :: "'w \<Rightarrow> 's"
  pl_put :: "'s \<Rightarrow> 'w \<Rightarrow> 'w"
  pl_log :: "level \<Rightarrow> string \<Rightarrow> attrs \<Rightarrow> 'w \<Rightarrow> 'w"
  pl_text :: "'k \<Rightarrow> string"
  pl_chan :: nat
  pl_answers :: "('w, 'a) call"
  pl_cancel :: "time \<Rightarrow> 'w \<Rightarrow> 'k goerr option \<times> time"
  pl_wait :: "('w, bool) call"
  pl_ctx_err :: "ctx \<Rightarrow> time \<Rightarrow> 'k goerr"

section \<open>The methods\<close>

definition consumer_start :: "('w, 'a, 's, 'k) place \<Rightarrow> ('a, 's, 'k) machine \<Rightarrow>
    ('w, 'k goerr + nat option) call" where
  "consumer_start pl m c t w =
     (case pl_answers pl c t w of
        (a, t', w1) \<Rightarrow>
          (case mc_begin m a (pl_get pl w1) of
             (Some e, s) \<Rightarrow> (Inl e, t', pl_put pl s w1)
           | (None, s) \<Rightarrow>
               (Inr (Some (pl_chan pl)), t',
                pl_log pl level_info ''consuming'' ((''component'', AText (mc_name m)) # mc_about m)
                  (pl_put pl s w1))))"

definition consumer_drain :: "('w, 'a, 's, 'k) place \<Rightarrow> ('a, 's, 'k) machine \<Rightarrow> ('w, unit) call" where
  "consumer_drain pl m c t w =
     (let s = mc_flag m (pl_get pl w);
          say = pl_log pl level_info ''draining'' [(''component'', AText (mc_name m))];
          w1 = pl_put pl s w
      in if mc_cancels m s
         then (case pl_cancel pl t w1 of
                 (None, t') \<Rightarrow> ((), t', say (pl_put pl (mc_cancel m True s) w1))
               | (Some e, t') \<Rightarrow>
                   ((), t', say (pl_log pl level_warn ''cancel consumer''
                      [(''component'', AText (mc_name m)), (''err'', AText (err_text (pl_text pl) e))]
                      (pl_put pl (mc_cancel m False s) w1))))
         else ((), t, say (pl_put pl (mc_cancel m True s) w1)))"

definition consumer_stop :: "('w, 'a, 's, 'k) place \<Rightarrow> ('a, 's, 'k) machine \<Rightarrow>
    ('w, 'k goerr option) call" where
  "consumer_stop pl m c t w =
     (if \<not> mc_started m (pl_get pl w) then (None, t, w)
      else (case consumer_drain pl m c t w of
              (_, t1, w1) \<Rightarrow>
                (case pl_wait pl c t1 w1 of
                   (clean, t2, w2) \<Rightarrow>
                     (if clean then None
                      else Some (ErrWrap ''handler still running: '' (pl_ctx_err pl c t2)),
                      t2, pl_put pl (mc_end m clean (pl_get pl w2)) w2))))"

definition consumer_component :: "('w, 'a, 's, 'k) place \<Rightarrow> ('a, 's, 'k) machine \<Rightarrow>
    ('w, 'k) component" where
  "consumer_component pl m =
     \<lparr>c_name = mc_name m, c_tier = mc_tier m, c_start = consumer_start pl m,
      c_stop = consumer_stop pl m, c_drain = Some (consumer_drain pl m),
      c_check = Some (\<lambda>c t w. (mc_check m (pl_get pl w), t, w))\<rparr>"

section \<open>Kafka\<close>

text \<open>Before its Start a Component has no loop, which is a machine whose loop is done.\<close>

definition kafka_asleep :: "kafka_config \<Rightarrow> 'h \<Rightarrow> ('h, 'k) kafka_run" where
  "kafka_asleep cfg hw =
     \<lparr>kl_comp = kafka_state_new cfg, kl_at = LoopDone, kl_errc = [], kl_taken = [],
      kl_handled = [], kl_commits = [], kl_world = hw\<rparr>"

text \<open>The answers are kgo.NewClient's, by its options, and the Ping's.\<close>

type_synonym 'k kafka_answers = "(client_opt list \<Rightarrow> 'k goerr option) \<times> 'k goerr option"

definition kafka_begin :: "'k kafka_answers \<Rightarrow> ('h, 'k) kafka_run \<Rightarrow>
    'k goerr option \<times> ('h, 'k) kafka_run" where
  "kafka_begin a s =
     (case kafka_start (fst a) (snd a) (kl_comp s) of
        (Some e, k) \<Rightarrow> (Some e, s\<lparr>kl_comp := k\<rparr>)
      | (None, k) \<Rightarrow> (None, s\<lparr>kl_comp := k, kl_at := LoopTop\<rparr>))"

definition kafka_machine :: "(fetch_err \<Rightarrow> 'k) \<Rightarrow> kafka_config \<Rightarrow>
    ('k kafka_answers, ('h, 'k) kafka_run, 'k) machine" where
  "kafka_machine as_ext cfg =
     \<lparr>mc_name = kafka_name cfg, mc_tier = kafka_tier,
      mc_about = [(''topic'', AText (kc_topic cfg)), (''group'', AText (kc_group cfg))],
      mc_begin = kafka_begin,
      mc_started = (\<lambda>s. kst_running (kl_comp s)),
      mc_flag = (\<lambda>s. s\<lparr>kl_comp := kafka_drain_flag (kl_comp s)\<rparr>),
      mc_cancels = (\<lambda>_. False),
      mc_cancel = (\<lambda>_ s. s\<lparr>kl_comp := kafka_drain_cancel (kl_comp s)\<rparr>),
      mc_end = (\<lambda>_ s. s\<lparr>kl_comp := kafka_stop_end (kl_comp s)\<rparr>),
      mc_check = (\<lambda>s. map_option (map_goerr as_ext) (kafka_check (kl_comp s)))\<rparr>"

text \<open>The steps a consumer takes by itself once it has been started: all but the end of a Stop.\<close>

definition kafka_moves :: "(bool \<Rightarrow> krecord list \<Rightarrow> 'h \<Rightarrow> 'k goerr option \<times> 'h) \<Rightarrow>
    ('h, 'k) khandler \<Rightarrow> ('h, 'k) kafka_run \<Rightarrow> ('h, 'k) kafka_run \<Rightarrow> bool" where
  "kafka_moves commit h s s' \<longleftrightarrow>
     kst_running (kl_comp s) \<and> kafka_step commit h s s' \<and>
     kst_ctx_cancelled (kl_comp s') = kst_ctx_cancelled (kl_comp s)"

section \<open>RabbitMQ\<close>

definition rabbit_machine :: "rabbit_config \<Rightarrow>
    ('k dial_replies, ('h, 'k) rabbit_state, 'k) machine" where
  "rabbit_machine cfg =
     \<lparr>mc_name = rabbit_name cfg, mc_tier = rabbit_tier,
      mc_about = [(''queue'', AText (rc_queue cfg)), (''prefetch'', ANum (rc_prefetch cfg))],
      mc_begin = rabbit_start,
      mc_started = rs_started,
      mc_flag = drain_flag,
      mc_cancels = (\<lambda>s. rs_conn s \<noteq> None),
      mc_cancel = drain_cancel,
      mc_end = stop_end,
      mc_check = rabbit_check\<rparr>"

definition rabbit_moves :: "('k \<Rightarrow> int option) \<Rightarrow> ('h, 'k) rhandler \<Rightarrow>
    ('h, 'k) rabbit_state \<Rightarrow> ('h, 'k) rabbit_state \<Rightarrow> bool" where
  "rabbit_moves code h s s' \<longleftrightarrow>
     rs_started s \<and> rabbit_step code h s s' \<and> rs_stopped s' = rs_stopped s"

section \<open>What else there is in the world\<close>

text \<open>The state at a place only moves by itself.\<close>

definition moves_in :: "('w, 'a, 's, 'k) place \<Rightarrow> ('s \<Rightarrow> 's \<Rightarrow> bool) \<Rightarrow> 'w \<Rightarrow> 'w \<Rightarrow> bool" where
  "moves_in pl mv w w' \<longleftrightarrow> mv\<^sup>*\<^sup>* (pl_get pl w) (pl_get pl w')"

text \<open>
  What a place is: the state put there is the state found there, writing a log line leaves it
  alone, and while the client answers or Stop waits it moves by itself; the done channel is
  closed only when the loop has returned.
\<close>

definition lawful_place :: "('w, 'a, 's, 'k) place \<Rightarrow> ('s \<Rightarrow> 's \<Rightarrow> bool) \<Rightarrow> ('s \<Rightarrow> bool) \<Rightarrow> bool" where
  "lawful_place pl mv returned \<longleftrightarrow>
     (\<forall>s w. pl_get pl (pl_put pl s w) = s) \<and>
     (\<forall>l msg as w. pl_get pl (pl_log pl l msg as w) = pl_get pl w) \<and>
     (\<forall>c t w a t' w'. pl_answers pl c t w = (a, t', w') \<longrightarrow> moves_in pl mv w w') \<and>
     (\<forall>c t w clean t' w'. pl_wait pl c t w = (clean, t', w') \<longrightarrow>
        moves_in pl mv w w' \<and> (clean \<longrightarrow> returned (pl_get pl w')))"

text \<open>Another Component of the App: while its methods run, the state at the place moves by itself.\<close>

definition beside :: "('w, 'a, 's, 'k) place \<Rightarrow> ('s \<Rightarrow> 's \<Rightarrow> bool) \<Rightarrow> ('w, 'k) component \<Rightarrow> bool" where
  "beside pl mv x \<longleftrightarrow>
     (\<forall>c t w r t' w'. c_start x c t w = (r, t', w') \<longrightarrow> moves_in pl mv w w') \<and>
     (\<forall>c t w r t' w'. c_stop x c t w = (r, t', w') \<longrightarrow> moves_in pl mv w w') \<and>
     (\<forall>d c t w r t' w'. c_drain x = Some d \<longrightarrow> d c t w = (r, t', w') \<longrightarrow> moves_in pl mv w w')"

end
