(* ===== verification/Consumers_Props.thy ===== *)
theory Consumers_Props
  imports Consumers Lifecycle_Props Kafka_Loop_Props Rabbit_Props
begin

text \<open>
  What a service that runs a consumer promises as a whole: the App's order of calls, the
  consumer's machine and everything else that happens in the world meet here. When Run comes
  back without an error, the Kafka consumer has committed what it handled and the RabbitMQ
  consumer has settled what it was given, whatever the other Components did.
\<close>

section \<open>The loops of the App, seen by one Component\<close>

text \<open>\<open>P\<close> is a fact about the world that a Component's methods keep.\<close>

definition start_keeps :: "('w \<Rightarrow> bool) \<Rightarrow> ('w, 'k) component \<Rightarrow> bool" where
  "start_keeps P x \<longleftrightarrow> (\<forall>c t w r t' w'. c_start x c t w = (r, t', w') \<longrightarrow> P w \<longrightarrow> P w')"

definition stop_keeps :: "('w \<Rightarrow> bool) \<Rightarrow> ('w, 'k) component \<Rightarrow> bool" where
  "stop_keeps P x \<longleftrightarrow> (\<forall>c t w r t' w'. c_stop x c t w = (r, t', w') \<longrightarrow> P w \<longrightarrow> P w')"

definition drain_keeps :: "('w \<Rightarrow> bool) \<Rightarrow> ('w, 'k) component \<Rightarrow> bool" where
  "drain_keeps P x \<longleftrightarrow>
     (\<forall>d c t w r t' w'. c_drain x = Some d \<longrightarrow> d c t w = (r, t', w') \<longrightarrow> P w \<longrightarrow> P w')"

text \<open>A method that takes a fact \<open>P\<close> to a fact \<open>Q\<close> when it succeeds.\<close>

definition start_brings :: "('w \<Rightarrow> bool) \<Rightarrow> ('w \<Rightarrow> bool) \<Rightarrow> ('w, 'k) component \<Rightarrow> bool" where
  "start_brings P Q x \<longleftrightarrow> (\<forall>c t w ch t' w'. c_start x c t w = (Inr ch, t', w') \<longrightarrow> P w \<longrightarrow> Q w')"

definition stop_brings :: "('w \<Rightarrow> bool) \<Rightarrow> ('w \<Rightarrow> bool) \<Rightarrow> ('w, 'k) component \<Rightarrow> bool" where
  "stop_brings P Q x \<longleftrightarrow> (\<forall>c t w t' w'. c_stop x c t w = (None, t', w') \<longrightarrow> P w \<longrightarrow> Q w')"

lemma perform_env: "perform ev f c w = (r, w') \<Longrightarrow> \<exists>t. f c (clock w) (env w) = (r, t, env w')"
  by (auto simp: perform_def split: prod.splits)

lemma start_keeps_perform:
  "start_keeps P x \<Longrightarrow> perform ev (c_start x) c w = (r, w') \<Longrightarrow> P (env w) \<Longrightarrow> P (env w')"
  by (drule perform_env) (auto simp: start_keeps_def)

lemma start_brings_perform:
  "start_brings P Q x \<Longrightarrow> perform ev (c_start x) c w = (Inr ch, w') \<Longrightarrow> P (env w) \<Longrightarrow> Q (env w')"
  by (drule perform_env) (auto simp: start_brings_def)

lemma stop_keeps_perform:
  "stop_keeps P x \<Longrightarrow> perform ev (c_stop x) c w = (r, w') \<Longrightarrow> P (env w) \<Longrightarrow> P (env w')"
  by (drule perform_env) (auto simp: stop_keeps_def)

lemma stop_brings_perform:
  "stop_brings P Q x \<Longrightarrow> perform ev (c_stop x) c w = (None, w') \<Longrightarrow> P (env w) \<Longrightarrow> Q (env w')"
  by (drule perform_env) (auto simp: stop_brings_def)

lemma drain_keeps_perform:
  "drain_keeps P x \<Longrightarrow> c_drain x = Some d \<Longrightarrow> perform ev d c w = (r, w') \<Longrightarrow> P (env w) \<Longrightarrow> P (env w')"
  by (drule perform_env) (auto simp: drain_keeps_def)

lemma start_loop_keeps:
  "start_loop c xs a w = (None, a', w') \<Longrightarrow> \<forall>y \<in> set xs. start_keeps P y \<Longrightarrow> P (env w) \<Longrightarrow> P (env w')"
proof (induction xs arbitrary: a w)
  case (Cons y ys)
  then obtain ch w1 where p: "perform (StartCall (c_name y)) (c_start y) c w = (Inr ch, w1)"
    and r: "start_loop c ys (watch (c_name y) ch (a\<lparr>a_started := Suc (a_started a)\<rparr>))
              (emit (StartedLog (c_name y) (c_tier y)) w1) = (None, a', w')"
    by (auto split: prod.splits sum.splits)
  from Cons.prems have "start_keeps P y" by simp
  from start_keeps_perform [OF this p Cons.prems(3)] have "P (env w1)" .
  with Cons.IH [OF r] Cons.prems(2) show ?case by simp
qed simp

lemma start_loop_brings:
  "start_loop c xs a w = (None, a', w') \<Longrightarrow> x \<in> set xs \<Longrightarrow> distinct xs \<Longrightarrow> start_brings P Q x \<Longrightarrow>
     \<forall>y \<in> set xs - {x}. start_keeps P y \<and> start_keeps Q y \<Longrightarrow> P (env w) \<Longrightarrow> Q (env w')"
proof (induction xs arbitrary: a w)
  case (Cons y ys)
  then obtain ch w1 where p: "perform (StartCall (c_name y)) (c_start y) c w = (Inr ch, w1)"
    and r: "start_loop c ys (watch (c_name y) ch (a\<lparr>a_started := Suc (a_started a)\<rparr>))
              (emit (StartedLog (c_name y) (c_tier y)) w1) = (None, a', w')"
    by (auto split: prod.splits sum.splits)
  show ?case
  proof (cases "y = x")
    case True
    with start_brings_perform [OF _ p, of P Q] Cons.prems have "Q (env w1)" by simp
    with start_loop_keeps [OF r, of Q] True Cons.prems show ?thesis by auto
  next
    case False
    with Cons.prems have "start_keeps P y" by simp
    from start_keeps_perform [OF this p Cons.prems(6)] have "P (env w1)" .
    with Cons.IH [OF r] False Cons.prems show ?thesis by auto
  qed
qed simp

lemma drain_loop_keeps:
  "drain_loop c ord is w = Some w' \<Longrightarrow> \<forall>y \<in> set ord. drain_keeps P y \<Longrightarrow> P (env w) \<Longrightarrow> P (env w')"
proof (induction "is" arbitrary: w)
  case (Cons i "is")
  then have i: "i < length ord" by (auto split: if_splits)
  show ?case
  proof (cases "c_drain (ord ! i)")
    case (Some d)
    obtain r w1 where p: "perform (DrainCall (c_name (ord ! i))) d c w = (r, w1)"
      by (meson surj_pair)
    from Cons.prems i have "drain_keeps P (ord ! i)" by simp
    from drain_keeps_perform [OF this Some p Cons.prems(3)]
    have P: "P (env (emit (DrainedLog (c_name (ord ! i))) w1))" by simp
    from Cons.prems(1) i Some p
    have "drain_loop c ord is (emit (DrainedLog (c_name (ord ! i))) w1) = Some w'" by simp
    from Cons.IH [OF this Cons.prems(2) P] show ?thesis .
  qed (use Cons i in simp)
qed simp

lemma stop_loop_keeps:
  "stop_loop c ord is err w = Some (err', w') \<Longrightarrow> \<forall>i \<in> set is. stop_keeps P (ord ! i) \<Longrightarrow>
     P (env w) \<Longrightarrow> P (env w')"
proof (induction "is" arbitrary: err w)
  case (Cons i "is")
  obtain r w1 where p: "perform (StopCall (c_name (ord ! i))) (c_stop (ord ! i)) c w = (r, w1)"
    by (meson surj_pair)
  from Cons.prems have "stop_keeps P (ord ! i)" by simp
  from stop_keeps_perform [OF this p Cons.prems(3)] have P: "P (env w1)" .
  from Cons.prems(1) p obtain err1 where "stop_loop c ord is err1 w1 = Some (err', w')"
    by (simp split: if_splits option.splits)
  from Cons.IH [OF this _ P] Cons.prems(2) show ?case by simp
qed simp

text \<open>An error, once there, stays.\<close>

lemma stop_loop_no_error: "stop_loop c ord is err w = Some (None, w') \<Longrightarrow> err = None"
proof (induction "is" arbitrary: err w)
  case (Cons i "is")
  then show ?case
    by (auto split: if_splits prod.splits option.splits)
      (metis errors_join_pair_None option.distinct(1))
qed simp

lemma stop_loop_brings:
  "stop_loop c ord is None w = Some (None, w') \<Longrightarrow> j \<in> set is \<Longrightarrow> distinct is \<Longrightarrow>
     stop_brings P Q (ord ! j) \<Longrightarrow>
     \<forall>i \<in> set is - {j}. stop_keeps P (ord ! i) \<and> stop_keeps Q (ord ! i) \<Longrightarrow>
     P (env w) \<Longrightarrow> Q (env w')"
proof (induction "is" arbitrary: w)
  case (Cons i "is")
  obtain r w1 where p: "perform (StopCall (c_name (ord ! i))) (c_stop (ord ! i)) c w = (r, w1)"
    by (meson surj_pair)
  have r: "r = None"
    using Cons.prems(1) p by (cases r) (auto split: if_splits dest: stop_loop_no_error)
  with Cons.prems(1) p have l: "stop_loop c ord is None w1 = Some (None, w')"
    by (simp split: if_splits)
  show ?case
  proof (cases "i = j")
    case True
    with r p have "perform (StopCall (c_name (ord ! i))) (c_stop (ord ! j)) c w = (None, w1)" by simp
    from stop_brings_perform [OF Cons.prems(4) this Cons.prems(6)] have Q: "Q (env w1)" .
    have "\<forall>i \<in> set is. stop_keeps Q (ord ! i)" using True Cons.prems(3,5) by auto
    from stop_loop_keeps [OF l this Q] show ?thesis .
  next
    case False
    with Cons.prems(5) have "stop_keeps P (ord ! i)" by simp
    from stop_keeps_perform [OF this p Cons.prems(6)] have P: "P (env w1)" .
    have "\<forall>i \<in> set is - {j}. stop_keeps P (ord ! i) \<and> stop_keeps Q (ord ! i)"
      using Cons.prems(5) by simp
    from Cons.IH [OF l _ _ Cons.prems(4) this P] False Cons.prems(2,3) show ?thesis by simp
  qed
qed simp

section \<open>A Run that returned no error, seen by one Component\<close>

lemma app_start_brings:
  assumes "app_start c a w = Some (None, a1, w1)" "x \<in> set (a_comps a)" "start_brings P Q x"
    and "\<forall>y \<in> set (a_comps a) - {x}. start_keeps P y \<and> start_keeps Q y" "P (env w)"
  shows "Q (env w1)"
proof -
  have names: "distinct (map c_name (a_comps a))"
    using assms(1) by (auto simp: app_start_def reject_None [symmetric] split: option.splits)
  then have dist: "distinct (sort_key c_tier (a_comps a))" by (simp add: distinct_map)
  from assms(1) names show ?thesis
  proof (cases rule: app_start_cases)
    case (ok a2 w2)
    have "x \<in> set (sort_key c_tier (a_comps a))" using assms(2) by simp
    from start_loop_brings [OF ok(4) this dist assms(3)] assms(4,5) ok(3) show ?thesis by simp
  next
    case (failed e a2 w2 a3 e2)
    then show ?thesis by (metis errors_join_pair_None option.distinct(1))
  qed
qed

lemma app_drain_keeps:
  assumes "app_drain c a w = Some w'" "\<forall>y \<in> set (a_order a). drain_keeps P y" "P (env w)"
  shows "P (env w')"
  using assms drain_loop_keeps [of c "a_order a" "[0..<a_started a]" w _ P]
  by (auto simp: app_drain_def split: option.splits)

lemma env_shutdown_events [simp]: "env (shutdown_events a w) = env w"
  by (simp add: shutdown_events_def)

lemma app_stop_brings:
  assumes inv: "life_inv a" and stop: "app_stop c a w = Some (None, a3, w3)"
    and x: "x \<in> set (take (a_started a) (a_order a))" and dist: "distinct (a_order a)"
    and own: "drain_keeps Q x" "stop_brings Q R x"
    and others: "\<forall>y \<in> set (a_order a) - {x}. drain_keeps Q y \<and> stop_keeps Q y \<and> stop_keeps R y"
    and Q: "Q (env w)"
  shows "R (env w3)"
proof -
  from stop obtain b w2 where b: "begin_shutdown a = Some b"
    and w2: "app_drain c b (shutdown_events a w) = Some w2"
    and st: "stop_started c b w2 = Some (None, a3, w3)"
    by (auto simp: app_stop_def split: option.splits)
  from begin_shutdown_ok [OF inv] b have same: "a_order b = a_order a" "a_started b = a_started a" by auto
  have "Q (env w2)"
    by (rule app_drain_keeps [OF w2]) (use own(1) others Q same in auto)
  from x obtain j where j: "j < a_started a" "j < length (a_order a)" "a_order a ! j = x"
    by (auto simp: in_set_conv_nth)
  obtain w4 where l: "stop_loop (with_timeout (clock w2) (stop_timeout (a_life b)) c) (a_order a)
      (rev [0..<a_started a]) None w2 = Some (None, w4)" "w3 = w4"
    using st same by (auto simp: stop_started_def split: option.splits)
  have le: "a_started a \<le> length (a_order a)" using inv by (simp add: life_inv_def)
  have "\<forall>i \<in> set (rev [0..<a_started a]) - {j}. a_order a ! i \<in> set (a_order a) - {x}"
    using j le dist by (auto simp: nth_eq_iff_index_eq)
  with others have "\<forall>i \<in> set (rev [0..<a_started a]) - {j}.
      stop_keeps Q (a_order a ! i) \<and> stop_keeps R (a_order a ! i)" by blast
  from stop_loop_brings [OF l(1) _ _ _ this \<open>Q (env w2)\<close>] j own(2) l(2) show ?thesis by simp
qed

lemma app_run_brings:
  assumes idle: "app_idle a" and run: "app_run_in drift c sig a w None a3 w3"
    and x: "x \<in> set (a_comps a)" "start_brings P Q x" "drain_keeps Q x" "stop_brings Q R x"
    and others: "\<forall>y \<in> set (a_comps a) - {x}. start_keeps P y \<and> start_keeps Q y \<and>
      drain_keeps Q y \<and> stop_keeps Q y \<and> stop_keeps R y"
    and drifts: "\<forall>e e'. drift e e' \<longrightarrow> Q e \<longrightarrow> Q e'" and P: "P (env w)"
  shows "R (env w3)"
  using run
proof cases
  case (run_signal a1 w1 a2 t e err)
  from app_start_brings [OF run_signal(2) x(1,2) _ P] others drifts run_signal(7) have "Q e" by blast
  from app_start_idle [OF idle run_signal(2)] watch_steps_frame [OF run_signal(3)]
  have a2: "life_inv a2" "a_order a2 = sort_key c_tier (a_comps a)" "a_started a2 = length (a_comps a)"
    by (auto simp: life_inv_def)
  have "distinct (map c_name (a_comps a))"
    using run_signal(2) by (auto simp: app_start_def reject_None [symmetric] split: option.splits)
  then have dist: "distinct (a_order a2)" using a2(2) by (simp add: distinct_map)
  have "err = None" using run_signal(1) by (simp add: eq_commute [of None])
  with run_signal(6) have stop: "app_stop (without_cancel c) a2
      (emit ShuttingDownLog (emit RunningLog w1\<lparr>clock := t, env := e\<rparr>)) = Some (None, a3, w3)" by simp
  show ?thesis
    by (rule app_stop_brings [OF a2(1) stop _ dist x(3,4)]) (use a2 x(1) others \<open>Q e\<close> in simp_all)
next
  case (run_death a1 w1 a2 t d e err)
  then show ?thesis by (metis errors_join_pair_None option.distinct(1))
qed

section \<open>The contract of a consumer's machine\<close>

text \<open>
  What the App needs of a machine: a Start of one that is asleep leaves it begun; it stays
  begun while it moves and is drained; when its loop has returned its end leaves the promise,
  which nothing afterwards breaks.
\<close>

lemma beside_keeps:
  assumes "beside pl mv x" and keeps: "\<forall>w w'. moves_in pl mv w w' \<longrightarrow> P w \<longrightarrow> P w'"
  shows "start_keeps P x" "drain_keeps P x" "stop_keeps P x"
  using assms(1) unfolding beside_def start_keeps_def drain_keeps_def stop_keeps_def
  by (meson keeps)+

lemma lawful_placeD:
  assumes "lawful_place pl mv returned"
  shows "pl_get pl (pl_put pl s w) = s" "pl_get pl (pl_log pl l msg as w) = pl_get pl w"
    and "pl_answers pl c t w = (a, t', w') \<Longrightarrow> moves_in pl mv w w'"
    and "pl_wait pl c t w = (clean, t', w') \<Longrightarrow> moves_in pl mv w w'"
    and "pl_wait pl c t w = (True, t', w') \<Longrightarrow> returned (pl_get pl w')"
  using assms unfolding lawful_place_def by blast+

locale background_machine =
  fixes m :: "('a, 's, 'k) machine" and moves :: "'s \<Rightarrow> 's \<Rightarrow> bool"
    and asleep begun returned promise :: "'s \<Rightarrow> bool"
  assumes asleep_rests: "asleep s \<Longrightarrow> \<not> moves s s'"
    and begins: "asleep s \<Longrightarrow> mc_begin m a s = (None, s') \<Longrightarrow> begun s'"
    and begun_started: "begun s \<Longrightarrow> mc_started m s"
    and moves_begun: "moves s s' \<Longrightarrow> begun s \<Longrightarrow> begun s'"
    and drain_begun: "begun s \<Longrightarrow> begun (mc_cancel m ok (mc_flag m s))"
    and end_promises: "begun s \<Longrightarrow> returned s \<Longrightarrow> promise (mc_end m True s)"
    and moves_promise: "moves s s' \<Longrightarrow> promise s \<Longrightarrow> promise s'"

sublocale background_machine \<subseteq> begun_run: kept_by_steps moves begun
  by unfold_locales (rule moves_begun)

sublocale background_machine \<subseteq> promise_run: kept_by_steps moves promise
  by unfold_locales (rule moves_promise)

context background_machine
begin

lemma asleep_stays: "moves\<^sup>*\<^sup>* s s' \<Longrightarrow> asleep s \<Longrightarrow> asleep s'"
  by (induction rule: rtranclp_induct) (auto dest: asleep_rests)

lemma moves_in_keeps:
  assumes "moves_in pl moves w w'"
  shows "asleep (pl_get pl w) \<Longrightarrow> asleep (pl_get pl w')"
    and "begun (pl_get pl w) \<Longrightarrow> begun (pl_get pl w')"
    and "promise (pl_get pl w) \<Longrightarrow> promise (pl_get pl w')"
  using assms asleep_stays begun_run.run_keeps promise_run.run_keeps by (auto simp: moves_in_def)

lemma consumer_starts:
  assumes "lawful_place pl moves returned"
  shows "start_brings (\<lambda>w. asleep (pl_get pl w)) (\<lambda>w. begun (pl_get pl w)) (consumer_component pl m)"
  unfolding start_brings_def
proof (intro allI impI)
  fix c t w ch t' w'
  assume start: "c_start (consumer_component pl m) c t w = (Inr ch, t', w')" and "asleep (pl_get pl w)"
  obtain a t1 w1 where ans: "pl_answers pl c t w = (a, t1, w1)" by (metis prod_cases3)
  from moves_in_keeps(1) [OF lawful_placeD(3) [OF assms ans]] \<open>asleep (pl_get pl w)\<close>
  have "asleep (pl_get pl w1)" .
  moreover obtain s where "mc_begin m a (pl_get pl w1) = (None, s)" "pl_get pl w' = s"
    using start ans
    by (auto simp: consumer_component_def consumer_start_def lawful_placeD [OF assms]
        split: prod.splits option.splits)
  ultimately show "begun (pl_get pl w')" by (blast intro: begins)
qed

lemma consumer_drain_begun:
  assumes "lawful_place pl moves returned" "begun (pl_get pl w)" "consumer_drain pl m c t w = (r, t', w')"
  shows "begun (pl_get pl w')"
  using assms(2,3) drain_begun
  by (auto simp: consumer_drain_def Let_def lawful_placeD [OF assms(1)]
      split: if_splits prod.splits option.splits)

lemma consumer_drains:
  assumes "lawful_place pl moves returned"
  shows "drain_keeps (\<lambda>w. begun (pl_get pl w)) (consumer_component pl m)"
  using consumer_drain_begun [OF assms] by (auto simp: drain_keeps_def consumer_component_def)

lemma consumer_stops:
  assumes "lawful_place pl moves returned"
  shows "stop_brings (\<lambda>w. begun (pl_get pl w)) (\<lambda>w. promise (pl_get pl w)) (consumer_component pl m)"
  unfolding stop_brings_def
proof (intro allI impI)
  fix c t w t' w'
  assume stop: "c_stop (consumer_component pl m) c t w = (None, t', w')" and b: "begun (pl_get pl w)"
  obtain r t1 w1 where d: "consumer_drain pl m c t w = (r, t1, w1)" by (metis prod_cases3)
  obtain clean t2 w2 where wt: "pl_wait pl c t1 w1 = (clean, t2, w2)" by (metis prod_cases3)
  from stop d wt begun_started [OF b] have cl: clean
    and w': "w' = pl_put pl (mc_end m True (pl_get pl w2)) w2"
    by (auto simp: consumer_component_def consumer_stop_def split: if_splits)
  from lawful_placeD(4,5) [OF assms wt [unfolded eqTrueI [OF cl]]]
  have "moves_in pl moves w1 w2" "returned (pl_get pl w2)" .
  with consumer_drain_begun [OF assms b d] have "promise (mc_end m True (pl_get pl w2))"
    by (blast intro: end_promises moves_in_keeps(2))
  with w' show "promise (pl_get pl w')" by (simp add: lawful_placeD [OF assms])
qed

text \<open>A Run of a service that returns no error leaves the promise of its consumer.\<close>

lemma run_keeps_the_promise:
  assumes "lawful_place pl moves returned" "app_idle a" "consumer_component pl m \<in> set (a_comps a)"
    and "\<forall>y \<in> set (a_comps a) - {consumer_component pl m}. beside pl moves y"
    and "asleep (pl_get pl (env w))"
    and "app_run_in (moves_in pl moves) c sig a w None a3 w3"
  shows "promise (pl_get pl (env w3))"
proof (rule app_run_brings [OF assms(2,6,3) consumer_starts [OF assms(1)] consumer_drains [OF assms(1)]
      consumer_stops [OF assms(1)] _ _ assms(5)])
  have "start_keeps (\<lambda>w. asleep (pl_get pl w)) y \<and> start_keeps (\<lambda>w. begun (pl_get pl w)) y \<and>
      drain_keeps (\<lambda>w. begun (pl_get pl w)) y \<and> stop_keeps (\<lambda>w. begun (pl_get pl w)) y \<and>
      stop_keeps (\<lambda>w. promise (pl_get pl w)) y" if "beside pl moves y" for y
    using beside_keeps [where P = "\<lambda>w. asleep (pl_get pl w)", OF that]
      beside_keeps [where P = "\<lambda>w. begun (pl_get pl w)", OF that]
      beside_keeps [where P = "\<lambda>w. promise (pl_get pl w)", OF that]
    by (simp add: moves_in_keeps)
  with assms(4) show "\<forall>y \<in> set (a_comps a) - {consumer_component pl m}.
      start_keeps (\<lambda>w. asleep (pl_get pl w)) y \<and> start_keeps (\<lambda>w. begun (pl_get pl w)) y \<and>
      drain_keeps (\<lambda>w. begun (pl_get pl w)) y \<and> stop_keeps (\<lambda>w. begun (pl_get pl w)) y \<and>
      stop_keeps (\<lambda>w. promise (pl_get pl w)) y" by simp
qed (simp add: moves_in_keeps(2))

end

section \<open>Kafka\<close>

definition kafka_begun :: "('h, 'k) khandler \<Rightarrow> kafka_config \<Rightarrow> ('h, 'k) kafka_run \<Rightarrow> bool" where
  "kafka_begun h cfg s \<longleftrightarrow> account_inv h s \<and> control_inv cfg s \<and> kl_alive s"

definition kafka_kept :: "('h, 'k) khandler \<Rightarrow> ('h, 'k) kafka_run \<Rightarrow> bool" where
  "kafka_kept h s \<longleftrightarrow>
     kl_at s = LoopDone \<and> mset (concat (map fst (kl_commits s))) = mset (kl_handled s) \<and>
     list_all snd (kl_commits s) \<and> mset (kl_handled s) \<subseteq># mset (kl_taken s) \<and>
     (\<forall>r \<in> set (kl_handled s). handled h r) \<and> \<not> kst_client_open (kl_comp s)"

lemma kafka_begin_asleep:
  "kafka_begin a (kafka_asleep cfg hw) = (None, s) \<Longrightarrow> kafka_run_start (fst a) (snd a) cfg hw = Inr s"
  by (auto simp: kafka_begin_def kafka_asleep_def kafka_run_start_def split: prod.splits option.splits)

lemma kafka_start_alive:
  "kafka_run_start nc ping cfg hw = Inr s \<Longrightarrow> kl_alive s"
  by (auto simp: kafka_run_start_def kafka_start_def split: prod.splits option.splits sum.splits)

lemma kafka_kept_moves: "kafka_moves commit h s s' \<Longrightarrow> kafka_kept h s \<Longrightarrow> kafka_kept h s'"
  by (auto simp: kafka_moves_def kafka_kept_def kafka_comp_defs elim!: kafka_step_elim elim: kafka_loop_elim)

interpretation kafka_app: background_machine "kafka_machine as_ext cfg" "kafka_moves commit h"
  "\<lambda>s. \<exists>hw. s = kafka_asleep cfg hw" "kafka_begun h cfg" "\<lambda>s. kl_at s = LoopDone" "kafka_kept h"
  for as_ext :: "fetch_err \<Rightarrow> 'k" and cfg commit and h :: "('h, 'k) khandler"
proof
  fix s s' :: "('h, 'k) kafka_run"
  show "\<not> kafka_moves commit h s s'" if "\<exists>hw. s = kafka_asleep cfg hw"
    using that by (auto simp: kafka_moves_def kafka_asleep_def kafka_state_new_def)
  show "kafka_begun h cfg s'"
    if "\<exists>hw. s = kafka_asleep cfg hw" "mc_begin (kafka_machine as_ext cfg) a s = (None, s')" for a
    using that
    by (auto simp: kafka_machine_def kafka_begun_def intro: start_inv dest!: kafka_begin_asleep
        dest: kafka_start_alive)
  show "mc_started (kafka_machine as_ext cfg) s" if "kafka_begun h cfg s"
    using that by (simp add: kafka_machine_def kafka_begun_def control_inv_def)
  show "kafka_begun h cfg s'" if "kafka_moves commit h s s'" "kafka_begun h cfg s"
    using that account.step_keeps control.step_keeps by (auto simp: kafka_moves_def kafka_begun_def)
  show "kafka_begun h cfg (mc_cancel (kafka_machine as_ext cfg) ok (mc_flag (kafka_machine as_ext cfg) s))"
    if "kafka_begun h cfg s" for ok
    using that
    by (auto simp: kafka_machine_def kafka_begun_def account_inv_def control_inv_def kafka_comp_defs)
  show "kafka_kept h (mc_end (kafka_machine as_ext cfg) True s)" if "kafka_begun h cfg s" "kl_at s = LoopDone"
    using that
    by (auto simp: kafka_machine_def kafka_begun_def kafka_kept_def account_inv_def control_inv_def
        kafka_comp_defs list_all_iff)
qed (rule kafka_kept_moves)

text \<open>A run whose last state is alive is one of a consumer that no Stop has ended.\<close>

lemma kafka_run_moves:
  assumes "kafka_reaches commit h s s'" "control_inv cfg s" "kl_alive s'"
  shows "(kafka_moves commit h)\<^sup>*\<^sup>* s s'"
  using assms
proof (induction rule: rtranclp_induct)
  case (step s1 s2)
  have "kst_running (kl_comp s1)"
    using control.run_keeps [OF step(1,4)] by (simp add: control_inv_def)
  moreover have "kl_alive s1"
    using step(2,5) by (auto simp: kafka_comp_defs elim!: kafka_step_elim kafka_loop_elim split: if_splits)
  ultimately show ?case using step by (auto simp: kafka_moves_def intro: rtranclp.rtrancl_into_rtrancl)
qed simp

section \<open>RabbitMQ\<close>

definition rabbit_begun :: "('k \<Rightarrow> int option) \<Rightarrow> ('h, 'k) rhandler \<Rightarrow> rabbit_config \<Rightarrow>
    ('h, 'k) rabbit_state \<Rightarrow> bool" where
  "rabbit_begun code h cfg s \<longleftrightarrow> conn_inv s \<and> loop_inv code h cfg s"

definition rabbit_kept :: "('h, 'k) rhandler \<Rightarrow> rabbit_config \<Rightarrow> ('h, 'k) rabbit_state \<Rightarrow> bool" where
  "rabbit_kept h cfg s \<longleftrightarrow>
     rs_phase s = Returned \<and> rs_conn s = None \<and> rs_open s = [] \<and> rs_streams s = [] \<and>
     list_all2 (settles cfg h) (rs_seen s) (rs_settled s)"

lemma rabbit_kept_moves: "rabbit_moves code h s s' \<Longrightarrow> rabbit_kept h cfg s \<Longrightarrow> rabbit_kept h cfg s'"
  by (auto simp: rabbit_moves_def rabbit_kept_def rabbit_defs elim!: rabbit_step_elim)

interpretation rabbit_app: background_machine "rabbit_machine cfg" "rabbit_moves code h"
  "\<lambda>s. \<exists>hw. s = rabbit_state_new cfg hw" "rabbit_begun code h cfg" "\<lambda>s. rs_phase s = Returned"
  "rabbit_kept h cfg"
  for cfg and code :: "'k \<Rightarrow> int option" and h :: "('h, 'k) rhandler"
proof
  fix s s' :: "('h, 'k) rabbit_state"
  show "\<not> rabbit_moves code h s s'" if "\<exists>hw. s = rabbit_state_new cfg hw"
    using that by (auto simp: rabbit_moves_def rabbit_state_new_def)
  show "rabbit_begun code h cfg s'"
    if "\<exists>hw. s = rabbit_state_new cfg hw" "mc_begin (rabbit_machine cfg) a s = (None, s')" for a
    using that conn_inv_start loop_inv_start by (auto simp: rabbit_machine_def rabbit_begun_def)
  show "mc_started (rabbit_machine cfg) s" if "rabbit_begun code h cfg s"
    using that by (simp add: rabbit_machine_def rabbit_begun_def loop_inv_def)
  show "rabbit_begun code h cfg s'" if "rabbit_moves code h s s'" "rabbit_begun code h cfg s"
    using that connections.step_keeps loop_says.step_keeps by (auto simp: rabbit_moves_def rabbit_begun_def)
  show "rabbit_begun code h cfg (mc_cancel (rabbit_machine cfg) ok (mc_flag (rabbit_machine cfg) s))"
    if "rabbit_begun code h cfg s" for ok
    using that
    by (auto simp: rabbit_machine_def rabbit_begun_def conn_inv_def loop_inv_def rabbit_defs
        split: option.splits phase.splits)
  show "rabbit_kept h cfg (mc_end (rabbit_machine cfg) True s)"
    if "rabbit_begun code h cfg s" "rs_phase s = Returned"
    using that
    by (cases "rs_conn s")
      (auto simp: rabbit_machine_def rabbit_begun_def rabbit_kept_def conn_inv_def loop_inv_def rabbit_defs)
qed (rule rabbit_kept_moves)

section \<open>The service as a whole\<close>



section \<open>Concrete services\<close>

text \<open>
  A world that is the consumer's state and nothing else. The wait of Stop ends well when
  \<open>ending\<close> says how the loop returns.
\<close>

definition sample_place :: "'a \<Rightarrow> ('s \<Rightarrow> 's option) \<Rightarrow> ('s, 'a, 's, unit) place" where
  "sample_place a ending =
     \<lparr>pl_get = (\<lambda>s. s), pl_put = (\<lambda>s _. s), pl_log = (\<lambda>_ _ _ s. s), pl_text = (\<lambda>_. []), pl_chan = 7,
      pl_answers = (\<lambda>_ t s. (a, t, s)), pl_cancel = (\<lambda>t _. (None, t)),
      pl_wait = (\<lambda>_ t s. case ending s of None \<Rightarrow> (False, t, s) | Some s' \<Rightarrow> (True, t, s')),
      pl_ctx_err = (\<lambda>_ _. ErrText ''context deadline exceeded'')\<rparr>"

lemma sample_place_get [simp]: "pl_get (sample_place a ending) s = s"
  by (simp add: sample_place_def)

lemma sample_place_lawful:
  assumes "\<And>s s'. ending s = Some s' \<Longrightarrow> mv s s' \<and> returned s'"
  shows "lawful_place (sample_place a ending) mv returned"
  using assms
  by (auto simp: lawful_place_def sample_place_def moves_in_def split: option.splits)

definition bystander :: "string \<Rightarrow> ('w, unit) component" where
  "bystander n = \<lparr>c_name = n, c_tier = tier_transport, c_start = (\<lambda>c t w. (Inr None, t, w)),
     c_stop = (\<lambda>c t w. (None, t, w)), c_drain = None, c_check = None\<rparr>"

lemma bystander_beside: "beside pl mv (bystander n)"
  by (simp add: beside_def bystander_def moves_in_def)

definition sample_service :: "('w, unit) component list \<Rightarrow> ('w, unit) app" where
  "sample_service cs = \<lparr>a_level = 0, a_json = False,
     a_life = \<lparr>start_timeout = 30, drain_delay = 5, stop_timeout = 10\<rparr>, a_comps = cs,
     a_order = [], a_started = 0, a_ready = False, a_epoch = 0, a_death = None,
     a_stop_open = False, a_closed = [], a_watchers = []\<rparr>"

lemma sample_service_idle: "app_idle (sample_service cs)"
  by (simp add: sample_service_def app_idle_def life_inv_def)

text \<open>A consumer and a Component beside it: the whole of a Run that a signal ends.\<close>

lemma sample_service_runs:
  fixes x :: "('w, unit) component"
  assumes "c_name x \<noteq> ''web''" "c_tier x = tier_transport"
    and "\<And>c t. c_start x c t ea = (Inr (Some 7), t, eb)" "drift eb ec"
    and "c_drain x = Some d" "\<And>c t. d c t ec = ((), t, ed)" "\<And>c t. c_stop x c t ed = (None, t, ee)"
  shows "\<exists>a3 w3. app_run_in drift ex_ctx (Some 5) (sample_service [x, bystander ''web''])
    \<lparr>clock = 0, env = ea, trace = []\<rparr> None a3 w3 \<and> env w3 = ee"
proof -
  let ?a = "sample_service [x, bystander ''web'']"
  let ?w = "\<lparr>clock = 0, env = ea, trace = []\<rparr>"
  let ?c = "notify_context ex_ctx (Some 5)"
  have "\<exists>a1 w1. app_start ?c ?a ?w = Some (None, a1, w1) \<and> env w1 = eb \<and> clock w1 = 0 \<and>
      a_order a1 = [x, bystander ''web''] \<and> a_started a1 = 2 \<and> a_stop_open a1 \<and> a_closed a1 = [] \<and> a_epoch a1 = 1"
    using assms(1-3) by (simp add: life_defs sample_service_def bystander_def)
  then obtain a1 w1 where s: "app_start ?c ?a ?w = Some (None, a1, w1)"
    and a1: "env w1 = eb" "clock w1 = 0" "a_order a1 = [x, bystander ''web'']" "a_started a1 = 2"
      "a_stop_open a1" "a_closed a1 = []" "a_epoch a1 = 1" by blast
  let ?w2 = "emit ShuttingDownLog (emit RunningLog w1\<lparr>clock := 5, env := ec\<rparr>)"
  have "\<exists>a3 w3. app_stop (without_cancel ex_ctx) a1 ?w2 = Some (None, a3, w3) \<and> env w3 = ee"
    using assms(5-7) a1
    by (simp add: life_defs bystander_def upt_rec numeral_2_eq_2)
  then obtain a3 w3 where stop: "app_stop (without_cancel ex_ctx) a1 ?w2 = Some (None, a3, w3)"
    and "env w3 = ee" by blast
  have "app_run_in drift ex_ctx (Some 5) ?a ?w (errors_join [None, None]) a3 w3"
    by (rule run_signal [OF s rtranclp.rtrancl_refl _ _ stop])
      (use assms(4) a1 in \<open>simp_all add: notify_context_def ctx_done_def ex_ctx_def\<close>)
  with \<open>env w3 = ee\<close> show ?thesis by (auto simp: errors_join_def)
qed

definition kafka_last :: "(unit, unit) kafka_run \<Rightarrow> (unit, unit) kafka_run option" where
  "kafka_last s =
     (if kl_at s = LoopTop \<and> kst_running (kl_comp s) \<and> kst_closing (kl_comp s)
      then Some (s\<lparr>kl_at := LoopDone\<rparr>) else None)"

lemma kafka_last_moves:
  "kafka_last s = Some s' \<Longrightarrow> kafka_moves commits_well refuses_offset_1 s s' \<and> kl_at s' = LoopDone"
  by (auto simp: kafka_last_def kafka_moves_def intro: loop sees_closing split: if_splits)

abbreviation sample_kafka_place ::
    "((unit, unit) kafka_run, unit kafka_answers, (unit, unit) kafka_run, unit) place" where
  "sample_kafka_place \<equiv> sample_place (\<lambda>_. None, None) kafka_last"

abbreviation sample_kafka_part :: "((unit, unit) kafka_run, unit) component" where
  "sample_kafka_part \<equiv> consumer_component sample_kafka_place (kafka_machine (\<lambda>_. ()) sample_kafka)"


definition rabbit_last :: "(unit, unit) rabbit_state \<Rightarrow> (unit, unit) rabbit_state option" where
  "rabbit_last s =
     (case rs_phase s of
        Reading n \<Rightarrow>
          if rs_started s \<and> rs_closing s \<and> n \<notin> set (rs_streams s) then Some (s\<lparr>rs_phase := Returned\<rparr>) else None
      | _ \<Rightarrow> None)"

lemma rabbit_last_moves:
  "rabbit_last s = Some s' \<Longrightarrow> rabbit_moves (\<lambda>_. None) always_done s s' \<and> rs_phase s' = Returned"
  by (auto simp: rabbit_last_def rabbit_moves_def intro: stream_ends_closing split: if_splits phase.splits)

abbreviation sample_rabbit_place ::
    "((unit, unit) rabbit_state, unit dial_replies, (unit, unit) rabbit_state, unit) place" where
  "sample_rabbit_place \<equiv> sample_place dial_ok rabbit_last"

abbreviation sample_rabbit_part :: "((unit, unit) rabbit_state, unit) component" where
  "sample_rabbit_part \<equiv> consumer_component sample_rabbit_place (rabbit_machine sample_rabbit)"

text \<open>One delivery has been handled and acknowledged.\<close>

definition sample_consumed :: "(unit, unit) rabbit_state" where
  "sample_consumed = (after_start sample_rabbit ())\<lparr>rs_settled := [(7, Ack)], rs_seen := [sample_delivery]\<rparr>"

lemma sample_consumes: "rabbit_moves (\<lambda>_. None) always_done (after_start sample_rabbit ()) sample_consumed"
proof -
  let ?s0 = "after_start sample_rabbit () :: (unit, unit) rabbit_state"
  have h: "rabbit_handle (rs_cfg ?s0) always_done sample_delivery (rs_world ?s0) = ((7, Ack), ())"
    by (simp add: rabbit_handle_def rabbit_call_def always_done_def sample_delivery_def)
  have "rs_phase ?s0 = Reading 0" by (simp add: after_start_def)
  from delivers [OF this h] show ?thesis
    by (simp add: rabbit_moves_def sample_consumed_def after_start_def rabbit_state_new_def)
qed


end
