(* ===== verification/Metrics_Registry.thy ===== *)
theory Metrics_Registry
  imports Web_Metrics Grpc_Props
begin

text \<open>
  What the two metrics packages (web/metrics, grpc/metrics) do when they are imported, and how a
  recorded request or RPC becomes a sample of their vectors.

  The registry of the Prometheus client is a parameter: \<open>register\<close> adds a collector, and \<open>None\<close>
  is the panic of promauto. \<open>name_registry\<close> states what its documentation says of it.
\<close>

section \<open>Collectors\<close>

text \<open>A histogram of these packages has the client's default buckets.\<close>

datatype collector_kind = CounterVec | HistogramVec

record collector =
  cl_kind :: collector_kind
  cl_name :: string
  cl_help :: string
  cl_labels :: "string list"

definition http_requests :: collector where
  "http_requests = \<lparr>cl_kind = CounterVec, cl_name = ''http_requests_total'',
     cl_help = ''HTTP requests handled, by route and by the status the caller received. An empty route is a request that matched no pattern.'',
     cl_labels = [''route'', ''status'']\<rparr>"

definition http_duration :: collector where
  "http_duration = \<lparr>cl_kind = HistogramVec, cl_name = ''http_request_duration_seconds'',
     cl_help = ''HTTP handler latency in seconds, by route and by the status the caller received.'',
     cl_labels = [''route'', ''status'']\<rparr>"

definition rpc_requests :: collector where
  "rpc_requests = \<lparr>cl_kind = CounterVec, cl_name = ''rpc_requests_total'',
     cl_help = ''RPCs handled, by procedure and by the connect code the caller received.'',
     cl_labels = [''procedure'', ''code'']\<rparr>"

definition rpc_duration :: collector where
  "rpc_duration = \<lparr>cl_kind = HistogramVec, cl_name = ''rpc_duration_seconds'',
     cl_help = ''RPC handler latency in seconds, by procedure and by the connect code the caller received.'',
     cl_labels = [''procedure'', ''code'']\<rparr>"

lemmas collector_defs = http_requests_def http_duration_def rpc_requests_def rpc_duration_def

fun register_all :: "(collector \<Rightarrow> 'reg \<Rightarrow> 'reg option) \<Rightarrow> collector list \<Rightarrow> 'reg \<Rightarrow> 'reg option" where
  "register_all register [] reg = Some reg"
| "register_all register (c # cs) reg =
     (case register c reg of None \<Rightarrow> None | Some reg' \<Rightarrow> register_all register cs reg')"

text \<open>The initialisation of each package.\<close>

definition web_metrics_init :: "(collector \<Rightarrow> 'reg \<Rightarrow> 'reg option) \<Rightarrow> 'reg \<Rightarrow> 'reg option" where
  "web_metrics_init register = register_all register [http_requests, http_duration]"

definition rpc_metrics_init :: "(collector \<Rightarrow> 'reg \<Rightarrow> 'reg option) \<Rightarrow> 'reg \<Rightarrow> 'reg option" where
  "rpc_metrics_init register = register_all register [rpc_requests, rpc_duration]"

section \<open>Samples\<close>

text \<open>WithLabelValues panics when there are not as many values as labels.\<close>

definition with_label_values :: "collector \<Rightarrow> string list \<Rightarrow> (string \<times> (string \<times> string) list) option" where
  "with_label_values cl vs =
     (if length vs = length (cl_labels cl) then Some (cl_name cl, zip (cl_labels cl) vs) else None)"

text \<open>The Inc and the Observe of one entry of \<open>cn_series\<close>; the histogram takes the duration.\<close>

definition web_samples :: "string \<times> string \<times> duration \<Rightarrow>
    ((string \<times> (string \<times> string) list) \<times> (string \<times> (string \<times> string) list) \<times> duration) option" where
  "web_samples = (\<lambda>(route, status, d).
     case with_label_values http_requests [route, status] of
       None \<Rightarrow> None
     | Some n \<Rightarrow> (case with_label_values http_duration [route, status] of
           None \<Rightarrow> None | Some h \<Rightarrow> Some (n, h, d)))"

definition rpc_samples :: "string \<times> string \<times> duration \<Rightarrow>
    ((string \<times> (string \<times> string) list) \<times> (string \<times> (string \<times> string) list) \<times> duration) option" where
  "rpc_samples = (\<lambda>(procedure, code, d).
     case with_label_values rpc_requests [procedure, code] of
       None \<Rightarrow> None
     | Some n \<Rightarrow> (case with_label_values rpc_duration [procedure, code] of
           None \<Rightarrow> None | Some h \<Rightarrow> Some (n, h, d)))"

section \<open>The options of the RPC metrics\<close>

text \<open>What a service appends to its options: one interceptor.\<close>

definition rpc_metrics_options :: "(('c, 'w, 'r, 'k) rpc \<Rightarrow> ('c, 'w, 'r, 'k) rpc) list" where
  "rpc_metrics_options = [rpc_metrics]"

section \<open>What registering promises\<close>

text \<open>
  The documented behaviour of a registry: a collector is taken exactly when no collector of its
  name is there, and then that name is.
\<close>

definition name_registry :: "(collector \<Rightarrow> 'reg \<Rightarrow> 'reg option) \<Rightarrow> ('reg \<Rightarrow> string set) \<Rightarrow> bool" where
  "name_registry register names \<longleftrightarrow>
     (\<forall>c reg. register c reg = None \<longleftrightarrow> cl_name c \<in> names reg) \<and>
     (\<forall>c reg reg'. register c reg = Some reg' \<longrightarrow> names reg' = insert (cl_name c) (names reg))"

lemma register_all_Some:
  assumes "name_registry register names"
  shows "(\<exists>reg'. register_all register cs reg = Some reg' \<and> names reg' = names reg \<union> cl_name ` set cs) \<longleftrightarrow>
    distinct (map cl_name cs) \<and> names reg \<inter> cl_name ` set cs = {}"
proof (induction cs arbitrary: reg)
  case (Cons c cs)
  show ?case
  proof (cases "register c reg")
    case None
    with assms have "cl_name c \<in> names reg" by (simp add: name_registry_def)
    with None show ?thesis by auto
  next
    case (Some reg1)
    with assms have n: "cl_name c \<notin> names reg" "names reg1 = insert (cl_name c) (names reg)"
      unfolding name_registry_def by (metis option.distinct(1), metis)
    with Cons.IH [of reg1] Some show ?thesis by auto
  qed
qed simp

lemma register_all_None:
  assumes "name_registry register names" "names reg \<inter> cl_name ` set cs \<noteq> {}"
  shows "register_all register cs reg = None"
  using assms(2)
proof (induction cs arbitrary: reg)
  case (Cons c cs)
  show ?case
  proof (cases "register c reg")
    case (Some reg1)
    with assms(1) have "cl_name c \<notin> names reg" "names reg1 = insert (cl_name c) (names reg)"
      unfolding name_registry_def by (metis option.distinct(1), metis)
    with Cons Some show ?thesis by auto
  qed simp
qed simp

text \<open>
  The two packages can be imported together: on a registry that has none of their names their
  initialisations go through in either order and leave the same four names; and whatever
  registers one of these names once more panics, which is why neither does it in a constructor.
\<close>

theorem metrics_packages_register_once:
  assumes "name_registry register names"
    and "names reg \<inter> {cl_name http_requests, cl_name http_duration, cl_name rpc_requests, cl_name rpc_duration} = {}"
  shows "\<exists>reg1 reg2. web_metrics_init register reg = Some reg1 \<and> rpc_metrics_init register reg1 = Some reg2 \<and>
    names reg2 = names reg \<union> {''http_requests_total'', ''http_request_duration_seconds'',
      ''rpc_requests_total'', ''rpc_duration_seconds''} \<and>
    web_metrics_init register reg2 = None \<and> rpc_metrics_init register reg2 = None"
proof -
  obtain reg1 where r1: "web_metrics_init register reg = Some reg1"
    "names reg1 = names reg \<union> cl_name ` set [http_requests, http_duration]"
    using register_all_Some [OF assms(1), of "[http_requests, http_duration]" reg] assms(2)
    unfolding web_metrics_init_def by (auto simp: collector_defs)
  obtain reg2 where r2: "rpc_metrics_init register reg1 = Some reg2"
    "names reg2 = names reg1 \<union> cl_name ` set [rpc_requests, rpc_duration]"
    using register_all_Some [OF assms(1), of "[rpc_requests, rpc_duration]" reg1] assms(2) r1(2)
    unfolding rpc_metrics_init_def by (auto simp: collector_defs)
  have "web_metrics_init register reg2 = None"
    unfolding web_metrics_init_def by (rule register_all_None [OF assms(1)]) (simp add: r1(2) r2(2))
  moreover have "rpc_metrics_init register reg2 = None"
    unfolding rpc_metrics_init_def by (rule register_all_None [OF assms(1)]) (simp add: r1(2) r2(2))
  ultimately show ?thesis using r1 r2 by (auto simp: collector_defs)
qed

text \<open>A registry that is the set of its names.\<close>

definition set_register :: "collector \<Rightarrow> string set \<Rightarrow> string set option" where
  "set_register c reg = (if cl_name c \<in> reg then None else Some (insert (cl_name c) reg))"

theorem metrics_packages_register_once_witness:
  "\<exists>reg1 reg2. web_metrics_init set_register {''go_goroutines''} = Some reg1 \<and> rpc_metrics_init set_register reg1 = Some reg2 \<and>
     ''rpc_requests_total'' \<in> reg2 \<and> web_metrics_init set_register reg2 = None"
proof -
  have "name_registry set_register (\<lambda>reg. reg)"
    by (auto simp: name_registry_def set_register_def split: if_splits)
  from metrics_packages_register_once [OF this, of "{''go_goroutines''}"] show ?thesis
    by (fastforce simp: collector_defs)
qed

text \<open>
  What either middleware records is a sample of both vectors, never the panic of a wrong number
  of labels: the counter and the histogram carry the same labels, under the names the package
  declares, and the histogram the time from the start of the call.
\<close>

theorem recorded_series_are_samples:
  "(p \<noteq> Some AbortHandler \<longrightarrow> (\<exists>route status d.
      cn_series (snd (metrics_record p r m start c)) = cn_series c @ [(route, status, d)] \<and>
      d = cn_clock c - start \<and>
      web_samples (route, status, d) =
        Some ((''http_requests_total'', [(''route'', route), (''status'', status)]),
          (''http_request_duration_seconds'', [(''route'', route), (''status'', status)]), d))) \<and>
   (res \<noteq> RpcPanic AbortHandler \<longrightarrow> (\<exists>code d.
      cn_series (snd (rpc_record procedure start res c)) = cn_series c @ [(procedure, code, d)] \<and>
      d = cn_clock c - start \<and>
      rpc_samples (procedure, code, d) =
        Some ((''rpc_requests_total'', [(''procedure'', procedure), (''code'', code)]),
          (''rpc_duration_seconds'', [(''procedure'', procedure), (''code'', code)]), d)))"
  by (auto simp: metrics_record_def rpc_record_def Let_def web_samples_def rpc_samples_def
      with_label_values_def collector_defs)

end
