(* ===== verification/Examples.thy ===== *)
theory Examples
  imports Secure Web_Metrics
begin

text \<open>
  The services of examples/: http-only (one Transport), http-actuator-config (an Actuator and a
  key of its own) and full (the whole surface, wired by the traced Preset and, beside it, written
  out with the metrics); and the HTTP-only template of the goboot command. Their layers are those
  of the generated service (Service); what a handler here does besides, the log line of the
  domain, needs the context, so the adapter is modelled once more with it.

  A \<open>build\<close> is what a main does before App.Run: \<open>None\<close> is a panic, a left is the error run returns.
\<close>

section \<open>examples/internal/transport\<close>

text \<open>A handler with its context: the logger is the request's, the line goes to the connection.\<close>

type_synonym ('c, 'w, 'k, 'q, 's) ctx_handler = "'c request \<Rightarrow> 'q \<Rightarrow> 'w conn \<Rightarrow> ('k, 's) outcome \<times> 'w conn"

definition ctx_handle :: "('k sql_err \<Rightarrow> string) \<Rightarrow> ('s \<Rightarrow> json option) \<Rightarrow> ('c, 'k, 'q) bind_fn \<Rightarrow>
    ('c, 'w, 'k, 'q, 's) ctx_handler \<Rightarrow> ('c, 'w) handler" where
  "ctx_handle txt enc bind h r c =
     (case bind r of
        Panics p \<Rightarrow> (Some p, r, c)
      | Fails e \<Rightarrow> answer_with (write_problem 400 (err_text (app_err_text txt) e)) r c
      | Value q \<Rightarrow>
          (case h r q c of
             (Panics p, c1) \<Rightarrow> (Some p, r, c1)
           | (Fails e, c1) \<Rightarrow>
               (case as_status e of
                  Some (n, d) \<Rightarrow> answer_with (write_problem n d) r c1
                | None \<Rightarrow>
                    answer_with (write_problem 500 ''internal error'') r
                      (log_line (logger_from r) level_error ''handler failed''
                         [(''err'', AText (err_text (app_err_text txt) e))] c1))
           | (Value s, c1) \<Rightarrow> answer_with (write_json 200 (enc s)) r c1))"

section \<open>examples/http-only\<close>

definition only_hello :: "('c, 'w, 'k, string, string) ctx_handler" where
  "only_hello r name c = (Value name, log_line (logger_from r) level_info ''greeting'' [(''name'', AText name)] c)"

definition only_response :: "string \<Rightarrow> json option" where
  "only_response out = Some (JObject [(''hello'', JString out)])"

definition only_bind :: "('c request \<Rightarrow> string) \<Rightarrow> ('c, 'k, string) bind_fn" where
  "only_bind path_value r = Value (path_value r)"

definition only_routes :: "('k sql_err \<Rightarrow> string) \<Rightarrow> ('c request \<Rightarrow> string) \<Rightarrow>
    ('c, 'w) server \<Rightarrow> ('c, 'w) server option" where
  "only_routes txt path_value srv =
     web_handle ''GET /hello/{name}'' (ctx_handle txt only_response (only_bind path_value) only_hello) srv"

definition zero_app_config :: app_config where
  "zero_app_config = \<lparr>cfg_log = \<lparr>log_level = [], log_format = []\<rparr>,
     cfg_lifecycle = \<lparr>start_timeout = 0, drain_delay = 0, stop_timeout = 0\<rparr>\<rparr>"

definition only_build :: "('c, 'w, 'k) wiring \<Rightarrow> ('k sql_err \<Rightarrow> string) \<Rightarrow> ('c request \<Rightarrow> string) \<Rightarrow>
    ('k goerr + ('w, 'k) app \<times> ('c, 'w) server) option" where
  "only_build wr txt path_value =
     (case app_new zero_app_config of
        Inl e \<Rightarrow> Some (Inl e)
      | Inr app \<Rightarrow>
     (case web_new \<lparr>wc_addr = '':8080'', wc_read_header_timeout = 0, wc_idle_timeout = 0, wc_max_body = 0,
             wc_cert_file = [], wc_key_file = []\<rparr> True of
        Inl e \<Rightarrow> Some (Inl e)
      | Inr srv \<Rightarrow>
     (case only_routes txt path_value (web_use (default_middleware base_logger) srv) of
        None \<Rightarrow> None
      | Some srv' \<Rightarrow> Some (Inr (app_add [web_component wr] app, srv')))))"

section \<open>examples/http-actuator-config\<close>

record greeter_config =
  gc_log :: log_config
  gc_lifecycle :: lifecycle_config
  gc_web :: web_config
  gc_actuator :: actuator_config
  gc_greeting :: string

text \<open>The struct before the load: its zero value and the default greeting.\<close>

definition greeter_load :: "('y, 'k) externals \<Rightarrow> ('y cmap \<Rightarrow> greeter_config \<Rightarrow> 'k goerr + greeter_config) \<Rightarrow>
    'k machine \<Rightarrow> greeter_config \<Rightarrow> 'k goerr + greeter_config" where
  "greeter_load x dec mc zero = load x dec mc ''app.yaml'' ''ORDERS_'' (zero\<lparr>gc_greeting := ''hello''\<rparr>)"

definition greeter_greet :: "string \<Rightarrow> ('c, 'w, 'k, string, string) ctx_handler" where
  "greeter_greet greeting r name c =
     (Value (greeting @ '' '' @ name),
      log_line (logger_from r) level_debug ''greeting'' [(''name'', AText name)] c)"

definition greeter_bind :: "('c request \<Rightarrow> string) \<Rightarrow> ('c, 'k, string) bind_fn" where
  "greeter_bind path_value r = Value (path_value r)"

definition greeter_response :: "string \<Rightarrow> json option" where
  "greeter_response out = Some (JObject [(''greeting'', JString out)])"

definition greeter_handler :: "('k sql_err \<Rightarrow> string) \<Rightarrow> ('c request \<Rightarrow> string) \<Rightarrow> string \<Rightarrow> ('c, 'w) handler" where
  "greeter_handler txt path_value greeting =
     ctx_handle txt greeter_response (greeter_bind path_value) (greeter_greet greeting)"

definition greeter_routes :: "('k sql_err \<Rightarrow> string) \<Rightarrow> ('c request \<Rightarrow> string) \<Rightarrow> string \<Rightarrow>
    ('c, 'w) server \<Rightarrow> ('c, 'w) server option" where
  "greeter_routes txt path_value greeting srv =
     web_handle ''GET /hello/{name}'' (greeter_handler txt path_value greeting) srv"

definition greeter_build :: "('c, 'w, 'k) wiring \<Rightarrow> ('k sql_err \<Rightarrow> string) \<Rightarrow> ('c request \<Rightarrow> string) \<Rightarrow>
    greeter_config \<Rightarrow> ('k goerr + ('w, 'k) app \<times> ('c, 'w) server) option" where
  "greeter_build wr txt path_value cfg =
     (case app_new \<lparr>cfg_log = gc_log cfg, cfg_lifecycle = gc_lifecycle cfg\<rparr> of
        Inl e \<Rightarrow> Some (Inl e)
      | Inr app \<Rightarrow>
     (case actuator_new (gc_actuator cfg) of
        Inl e \<Rightarrow> Some (Inl e)
      | Inr act \<Rightarrow>
     (case web_new (gc_web cfg) True of
        Inl e \<Rightarrow> Some (Inl e)
      | Inr srv \<Rightarrow>
     (case mount_on (wr_env wr) web_handle act (web_use (default_middleware base_logger) srv) of
        None \<Rightarrow> None
      | Some (act', srv1) \<Rightarrow>
     (case greeter_routes txt path_value (gc_greeting cfg) srv1 of
        None \<Rightarrow> None
      | Some srv2 \<Rightarrow> Some (Inr (app_add [actuator_component wr, web_component wr] app, srv2)))))))"

section \<open>examples/full: the feature\<close>

record stored_greeting =
  sg_lang :: string
  sg_message :: string

definition stored_by_lang :: "(string \<Rightarrow> ('w, 'k sql_err goerr + stored_greeting) call) \<Rightarrow> string \<Rightarrow>
    ('w, 'k app_error + stored_greeting) call" where
  "stored_by_lang query lang x t w =
     (case query lang x t w of
        (Inl e, t', w') \<Rightarrow>
          (Inl (if errors_is (\<lambda>k. k = NoRows) e then ErrExt NotFound else map_goerr Sql e), t', w')
      | (Inr g, t', w') \<Rightarrow> (Inr g, t', w'))"

definition stored_greet :: "(string \<Rightarrow> ('w, 'k app_error + stored_greeting) call) \<Rightarrow> string \<Rightarrow> string \<Rightarrow>
    ('w, 'k app_error + string) call" where
  "stored_greet repo fallback name x t w =
     (case repo ''en'' x t w of
        (Inl e, t', w') \<Rightarrow>
          (if errors_is (\<lambda>k. k = NotFound) e then Inr (fallback @ '' '' @ name) else Inl e, t', w')
      | (Inr g, t', w') \<Rightarrow> (Inr (sg_message g @ '' '' @ name), t', w'))"

text \<open>The two adapters and their mounts; the rest of each is the generated service's.\<close>

definition full_rest_routes :: "('k sql_err \<Rightarrow> string) \<Rightarrow> ('c request \<Rightarrow> string) \<Rightarrow>
    (string \<Rightarrow> ('w, 'k app_error + string) call) \<Rightarrow> ('c, 'w) server \<Rightarrow> ('c, 'w) server option" where
  "full_rest_routes txt path_value svc srv =
     web_handle ''GET /hello/{name}'' (typed_handle txt greet_response (bind_greet path_value) (rest_greet svc)) srv"

definition full_rpc_routes :: "(('c, 'w, 'k) greet_methods \<Rightarrow> string \<times> ('c, 'w) handler) \<Rightarrow>
    ('c, 'w, string, 'k app_err) recoverer \<Rightarrow> ('k sql_err \<Rightarrow> string) \<Rightarrow> logger \<Rightarrow>
    (string \<Rightarrow> ('w, 'k app_error + string) call) \<Rightarrow> ('c, 'w) server \<Rightarrow> ('c, 'w) server option" where
  "full_rpc_routes connect recover_with txt lg svc srv =
     (case connect (greet_service recover_with txt lg svc) of (path, h) \<Rightarrow> web_handle path h srv)"

text \<open>\<open>query\<close> is the SELECT on a pool.\<close>

definition full_routes :: "(('c, 'w, 'k) greet_methods \<Rightarrow> string \<times> ('c, 'w) handler) \<Rightarrow>
    ('c, 'w, string, 'k app_err) recoverer \<Rightarrow> ('k sql_err \<Rightarrow> string) \<Rightarrow> ('c request \<Rightarrow> string) \<Rightarrow>
    (pool \<Rightarrow> string \<Rightarrow> ('w, 'k sql_err goerr + stored_greeting) call) \<Rightarrow> ('c, 'w) server \<Rightarrow> pool \<Rightarrow> string \<Rightarrow>
    ('c, 'w) server option" where
  "full_routes connect recover_with txt path_value query srv pool fallback =
     (let svc = stored_greet (stored_by_lang (query pool)) fallback in
      case full_rest_routes txt path_value svc srv of
        None \<Rightarrow> None
      | Some srv1 \<Rightarrow> full_rpc_routes connect recover_with txt base_logger svc srv1)"

section \<open>examples/full: the two forms of main\<close>

record full_config =
  fc_preset :: preset_config
  fc_trace :: trace_config
  fc_greeting :: string

definition full_load :: "('y, 'k) externals \<Rightarrow> ('y cmap \<Rightarrow> full_config \<Rightarrow> 'k goerr + full_config) \<Rightarrow>
    'k machine \<Rightarrow> full_config \<Rightarrow> 'k goerr + full_config" where
  "full_load x dec mc zero = load x dec mc ''app.yaml'' ''ORDERS_'' zero"

text \<open>
  \<open>routes_on\<close> is addRoutes on a server, a pool and the fallback. The result is what the wiring
  leaves: the App, the server and the pool.
\<close>

definition full_build :: "(float64 \<Rightarrow> string) \<Rightarrow> ('c, 'w) middleware \<Rightarrow> (string \<Rightarrow> string \<Rightarrow> 'w \<Rightarrow> 'w) \<Rightarrow>
    ('c, 'w, 'k) wiring \<Rightarrow> (('c, 'w) server \<Rightarrow> pool \<Rightarrow> string \<Rightarrow> ('c, 'w) server option) \<Rightarrow> full_config \<Rightarrow>
    ('k goerr + ('w, 'k) app \<times> ('c, 'w) server) option" where
  "full_build print otel set_name wr routes_on cfg =
     (case traced_full print otel set_name wr (fc_preset cfg) (fc_trace cfg) True of
        None \<Rightarrow> None
      | Some (Inl e) \<Rightarrow> Some (Inl e)
      | Some (Inr p) \<Rightarrow>
          (case routes_on (pa_web p) (pa_db p) (fc_greeting cfg) of
             None \<Rightarrow> None
           | Some srv \<Rightarrow> Some (Inr (pa_app p, srv))))"

definition explicit_build :: "(float64 \<Rightarrow> string) \<Rightarrow> ('c, 'w) middleware \<Rightarrow> (string \<Rightarrow> string \<Rightarrow> 'w \<Rightarrow> 'w) \<Rightarrow>
    ('c, 'w, 'k) wiring \<Rightarrow> (('c, 'w) server \<Rightarrow> pool \<Rightarrow> string \<Rightarrow> ('c, 'w) server option) \<Rightarrow> full_config \<Rightarrow>
    ('k goerr + ('w, 'k) app \<times> ('c, 'w) server) option" where
  "explicit_build print otel set_name wr routes_on cfg =
     (let pc = fc_preset cfg in
      case app_new \<lparr>cfg_log = pc_log pc, cfg_lifecycle = pc_lifecycle pc\<rparr> of
        Inl e \<Rightarrow> Some (Inl e)
      | Inr app \<Rightarrow>
     (case db_new (wr_sql_open wr) (pc_db pc) True of
        Inl e \<Rightarrow> Some (Inl e)
      | Inr (pool, database) \<Rightarrow>
     (case trace_new print (fc_trace cfg) of
        Some e \<Rightarrow> Some (Inl e)
      | None \<Rightarrow>
     (case actuator_new (pc_actuator pc) of
        Inl e \<Rightarrow> Some (Inl e)
      | Inr act \<Rightarrow>
     (case web_new (pc_web pc) True of
        Inl e \<Rightarrow> Some (Inl e)
      | Inr srv \<Rightarrow>
     (case mount_on (wr_env wr) web_handle act
             (web_use (trace_default_middleware otel set_name base_logger @ [metrics_middleware]) srv) of
        None \<Rightarrow> None
      | Some (act', srv1) \<Rightarrow>
     (case routes_on srv1 pool (fc_greeting cfg) of
        None \<Rightarrow> None
      | Some srv2 \<Rightarrow>
          Some (Inr (app_add [actuator_component wr, trace_component wr, db_part wr, web_component wr] app,
                     srv2)))))))))"

section \<open>The mains\<close>

text \<open>Load, build and App.Run. \<open>None\<close> is a panic before Run.\<close>

inductive main_run :: "('k goerr + 'cfg) \<Rightarrow> ('cfg \<Rightarrow> ('k goerr + ('w, 'k) app \<times> 's) option) \<Rightarrow> ctx \<Rightarrow>
    time option \<Rightarrow> 'w world \<Rightarrow> 'k goerr option option \<Rightarrow> 'w world \<Rightarrow> bool"
  for loaded :: "'k goerr + 'cfg" and build :: "'cfg \<Rightarrow> ('k goerr + ('w, 'k) app \<times> 's) option"
    and c :: ctx and sig :: "time option" and w :: "'w world" where
  main_load_fails: "loaded = Inl e \<Longrightarrow> main_run loaded build c sig w (Some (Some e)) w"
| main_build_fails: "loaded = Inr cfg \<Longrightarrow> build cfg = Some (Inl e) \<Longrightarrow>
    main_run loaded build c sig w (Some (Some e)) w"
| main_panics: "loaded = Inr cfg \<Longrightarrow> build cfg = None \<Longrightarrow> main_run loaded build c sig w None w"
| main_runs: "loaded = Inr cfg \<Longrightarrow> build cfg = Some (Inr (a, s)) \<Longrightarrow> app_run c sig a w r a' w' \<Longrightarrow>
    main_run loaded build c sig w (Some r) w'"

text \<open>What main does with run's error: it is logged and the process exits with 1; a panic exits with 2.\<close>

definition main_exit :: "'k goerr option option \<Rightarrow> int" where
  "main_exit r = (case r of None \<Rightarrow> 2 | Some None \<Rightarrow> 0 | Some (Some e) \<Rightarrow> 1)"

text \<open>The form an argument list chooses: examples/full, and the mains of the two templates.\<close>

definition wants_explicit :: "string list \<Rightarrow> bool" where
  "wants_explicit args \<longleftrightarrow> 1 < length args \<and> args ! 1 = ''explicit''"

definition wants_migrate :: "string list \<Rightarrow> bool" where
  "wants_migrate args \<longleftrightarrow> 1 < length args \<and> args ! 1 = ''migrate''"

section \<open>The HTTP-only template\<close>

text \<open>cmd/goboot/scaffold/http is the generated service without its rpc package.\<close>

definition http_add_routes :: "('k sql_err \<Rightarrow> string) \<Rightarrow> ('c request \<Rightarrow> string) \<Rightarrow>
    (string \<Rightarrow> ('w, 'k sql_err goerr + greeting) call) \<Rightarrow> string \<Rightarrow> ('c, 'w) server \<Rightarrow>
    ('c, 'w) server option" where
  "http_add_routes txt path_value query fallback srv =
     rest_routes txt path_value (greet (by_lang query) fallback) srv"

definition http_build :: "('c, 'w, 'k) wiring \<Rightarrow> (string \<Rightarrow> ('c, 'w) server \<Rightarrow> ('c, 'w) server option) \<Rightarrow>
    service_config \<Rightarrow> ('k goerr + ('w, 'k) app \<times> ('c, 'w) server) option" where
  "http_build wr routes_on cfg =
     (case preset_full wr (sc_preset cfg) True of
        None \<Rightarrow> None
      | Some (Inl e) \<Rightarrow> Some (Inl e)
      | Some (Inr p) \<Rightarrow>
          (case routes_on (sc_greeting cfg) (pa_web p) of
             None \<Rightarrow> None
           | Some srv \<Rightarrow> Some (Inr (pa_app p, srv))))"

text \<open>
  main.go of both templates is one text: load and migrate are the generated service's, with the
  Preset's configuration inline beside its own key.
\<close>

definition http_load :: "('y, 'k) externals \<Rightarrow> ('y cmap \<Rightarrow> service_config \<Rightarrow> 'k goerr + service_config) \<Rightarrow>
    'k machine \<Rightarrow> 'k goerr + service_config" where
  "http_load x dec mc =
     load x dec mc ''app.yaml'' ''MYSERVICE_'' \<lparr>sc_preset = zero_preset, sc_greeting = ''hello''\<rparr>"

definition http_migrate :: "(string \<Rightarrow> string \<Rightarrow> 'k goerr option) \<Rightarrow> 'k goerr option \<Rightarrow>
    (provider \<Rightarrow> 'k goerr option) \<Rightarrow> (provider \<Rightarrow> 'w \<Rightarrow> ('k goerr + nat) \<times> 'w) \<Rightarrow>
    'k goerr + service_config \<Rightarrow> 'w \<Rightarrow> 'k goerr option \<times> migrate_event list \<times> 'w" where
  "http_migrate sql_open new_locker goose up loaded w =
     (case loaded of
        Inl e \<Rightarrow> (Some e, [], w)
      | Inr cfg \<Rightarrow>
     (case (app_new \<lparr>cfg_log = pc_log (sc_preset cfg), cfg_lifecycle = pc_lifecycle (sc_preset cfg)\<rparr>
             :: 'k goerr + ('w, 'k) app) of
        Inl e \<Rightarrow> (Some e, [], w)
      | Inr app \<Rightarrow>
     (case db_new sql_open (pc_db (sc_preset cfg)) True of
        Inl e \<Rightarrow> (Some e, [], w)
      | Inr (pool, database) \<Rightarrow>
          (let close = (\<lambda>(r, evs, v). (r, PoolOpened # evs @ [PoolClosed], v)) in
           case new_provider new_locker goose (dc_driver (pc_db (sc_preset cfg))) of
             Inl e \<Rightarrow> close (Some e, [], w)
           | Inr provider \<Rightarrow>
               (case up provider w of
                  (Inl e, w1) \<Rightarrow> close (Some e, [MigrationsRun], w1)
                | (Inr n, w1) \<Rightarrow> close (None, [MigrationsRun, CountLogged n], w1))))))"

text \<open>
  main of a template: \<open>serve\<close> may end in one of several ways, \<open>migrate\<close> ends in one. The last
  arguments are the exit code and the world the process leaves.
\<close>

inductive template_main :: "string list \<Rightarrow> ('k goerr option option \<Rightarrow> 'w world \<Rightarrow> bool) \<Rightarrow>
    ('w \<Rightarrow> 'k goerr option \<times> migrate_event list \<times> 'w) \<Rightarrow> 'w world \<Rightarrow> int \<Rightarrow> 'w world \<Rightarrow> bool"
  for args :: "string list" and serve :: "'k goerr option option \<Rightarrow> 'w world \<Rightarrow> bool"
    and migrate :: "'w \<Rightarrow> 'k goerr option \<times> migrate_event list \<times> 'w" and w :: "'w world" where
  template_serves: "\<not> wants_migrate args \<Longrightarrow> serve r w' \<Longrightarrow>
    template_main args serve migrate w (main_exit r) w'"
| template_migrates: "wants_migrate args \<Longrightarrow> migrate (env w) = (r, evs, e) \<Longrightarrow>
    template_main args serve migrate w (main_exit (Some r)) (w\<lparr>env := e\<rparr>)"

end
