(* ===== verification/Examples_Props.thy ===== *)
theory Examples_Props
  imports Examples Service_Props
begin

text \<open>
  What the example services promise: the explicit form of examples/full is its Preset form with
  the metrics added and nothing else; none of their wirings panics; whichever way a main ends, what
  it started has been stopped; and the HTTP-only template is the generated service without its RPC
  mount.
\<close>

section \<open>The typed adapter with its context\<close>

text \<open>A handler of the generated service is one that uses only the clock and the world.\<close>

lemma typed_is_ctx_handle:
  "typed_handle txt enc bind h = ctx_handle txt enc bind
     (\<lambda>r q c. case h q (rq_ctx r) (cn_clock c) (cn_env c) of (res, t, w) \<Rightarrow> (res, c\<lparr>cn_clock := t, cn_env := w\<rparr>))"
  by (intro ext) (simp add: typed_handle_def ctx_handle_def Let_def split: outcome.split prod.split)

text \<open>
  The greeting is answered with 200 whatever the level of the log is; its DEBUG line is written
  exactly when the App's level lets it through, which is what PUT /actuator/loglevel changes.
\<close>

theorem debug_line_follows_the_level:
  assumes "rq_logger r = Some lg" "lg_app lg"
    and "greeter_handler txt path_value greeting r c = (p, r', c')"
  shows "(p, cn_w c') = write_json 200 (greeter_response (greeting @ '' '' @ path_value r)) (cn_w c) \<and> r' = r \<and>
    cn_log c' = cn_log c @
      (if cn_level c \<le> level_debug
       then [\<lparr>le_app = True, le_level = level_debug, le_msg = ''greeting'',
              le_attrs = lg_attrs lg @ [(''name'', AText (path_value r))]\<rparr>]
       else [])"
  using assms
  by (auto simp: greeter_handler_def ctx_handle_def greeter_bind_def greeter_greet_def answer_with_def
      logger_from_def log_line_def enabled_def split: prod.splits)

section \<open>The two forms of examples/full\<close>

lemma full_routes_mw:
  "full_routes connect recover_with txt path_value query (with_mw mw srv) pool fallback =
     map_option (with_mw mw) (full_routes connect recover_with txt path_value query srv pool fallback)"
proof -
  let ?svc = "stored_greet (stored_by_lang (query pool)) fallback"
  show ?thesis
    by (cases "connect (greet_service recover_with txt base_logger ?svc)";
        cases "full_rest_routes txt path_value ?svc srv")
      (auto simp: full_routes_def full_rest_routes_def full_rpc_routes_def web_handle_mw Let_def)
qed

lemma full_routes_keep_mw:
  "full_routes connect recover_with txt path_value query srv pool fallback = Some srv' \<Longrightarrow> sv_mw srv' = sv_mw srv"
  by (auto simp: full_routes_def full_rest_routes_def full_rpc_routes_def web_handle_def Let_def
      split: option.splits prod.splits)

lemma mount_other_mw:
  assumes "web_new cfg b = Inr srv"
  shows "mount_on ae web_handle act (web_use mw srv) =
    map_option (\<lambda>x. (fst x, with_mw mw (snd x))) (mount_on ae web_handle act (web_use mw' srv))"
  using web_new_fresh [OF assms] by (simp add: web_use_fresh mount_on_mw option.map_comp comp_def)

lemma explicit_is_full_with_metrics:
  fixes wr :: "('c, 'w, 'k) wiring"
  shows "explicit_build print otel set_name wr (full_routes connect recover_with txt path_value query) cfg =
    map_option (map_sum id (\<lambda>(a, srv).
        (a, srv\<lparr>sv_mw := trace_default_middleware otel set_name base_logger @ [metrics_middleware]\<rparr>)))
      (full_build print otel set_name wr (full_routes connect recover_with txt path_value query) cfg)"
proof -
  let ?mw = "trace_default_middleware otel set_name base_logger"
  let ?routes = "full_routes connect recover_with txt path_value query"
  let ?pc = "fc_preset cfg"
  have mount: "mount_on (wr_env wr) web_handle act (web_use (?mw @ [metrics_middleware]) srv) =
      map_option (\<lambda>x. (fst x, with_mw (?mw @ [metrics_middleware]) (snd x)))
        (mount_on (wr_env wr) web_handle act (web_use ?mw srv))"
    if "web_new (pc_web ?pc) True = (Inr srv :: 'k goerr + ('c, 'w) server)" for act srv
    by (rule mount_other_mw [OF that])
  show ?thesis
    using mount
    by (auto simp: explicit_build_def full_build_def traced_full_def Let_def full_routes_mw
        split: sum.split prod.split option.split)
qed


section \<open>No wiring panics\<close>

lemma mounts_beside:
  assumes "actuator_new acfg = Inr act" "web_new wcfg b = Inr srv"
  shows "\<exists>act' srv'. mount_on ae web_handle act (web_use mw srv) = Some (act', srv') \<and> sv_mw srv' = mw \<and>
    set (map fst (sv_mux srv')) \<subseteq> all_patterns"
proof -
  note fresh = web_new_fresh [OF assms(2)]
  from mount_fresh [OF assms(1) conjunct2 [OF fresh], of ae mw] obtain act' s' where
    m: "mount_on ae web_handle act (with_mw mw srv) = Some (act', with_mw mw s')"
    and w: "if ac_addr acfg = [] then at_own act' = None \<and>
        map fst (sv_mux s') = concat (map endpoint_patterns (dedup [] (ac_expose (at_cfg act))))
      else \<exists>m. at_own act' = Some (ac_addr acfg, m) \<and> sv_mux s' = []" by blast
  have "set (map fst (sv_mux s')) \<subseteq> all_patterns"
  proof (cases "ac_addr acfg = []")
    case True
    with w have "map fst (sv_mux s') = concat (map endpoint_patterns (dedup [] (ac_expose (at_cfg act))))" by simp
    then show ?thesis by (auto dest: patterns_of_an_endpoint)
  qed (use w in auto)
  with m fresh show ?thesis by (simp add: web_use_fresh)
qed

lemma full_routes_mount:
  assumes "set (map fst (sv_mux srv)) \<subseteq> all_patterns"
    and "\<And>ms. fst (connect ms) = path" "path \<noteq> ''GET /hello/{name}''" "path \<notin> all_patterns"
  shows "\<exists>srv'. full_routes connect recover_with txt path_value query srv pool fallback = Some srv' \<and>
    map fst (sv_mux srv') = map fst (sv_mux srv) @ [''GET /hello/{name}'', path]"
proof -
  let ?svc = "stored_greet (stored_by_lang (query pool)) fallback"
  have "''GET /hello/{name}'' \<notin> fst ` set (sv_mux srv)" "path \<notin> fst ` set (sv_mux srv)"
    using assms(1,4) hello_is_no_endpoint by auto
  moreover obtain h where "connect (greet_service recover_with txt base_logger ?svc) = (path, h)"
    using assms(2) by (metis prod.collapse)
  ultimately show ?thesis using assms(3)
    by (simp add: full_routes_def full_rest_routes_def full_rpc_routes_def web_handle_def mux_handle_def Let_def)
qed

lemma app_new_idle: "app_new cfg = Inr a \<Longrightarrow> app_idle (app_add cs a) \<and> a_comps (app_add cs a) = cs"
  by (auto simp: app_new_def app_add_def Let_def app_idle_def life_inv_def split: if_splits sum.splits)

lemma full_wiring:
  fixes wr :: "('c, 'w, 'k) wiring"
  assumes "\<And>ms. fst (connect ms) = path" "path \<noteq> ''GET /hello/{name}''" "path \<notin> all_patterns"
  shows "\<exists>res. full_build print otel set_name wr (full_routes connect recover_with txt path_value query) cfg = Some res \<and>
    (\<forall>a srv. res = Inr (a, srv) \<longrightarrow> app_idle a \<and>
       a_comps a = [actuator_component wr, trace_component wr, db_part wr, web_component wr])"
proof -
  let ?pc = "fc_preset cfg"
  let ?mw = "trace_default_middleware otel set_name base_logger"
  consider (err) e where "full_build print otel set_name wr (full_routes connect recover_with txt path_value query) cfg = Some (Inl e)"
    | (ok) app pool database act srv where
      "app_new \<lparr>cfg_log = pc_log ?pc, cfg_lifecycle = pc_lifecycle ?pc\<rparr> = (Inr app :: 'k goerr + ('w, 'k) app)"
      "db_new (wr_sql_open wr) (pc_db ?pc) True = Inr (pool, database)"
      "trace_new print (fc_trace cfg) = (None :: 'k goerr option)"
      "actuator_new (pc_actuator ?pc) = (Inr act :: 'k goerr + ('c, 'w, 'k) actuator)"
      "web_new (pc_web ?pc) True = (Inr srv :: 'k goerr + ('c, 'w) server)"
    by (cases "app_new \<lparr>cfg_log = pc_log ?pc, cfg_lifecycle = pc_lifecycle ?pc\<rparr> :: 'k goerr + ('w, 'k) app";
        cases "db_new (wr_sql_open wr) (pc_db ?pc) True";
        cases "trace_new print (fc_trace cfg) :: 'k goerr option";
        cases "actuator_new (pc_actuator ?pc) :: 'k goerr + ('c, 'w, 'k) actuator";
        cases "web_new (pc_web ?pc) True :: 'k goerr + ('c, 'w) server";
        force simp: full_build_def traced_full_def)
  then show ?thesis
  proof cases
    case ok
    from mounts_beside [OF ok(4,5), of "wr_env wr" ?mw] obtain act' srv' where
      m: "mount_on (wr_env wr) web_handle act (web_use ?mw srv) = Some (act', srv')"
      "set (map fst (sv_mux srv')) \<subseteq> all_patterns" by blast
    from full_routes_mount [where connect = connect, OF m(2) assms] obtain srv2 where
      "full_routes connect recover_with txt path_value query srv' pool (fc_greeting cfg) = Some srv2" by blast
    with ok m(1) app_new_idle [OF ok(1)] show ?thesis by (simp add: full_build_def traced_full_def)
  qed simp
qed

text \<open>
  Whichever form of examples/full runs, and whatever Load, the constructors and the Run answer: it
  does not panic while it wires itself, and every Component that was started has been stopped, once
  and in the reverse order.
\<close>

theorem both_forms_stop_what_they_started:
  fixes wr :: "('c, 'w, 'k) wiring"
  assumes "form = full_build \<or> form = explicit_build"
    and "main_run loaded (form print otel set_name wr (full_routes connect recover_with txt path_value query)) c sig w res w'"
    and "\<And>ms. fst (connect ms) = path" "path \<noteq> ''GET /hello/{name}''" "path \<notin> all_patterns"
  shows "main_exit res \<noteq> 2 \<and> (\<exists>new. trace w' = trace w @ new \<and> stopped_names new = rev (started_names new))"
proof -
  let ?build = "form print otel set_name wr (full_routes connect recover_with txt path_value query)"
  have wired: "\<exists>res. ?build cfg = Some res \<and> (\<forall>a srv. res = Inr (a, srv) \<longrightarrow> app_idle a)" for cfg
  proof -
    obtain r where r: "full_build print otel set_name wr (full_routes connect recover_with txt path_value query) cfg = Some r"
      "\<forall>a srv. r = Inr (a, srv) \<longrightarrow> app_idle a"
      using full_wiring [where connect = connect, OF assms(3-5)] by blast
    then show ?thesis
      using assms(1) by (cases r) (auto simp: explicit_is_full_with_metrics)
  qed
  show ?thesis
    using assms(2)
  proof cases
    case (main_panics cfg)
    with wired [of cfg] show ?thesis by auto
  next
    case (main_runs cfg a s r a')
    with wired [of cfg] have "app_idle a" by auto
    from run_balanced [OF this main_runs(4)] main_runs(1) show ?thesis
      by (auto simp: main_exit_def split: option.splits)
  qed (auto simp: main_exit_def intro: exI [of _ "[]"])
qed

section \<open>The smaller services\<close>

text \<open>
  The smallest service always wires itself: no configuration, so no error and no panic; its
  server has the default middleware and its one route.
\<close>

theorem smallest_service_always_builds:
  "\<exists>a srv. only_build wr txt path_value = Some (Inr (a, srv)) \<and> app_idle a \<and> a_comps a = [web_component wr] \<and>
     map fst (sv_mux srv) = [''GET /hello/{name}''] \<and> sv_mw srv = default_middleware base_logger \<and> sv_addr srv = '':8080''"
  by (simp add: only_build_def zero_app_config_def app_new_def web_new_def only_routes_def web_use_def
      web_handle_def mux_handle_def app_add_def app_idle_def life_inv_def Let_def)

text \<open>
  The service with an Actuator never panics while it wires itself: its route is none of the
  Actuator's; and when it builds, the Actuator starts before the server.
\<close>

theorem greeter_never_panics:
  fixes wr :: "('c, 'w, 'k) wiring"
  shows "\<exists>res. greeter_build wr txt path_value cfg = Some res \<and>
    (\<forall>a srv. res = Inr (a, srv) \<longrightarrow> app_idle a \<and>
       map c_name (sort_key c_tier (a_comps a)) = [''actuator'', ''web''] \<and>
       sv_mw srv = default_middleware base_logger \<and> last (map fst (sv_mux srv)) = ''GET /hello/{name}'')"
proof -
  consider (err) e where "greeter_build wr txt path_value cfg = Some (Inl e)"
    | (ok) app act srv where
      "app_new \<lparr>cfg_log = gc_log cfg, cfg_lifecycle = gc_lifecycle cfg\<rparr> = (Inr app :: 'k goerr + ('w, 'k) app)"
      "actuator_new (gc_actuator cfg) = (Inr act :: 'k goerr + ('c, 'w, 'k) actuator)"
      "web_new (gc_web cfg) True = (Inr srv :: 'k goerr + ('c, 'w) server)"
    by (cases "app_new \<lparr>cfg_log = gc_log cfg, cfg_lifecycle = gc_lifecycle cfg\<rparr> :: 'k goerr + ('w, 'k) app";
        cases "actuator_new (gc_actuator cfg) :: 'k goerr + ('c, 'w, 'k) actuator";
        cases "web_new (gc_web cfg) True :: 'k goerr + ('c, 'w) server";
        force simp: greeter_build_def)
  then show ?thesis
  proof cases
    case ok
    from mounts_beside [OF ok(2,3), of "wr_env wr" "default_middleware base_logger"] obtain act' srv' where
      m: "mount_on (wr_env wr) web_handle act (web_use (default_middleware base_logger) srv) = Some (act', srv')"
      "sv_mw srv' = default_middleware base_logger" "set (map fst (sv_mux srv')) \<subseteq> all_patterns" by blast
    have "''GET /hello/{name}'' \<notin> fst ` set (sv_mux srv')" using m(3) hello_is_no_endpoint by auto
    with ok m app_new_idle [OF ok(1)] show ?thesis
      by (simp add: greeter_build_def greeter_routes_def web_handle_def mux_handle_def preset_parts)
  qed simp
qed

section \<open>The HTTP-only template\<close>

text \<open>
  The two templates are one service: the routes of the gRPC template are those of the HTTP-only
  one and then its RPC mount; and serving is the same main on either list of routes.
\<close>

theorem templates_are_one_service:
  "add_routes connect recover_with txt path_value query fallback srv =
     (case http_add_routes txt path_value query fallback srv of
        None \<Rightarrow> None
      | Some srv1 \<Rightarrow> rpc_routes connect recover_with txt base_logger (greet (by_lang query) fallback) srv1) \<and>
   (service_serve loaded wr routes_on c sig w res w' = main_run loaded (http_build wr routes_on) c sig w res w')"
proof
  show "service_serve loaded wr routes_on c sig w res w' = main_run loaded (http_build wr routes_on) c sig w res w'"
  proof
    assume "service_serve loaded wr routes_on c sig w res w'"
    then show "main_run loaded (http_build wr routes_on) c sig w res w'"
      by cases (auto simp: http_build_def intro: main_run.intros)
  next
    assume "main_run loaded (http_build wr routes_on) c sig w res w'"
    then show "service_serve loaded wr routes_on c sig w res w'"
      by cases (auto simp: http_build_def intro: service_serve.intros split: option.splits sum.splits)
  qed
qed (simp add: add_routes_def http_add_routes_def Let_def)

text \<open>
  The migrate subcommand, which both templates have: a pool that was opened is closed last, the
  provider runs at most once and only on an open pool, and the process exits with 0 exactly when
  the migrations ran and their number was logged.
\<close>

lemma both_templates_migrate_alike: "http_migrate = service_migrate"
  by (intro ext) (auto simp: http_migrate_def service_migrate_def Let_def split: sum.splits prod.splits)

theorem migrate_exits_with_zero_when_done:
  assumes "template_main args serve (service_migrate sql_open locker goose up loaded) w code w'" "wants_migrate args"
  shows "\<exists>r evs e. service_migrate sql_open locker goose up loaded (env w) = (r, evs, e) \<and> w' = w\<lparr>env := e\<rparr> \<and>
    code \<in> {0, 1} \<and> (code = 0 \<longleftrightarrow> (\<exists>n. evs = [PoolOpened, MigrationsRun, CountLogged n, PoolClosed])) \<and>
    (evs = [] \<or> hd evs = PoolOpened \<and> last evs = PoolClosed)"
  using assms
  by (cases rule: template_main.cases)
    (auto simp: service_migrate_def Let_def main_exit_def split: sum.splits prod.splits)

section \<open>Concrete services\<close>

theorem debug_line_follows_the_level_witness:
  "\<exists>p r' c'. greeter_handler (\<lambda>_ :: unit sql_err. []) (\<lambda>_. ''ada'') ''hello''
       (sample_request\<lparr>rq_logger := Some \<lparr>lg_app = True, lg_attrs = []\<rparr>\<rparr> :: unit request)
       (sample_conn\<lparr>cn_level := level_debug\<rparr>) = (p, r', c') \<and>
     map le_msg (cn_log c') = map le_msg (cn_log sample_conn) @ [''greeting'']"
proof -
  let ?r = "sample_request\<lparr>rq_logger := Some \<lparr>lg_app = True, lg_attrs = []\<rparr>\<rparr> :: unit request"
  let ?c = "sample_conn\<lparr>cn_level := level_debug\<rparr>"
  obtain p r' c' where g: "greeter_handler (\<lambda>_ :: unit sql_err. []) (\<lambda>_. ''ada'') ''hello'' ?r ?c = (p, r', c')"
    by (metis prod_cases3)
  note d = debug_line_follows_the_level [OF _ _ g, of "\<lparr>lg_app = True, lg_attrs = []\<rparr>"]
  have "map le_msg (cn_log c') = map le_msg (cn_log sample_conn) @ [''greeting'']" using d by simp
  with g show ?thesis by blast
qed

definition sample_full :: full_config where
  "sample_full = \<lparr>fc_preset = sample_preset, fc_trace = \<lparr>tc_endpoint = [], tc_service = ''orders'', tc_ratio = Finite 0\<rparr>,
     fc_greeting = ''hello''\<rparr>"

definition empty_table :: "pool \<Rightarrow> string \<Rightarrow> (unit, unit sql_err goerr + stored_greeting) call" where
  "empty_table pool lang x t w = (Inl (ErrExt NoRows), t, w)"

abbreviation sample_connect :: "(unit, unit, unit) greet_methods \<Rightarrow> string \<times> (unit, unit) handler" where
  "sample_connect \<equiv> \<lambda>_. (''/greet.v1.GreetService/'', \<lambda>r c. (None, r, c))"

abbreviation sample_full_routes :: "(unit, unit) server \<Rightarrow> pool \<Rightarrow> string \<Rightarrow> (unit, unit) server option" where
  "sample_full_routes \<equiv> full_routes sample_connect connect_recover (\<lambda>_. []) (\<lambda>_. ''ada'') empty_table"

abbreviation sample_build :: "full_config \<Rightarrow> (unit goerr + (unit, unit) app \<times> (unit, unit) server) option" where
  "sample_build \<equiv> full_build (\<lambda>_. []) (\<lambda>next. next) (\<lambda>n r w. w) sample_wiring sample_full_routes"

lemma sample_full_builds:
  "\<exists>a srv. sample_build sample_full = Some (Inr (a, srv)) \<and> app_idle a \<and> a_comps a =
     [actuator_component sample_wiring, trace_component sample_wiring, db_part sample_wiring, web_component sample_wiring]"
proof -
  from full_wiring [where connect = sample_connect, OF fst_conv sample_path] obtain res where
    res: "sample_build sample_full = Some res" and ok: "\<forall>a srv. res = Inr (a, srv) \<longrightarrow> app_idle a \<and> a_comps a =
     [actuator_component sample_wiring, trace_component sample_wiring, db_part sample_wiring, web_component sample_wiring]"
    by blast
  have "\<not> isl res"
    using res
    by (auto simp: full_build_def traced_full_def sample_full_def sample_preset_def sample_wiring_def app_new_def db_new_def
        trace_new_def actuator_new_def web_new_def endpoint_names_def Let_def split: option.splits prod.splits)
  with res ok show ?thesis by (cases res) auto
qed

lemma sample_full_starts:
  fixes a :: "(unit, unit) app"
  assumes "a_comps a =
     [actuator_component sample_wiring, trace_component sample_wiring, db_part sample_wiring, web_component sample_wiring]"
  shows "\<exists>a1 w1. app_start c a ex_world = Some (None, a1, w1) \<and> clock w1 = 0"
  using assms
  by (simp add: app_start_def reject_duplicate_names_def preset_parts sample_wiring_def perform_def watch_def
      Let_def ex_world_def emit_def)

theorem both_forms_stop_what_they_started_witness:
  "\<exists>res w'. main_run (Inr sample_full) sample_build ex_ctx (Some 5) ex_world res w' \<and> main_exit res \<noteq> 2 \<and>
     (\<exists>new. trace w' = trace ex_world @ new \<and> stopped_names new = rev (started_names new))"
proof -
  obtain a srv where b: "sample_build sample_full = Some (Inr (a, srv))" and idle: "app_idle a" and comps: "a_comps a =
     [actuator_component sample_wiring, trace_component sample_wiring, db_part sample_wiring, web_component sample_wiring]"
    using sample_full_builds by blast
  let ?c = "notify_context ex_ctx (Some 5)"
  from sample_full_starts [OF comps, of ?c] obtain a1 w1
    where start: "app_start ?c a ex_world = Some (None, a1, w1)" and t: "clock w1 = 0" by blast
  obtain r a3 w3 where stop: "app_stop (without_cancel ex_ctx) a1
      (emit ShuttingDownLog (emit RunningLog w1\<lparr>clock := 5, env := ()\<rparr>)) = Some (r, a3, w3)"
    using app_stop_spec [OF conjunct1 [OF app_start_idle [OF idle start]]] by blast
  have "app_run ex_ctx (Some 5) a ex_world (errors_join [None, r]) a3 w3"
    by (rule run_signal [OF start rtranclp.rtrancl_refl _ _ stop])
      (simp_all add: t notify_context_def ctx_done_def ex_ctx_def)
  then have run: "main_run (Inr sample_full) sample_build ex_ctx (Some 5) ex_world (Some (errors_join [None, r])) w3"
    by (rule main_runs [where build = sample_build and cfg = sample_full, OF refl b])
  note stopped = both_forms_stop_what_they_started [where form = full_build and connect = sample_connect,
      OF disjI1 [OF refl] run fst_conv sample_path]
  show ?thesis by (rule exI, rule exI, rule conjI [OF run stopped])
qed

theorem migrate_exits_with_zero_when_done_witness:
  "\<exists>code w'. template_main [''myservice'', ''migrate''] (\<lambda>r w'. True)
       (service_migrate (\<lambda>_ _. Some (ErrText ''no such driver'')) None (\<lambda>_. None) (\<lambda>p v. (Inr 3, v))
          (Inl (ErrText ''no app.yaml'') :: unit goerr + service_config)) ex_world code w' \<and> code \<noteq> 0"
proof -
  let ?m = "service_migrate (\<lambda>_ _. Some (ErrText ''no such driver'')) None (\<lambda>_. None) (\<lambda>p v. (Inr 3, v))
      (Inl (ErrText ''no app.yaml'') :: unit goerr + service_config)"
  have m: "?m () = (Some (ErrText ''no app.yaml''), [], ())" by (simp add: service_migrate_def)
  have "template_main [''myservice'', ''migrate''] (\<lambda>r w'. True) ?m ex_world 1 (ex_world\<lparr>env := ()\<rparr>)"
    using template_migrates [of "[''myservice'', ''migrate'']" ?m ex_world _ _ _ "\<lambda>r w'. True"] m
    by (simp add: wants_migrate_def main_exit_def)
  from migrate_exits_with_zero_when_done [OF this] this m show ?thesis
    by (auto simp: wants_migrate_def)
qed

end
