(* ===== verification/Lifecycle_Contract.thy ===== *)
theory Lifecycle_Contract
  imports Lifecycle_Props "HOL-Library.Sublist"
begin

text \<open>
  The contract of the base Starter, stated without its code: an automaton that takes or
  refuses each thing an App shows. It keeps the stack of the running Components, the last started
  first. The App refines it, however it is driven, and what the contract promises of every
  moment is proved once, on the automaton.
\<close>

section \<open>The contract\<close>

text \<open>A Component as far as its App's order looks at it.\<close>

record part =
  pt_name :: string
  pt_tier :: int
  pt_drains :: bool

text \<open>
  \<open>Calling\<close>: a Start call has not come back. \<open>Closing\<close>: Drainers are still to be drained, in the
  order given. \<open>Stopping []\<close> is the stage of an App that does not run.
\<close>

datatype stage =
    Opening "part list"
  | Calling "part list" part
  | Serving "part list"
  | Closing "part list" "part list"
  | Draining "part list" part "part list"
  | Stopping "part list"

fun running :: "stage \<Rightarrow> part list" where
  "running (Opening rs) = rs"
| "running (Calling rs p) = rs"
| "running (Serving rs) = rs"
| "running (Closing rs ds) = rs"
| "running (Draining rs p ds) = rs"
| "running (Stopping rs) = rs"

definition may_start :: "stage \<Rightarrow> part list option" where
  "may_start st = (case st of Opening rs \<Rightarrow> Some rs | Stopping [] \<Rightarrow> Some [] | _ \<Rightarrow> None)"

text \<open>
  A Component is started once, on those of its Tier or below; the App is ready when all of them
  run; it drains every Drainer of a running App, in the order of their start, waits, and stops the
  last started first. A Start that fails goes straight to stopping.
\<close>

fun contract_step :: "part list \<Rightarrow> stage \<Rightarrow> event \<Rightarrow> stage option" where
  "contract_step ps st (StartCall n) =
     (case (may_start st, find (\<lambda>p. pt_name p = n) ps) of
        (Some rs, Some p) \<Rightarrow> if p \<in> set rs then None else Some (Calling rs p)
      | _ \<Rightarrow> None)"
| "contract_step ps st (StartedLog n t) =
     (case st of
        Calling rs p \<Rightarrow>
          if n = pt_name p \<and> t = pt_tier p \<and> (\<forall>q \<in> set rs. pt_tier q \<le> t) then Some (Opening (p # rs)) else None
      | _ \<Rightarrow> None)"
| "contract_step ps st (ReadyStore True) =
     (case may_start st of
        Some rs \<Rightarrow> if length rs = length ps then Some (Serving rs) else None
      | None \<Rightarrow> None)"
| "contract_step ps st (ReadyStore False) =
     (case st of
        Calling rs p \<Rightarrow> Some (Stopping rs)
      | Serving rs \<Rightarrow> Some (Closing rs (filter pt_drains (rev rs)))
      | Stopping [] \<Rightarrow> Some (Closing [] [])
      | _ \<Rightarrow> None)"
| "contract_step ps st CloseWatchers =
     (case st of Closing rs ds \<Rightarrow> Some st | Stopping rs \<Rightarrow> Some st | _ \<Rightarrow> None)"
| "contract_step ps st (DrainCall n) =
     (case st of
        Closing rs (p # ds) \<Rightarrow> if n = pt_name p then Some (Draining rs p ds) else None
      | _ \<Rightarrow> None)"
| "contract_step ps st (DrainedLog n) =
     (case st of Draining rs p ds \<Rightarrow> if n = pt_name p then Some (Closing rs ds) else None | _ \<Rightarrow> None)"
| "contract_step ps st DelayWait = (case st of Closing rs [] \<Rightarrow> Some (Stopping rs) | _ \<Rightarrow> None)"
| "contract_step ps st (StopCall n) =
     (case st of Stopping (p # rs) \<Rightarrow> if n = pt_name p then Some (Stopping rs) else None | _ \<Rightarrow> None)"
| "contract_step ps st RunningLog = (case st of Serving rs \<Rightarrow> Some st | _ \<Rightarrow> None)"
| "contract_step ps st DiedLog = (case st of Serving rs \<Rightarrow> Some st | _ \<Rightarrow> None)"
| "contract_step ps st ShuttingDownLog = (case st of Serving rs \<Rightarrow> Some st | _ \<Rightarrow> None)"

section \<open>What the contract promises\<close>

text \<open>The running Components are distinct, of the App, and no Tier stands on a higher one.\<close>

definition well_stacked :: "part list \<Rightarrow> part list \<Rightarrow> bool" where
  "well_stacked ps rs \<longleftrightarrow> distinct rs \<and> set rs \<subseteq> set ps \<and> sorted_wrt (\<lambda>p q. pt_tier q \<le> pt_tier p) rs"

fun stage_ok :: "part list \<Rightarrow> stage \<Rightarrow> bool" where
  "stage_ok ps (Calling rs p) \<longleftrightarrow> well_stacked ps rs \<and> p \<in> set ps \<and> p \<notin> set rs"
| "stage_ok ps (Closing rs ds) \<longleftrightarrow> well_stacked ps rs \<and> set ds \<subseteq> set rs"
| "stage_ok ps (Draining rs p ds) \<longleftrightarrow> well_stacked ps rs \<and> set (p # ds) \<subseteq> set rs"
| "stage_ok ps st \<longleftrightarrow> well_stacked ps (running st)"

lemma stage_ok_running: "stage_ok ps st \<Longrightarrow> well_stacked ps (running st)"
  by (cases st) auto

lemma contract_step_ok: "contract_step ps st e = Some st' \<Longrightarrow> stage_ok ps st \<Longrightarrow> stage_ok ps st'"
  by (cases "(ps, st, e)" rule: contract_step.cases)
    (auto simp: may_start_def well_stacked_def find_Some_iff
      split: stage.splits option.splits list.splits if_splits)

lemma contract_keeps:
  assumes "accept (contract_step ps) st es = Some st'" "stage_ok ps st"
  shows "stage_ok ps st'"
  using contract_step_ok assms by (rule accept_keeps)

text \<open>The Components that run after a trace, with their Tiers, the last started first.\<close>

fun live_step :: "(string \<times> int) list \<Rightarrow> event \<Rightarrow> (string \<times> int) list" where
  "live_step ls (StartedLog n t) = (n, t) # ls"
| "live_step ls (StopCall n) = filter (\<lambda>l. fst l \<noteq> n) ls"
| "live_step ls e = ls"

definition live :: "event list \<Rightarrow> (string \<times> int) list" where
  "live es = foldl live_step [] es"

abbreviation seen :: "part \<Rightarrow> string \<times> int" where
  "seen p \<equiv> (pt_name p, pt_tier p)"

lemma contract_step_live:
  assumes "contract_step ps st e = Some st'" "stage_ok ps st" "distinct (map pt_name ps)"
  shows "map seen (running st') = live_step (map seen (running st)) e"
proof -
  have other: "filter (\<lambda>l. fst l \<noteq> pt_name p) (map seen rs) = map seen rs"
    if "st = Stopping (p # rs)" for p rs
  proof -
    from that assms(2) have "p \<in> set ps" "set rs \<subseteq> set ps" "p \<notin> set rs" by (auto simp: well_stacked_def)
    with assms(3) have "\<forall>q \<in> set rs. pt_name q \<noteq> pt_name p" by (auto simp: distinct_map inj_on_def)
    then show ?thesis by (simp add: filter_id_conv)
  qed
  show ?thesis
    using assms(1) other
    by (cases "(ps, st, e)" rule: contract_step.cases)
      (auto simp: may_start_def split: stage.splits option.splits list.splits if_splits)
qed

lemma accept_live:
  assumes "accept (contract_step ps) st es = Some st'" "stage_ok ps st" "distinct (map pt_name ps)"
  shows "map seen (running st') = foldl live_step (map seen (running st)) es"
  using assms(1,2)
proof (induction es arbitrary: st)
  case (Cons e es)
  then obtain st1 where st1: "contract_step ps st e = Some st1" "accept (contract_step ps) st1 es = Some st'"
    by (auto simp: bind_eq_Some_conv)
  from Cons.IH [OF st1(2) contract_step_ok [OF st1(1) Cons.prems(2)]]
    contract_step_live [OF st1(1) Cons.prems(2) assms(3)]
  show ?case by simp
qed simp

section \<open>The App refines the contract\<close>

definition part_of :: "('w, 'k) component \<Rightarrow> part" where
  "part_of c = \<lparr>pt_name = c_name c, pt_tier = c_tier c, pt_drains = (c_drain c \<noteq> None)\<rparr>"

lemma part_of_simps [simp]:
  "pt_name (part_of c) = c_name c" "pt_tier (part_of c) = c_tier c" "pt_drains (part_of c) = (c_drain c \<noteq> None)"
  by (simp_all add: part_of_def)

definition stage_of :: "('w, 'k) app \<Rightarrow> stage" where
  "stage_of a = (if a_ready a then Serving (rev (map part_of (take (a_started a) (a_order a)))) else Stopping [])"

lemma find_part:
  assumes "distinct (map pt_name ps)" "p \<in> set ps"
  shows "find (\<lambda>q. pt_name q = pt_name p) ps = Some p"
  using assms by (induction ps) (auto simp: image_iff)

lemma accept_started:
  assumes "may_start st = Some rs" "distinct (map pt_name ps)" "part_of ` set xs \<subseteq> set ps"
    and "sorted (map c_tier xs)" "\<forall>x \<in> set xs. \<forall>q \<in> set rs. pt_tier q \<le> c_tier x"
    and "distinct (map part_of xs)" "part_of ` set xs \<inter> set rs = {}"
  shows "\<exists>st'. accept (contract_step ps) st (started_trace xs) = Some st' \<and>
    may_start st' = Some (rev (map part_of xs) @ rs)"
  using assms
proof (induction xs arbitrary: st rs)
  case (Cons x xs)
  have "find (\<lambda>p. pt_name p = c_name x) ps = Some (part_of x)"
    using find_part [of ps "part_of x"] Cons.prems(2,3) by simp
  moreover have "part_of x \<notin> set rs" using Cons.prems(7) by auto
  ultimately have "accept (contract_step ps) st (started_trace (x # xs)) =
      accept (contract_step ps) (Opening (part_of x # rs)) (started_trace xs)"
    using Cons.prems(1,5) by simp
  moreover have "\<exists>st'. accept (contract_step ps) (Opening (part_of x # rs)) (started_trace xs) = Some st' \<and>
      may_start st' = Some (rev (map part_of xs) @ part_of x # rs)"
    using Cons.prems by (intro Cons.IH) (auto simp: may_start_def)
  ultimately show ?case by simp
qed simp

lemma accept_drained:
  "accept (contract_step ps) (Closing rs (filter pt_drains (map part_of xs))) (drained_trace xs) = Some (Closing rs [])"
  by (induction xs) auto

lemma accept_stopped:
  "accept (contract_step ps) (Stopping (map part_of xs)) (stopped_trace xs) = Some (Stopping [])"
  by (induction xs) simp_all

lemma accept_stop:
  assumes "life_inv a" "a_ready a \<or> a_started a = 0"
  shows "accept (contract_step ps) (stage_of a) (stop_trace a) = Some (Stopping [])"
proof (cases "a_ready a")
  case True
  then have "a_stop_open a" using assms(1) by (simp add: life_inv_def)
  with True accept_drained [of ps _ "take (a_started a) (a_order a)"]
    accept_stopped [of ps "rev (take (a_started a) (a_order a))"]
  show ?thesis by (simp add: stage_of_def stop_trace_def accept_append rev_map)
next
  case False
  with assms(2) show ?thesis by (simp add: stage_of_def stop_trace_def)
qed

lemma parts_in_order:
  fixes cs :: "('w, 'k) component list"
  assumes "distinct (map c_name cs)"
  defines "ord \<equiv> sort_key c_tier cs"
  shows "distinct (map pt_name (map part_of cs))" "part_of ` set (take k ord) \<subseteq> set (map part_of cs)"
    "sorted (map c_tier (take k ord))" "distinct (map part_of (take k ord))"
proof -
  have names: "map pt_name (map part_of xs) = map c_name xs" for xs :: "('w, 'k) component list" by simp
  show "distinct (map pt_name (map part_of cs))" using assms(1) by (simp only: names)
  have mset: "mset (map c_name ord) = mset (map c_name cs)" by (simp add: ord_def)
  then have "distinct (map c_name ord)" using assms(1) mset_eq_imp_distinct_iff by blast
  then have "distinct (map c_name (take k ord))" by (simp add: take_map [symmetric])
  then show "distinct (map part_of (take k ord))" using names by (metis distinct_map)
  show "part_of ` set (take k ord) \<subseteq> set (map part_of cs)" by (auto simp: ord_def dest: in_set_takeD)
  have "sorted (map c_tier ord)" by (simp add: ord_def)
  then show "sorted (map c_tier (take k ord))" by (simp add: take_map [symmetric] sorted_wrt_take)
qed

lemma accept_start_prefix:
  assumes "distinct (map c_name cs)"
  shows "\<exists>st'. accept (contract_step (map part_of cs)) (Stopping []) (started_trace (take k (sort_key c_tier cs))) = Some st' \<and>
    may_start st' = Some (rev (map part_of (take k (sort_key c_tier cs))))"
  using accept_started [of "Stopping []" "[]" "map part_of cs" "take k (sort_key c_tier cs)"] parts_in_order [OF assms]
  by (simp add: may_start_def)

lemma start_sets_ready:
  assumes "app_start c a w = Some (None, a', w')"
  shows "a_ready a'"
proof -
  have "distinct (map c_name (a_comps a))"
    using assms by (auto simp: app_start_def reject_None [symmetric] split: option.splits)
  with assms show ?thesis
    by (cases rule: app_start_cases) (simp, metis errors_join_pair_None option.distinct(1))
qed

lemma start_refines:
  assumes "app_idle a" "app_start c a w = Some (r, a', w')"
  shows "\<exists>new. trace w' = trace w @ new \<and>
    accept (contract_step (map part_of (a_comps a))) (stage_of a) new = Some (stage_of a')"
proof (cases "distinct (map c_name (a_comps a))")
  case False
  from duplicate_names_lemma [OF False, of c w] assms show ?thesis by auto
next
  case True
  let ?ord = "sort_key c_tier (a_comps a)"
  have from_idle: "stage_of a = Stopping []" using assms(1) by (simp add: app_idle_def stage_of_def)
  show ?thesis
  proof (cases r)
    case None
    from accept_start_prefix [OF True, of "length ?ord"] obtain st where
      st: "accept (contract_step (map part_of (a_comps a))) (Stopping []) (started_trace ?ord) = Some st"
      "may_start st = Some (rev (map part_of ?ord))" by auto
    have "a_ready a'" by (rule start_sets_ready [OF assms(2) [unfolded None]])
    with app_start_idle [OF assms] None have "stage_of a' = Serving (rev (map part_of ?ord))"
      by (simp add: stage_of_def)
    with started_in_order [OF assms(1)] assms(2) None st from_idle show ?thesis by (simp add: accept_append)
  next
    case (Some e)
    from failed_start_unwinds_lemma [OF assms(1) True assms(2) [unfolded Some]] obtain k where
      k: "k < length (a_comps a)" "trace w' = trace w @ started_trace (take k ?ord) @
         [StartCall (c_name (?ord ! k)), ReadyStore False, CloseWatchers] @ stopped_trace (rev (take k ?ord))"
      "app_idle a'" by (auto simp: Let_def)
    from accept_start_prefix [OF True, of k] obtain st where
      st: "accept (contract_step (map part_of (a_comps a))) (Stopping []) (started_trace (take k ?ord)) = Some st"
      "may_start st = Some (rev (map part_of (take k ?ord)))" by auto
    have "?ord ! k \<in> set ?ord" using k(1) by (intro nth_mem) simp
    then have x: "part_of (?ord ! k) \<in> set (map part_of (a_comps a))" by simp
    have "distinct (map part_of (take (Suc k) ?ord))" by (rule parts_in_order(4) [OF True])
    then have "part_of (?ord ! k) \<notin> set (map part_of (take k ?ord))" using k(1) by (simp add: take_Suc_conv_app_nth)
    moreover have "find (\<lambda>p. pt_name p = c_name (?ord ! k)) (map part_of (a_comps a)) = Some (part_of (?ord ! k))"
      using find_part [OF parts_in_order(1) [OF True] x] by simp
    moreover have "stage_of a' = Stopping []" using k(3) by (simp add: app_idle_def stage_of_def)
    ultimately show ?thesis
      using k(2) st from_idle accept_stopped [of "map part_of (a_comps a)" "rev (take k ?ord)"]
      by (simp add: accept_append rev_map)
  qed
qed

section \<open>However the App is driven\<close>

text \<open>
  One step of an App and its world: an operation, which starts the App only when nothing runs;
  a watcher; Run's receive and its log lines; or the world moving on.
\<close>

inductive drive :: "('w, 'k) app \<times> 'w world \<Rightarrow> ('w, 'k) app \<times> 'w world \<Rightarrow> bool" where
  drive_start: "a_started a = 0 \<Longrightarrow> \<not> a_ready a \<Longrightarrow> app_start c a w = Some (r, a', w') \<Longrightarrow> drive (a, w) (a', w')"
| drive_stop: "app_stop c a w = Some (r, a', w') \<Longrightarrow> drive (a, w) (a', w')"
| drive_watch: "watch_step a a' \<Longrightarrow> drive (a, w) (a', w)"
| drive_receive: "drive (a, w) (a\<lparr>a_death := None\<rparr>, w)"
| drive_log: "a_ready a \<Longrightarrow> ev \<in> {RunningLog, DiedLog, ShuttingDownLog} \<Longrightarrow> drive (a, w) (a, emit ev w)"
| drive_world: "clock w \<le> t \<Longrightarrow> drive (a, w) (a, w\<lparr>clock := t, env := e\<rparr>)"

definition driven :: "('w, 'k) component list \<Rightarrow> ('w, 'k) app \<times> 'w world \<Rightarrow> bool" where
  "driven cs s \<longleftrightarrow> life_inv (fst s) \<and> a_comps (fst s) = cs \<and> (a_ready (fst s) \<or> a_started (fst s) = 0)"

lemma start_comps: "app_idle a \<Longrightarrow> app_start c a w = Some (r, a', w') \<Longrightarrow> a_comps a' = a_comps a"
proof (cases "distinct (map c_name (a_comps a))")
  case False
  assume "app_start c a w = Some (r, a', w')"
  with duplicate_names_lemma [OF False, of c w] show ?thesis by auto
next
  case True
  assume idle: "app_idle a" and start: "app_start c a w = Some (r, a', w')"
  from start True show ?thesis
  proof (cases rule: app_start_cases)
    case (ok a2 w2)
    from start_loop_None [OF ok(4)] ok(2) show ?thesis by (simp add: same_frame_def start_frame_def)
  next
    case (failed e a2 w2 a3 e2)
    from start_loop_Some [OF failed(1)] have "a_comps a2 = a_comps a"
      by (auto simp: same_frame_def start_frame_def)
    then have "a_comps a3 = a_comps a"
      using failed(2) by (auto simp: begin_shutdown_def split: if_splits)
    then show ?thesis using failed(4) by (auto simp: stop_started_def split: option.splits)
  qed
qed

lemma start_ready_or_idle:
  assumes "app_idle a" "app_start c a w = Some (r, a', w')"
  shows "a_ready a' \<or> a_started a' = 0"
proof (cases r)
  case None
  then show ?thesis using start_sets_ready assms(2) by blast
next
  case (Some e)
  then show ?thesis using app_start_idle [OF assms] by (simp add: app_idle_def)
qed

lemma drive_keeps: "drive s s' \<Longrightarrow> driven cs s \<Longrightarrow> driven cs s'"
proof (induction rule: drive.induct)
  case (drive_start a c w r a' w')
  then have idle: "app_idle a" by (simp add: driven_def app_idle_def)
  from app_start_idle [OF idle drive_start(3)] start_comps [OF idle drive_start(3)]
    start_ready_or_idle [OF idle drive_start(3)] drive_start(4)
  show ?case by (simp add: driven_def)
next
  case (drive_stop c a w r a' w')
  with app_stop_spec [of a c w] show ?case by (auto simp: driven_def)
next
  case (drive_watch a a' w)
  then show ?case using watch_step_frame [of a a'] by (auto simp: driven_def life_inv_def)
qed (auto simp: driven_def life_inv_def)

lemma drive_accepted:
  assumes "drive s s'" "driven cs s"
  shows "\<exists>new. trace (snd s') = trace (snd s) @ new \<and>
    accept (contract_step (map part_of cs)) (stage_of (fst s)) new = Some (stage_of (fst s'))"
  using assms
proof (induction rule: drive.induct)
  case (drive_start a c w r a' w')
  then have "app_idle a" by (simp add: driven_def app_idle_def)
  from start_refines [OF this drive_start(3)] drive_start(4) show ?case by (simp add: driven_def)
next
  case (drive_stop c a w r a' w')
  then have d: "life_inv a" "a_ready a \<or> a_started a = 0" by (simp_all add: driven_def)
  from app_stop_spec [OF d(1), of c w] drive_stop(1) have "trace w' = trace w @ stop_trace a" "\<not> a_ready a'" by auto
  with accept_stop [OF d] show ?case by (simp add: stage_of_def [of a'])
next
  case (drive_watch a a' w)
  then show ?case using watch_step_frame [of a a'] by (simp add: stage_of_def)
next
  case (drive_log a ev w)
  then show ?case by (intro exI [of _ "[ev]"]) (auto simp: stage_of_def)
qed (simp_all add: stage_of_def)

interpretation lifecycle: refines_contract drive "driven cs" "\<lambda>s. trace (snd s)" "\<lambda>s. stage_of (fst s)"
    "contract_step (map part_of cs)" for cs
  by unfold_locales (fact drive_keeps, fact drive_accepted)

lemma idle_driven: "app_idle a \<Longrightarrow> driven (a_comps a) (a, w) \<and> stage_of a = Stopping []"
  by (simp add: driven_def app_idle_def stage_of_def)

text \<open>
  C3: The App refines its contract: however it is driven from when nothing runs, everything it
  shows is what the contract takes, and where the contract then is, is where the App is.
\<close>

theorem app_refines_its_contract:
  assumes "app_idle a" "drive\<^sup>*\<^sup>* (a, w) (a', w')"
  shows "\<exists>new. trace w' = trace w @ new \<and>
    accept (contract_step (map part_of (a_comps a))) (Stopping []) new = Some (stage_of a')"
  using lifecycle.run_accepted [OF assms(2)] idle_driven [OF assms(1), of w] by auto

lemma run_drives:
  assumes "app_idle a" "app_run_in drift c sig a w r a' w'"
  shows "drive\<^sup>*\<^sup>* (a, w) (a', w')"
proof -
  have begins: "drive (a, w) (a1, w1)" if "app_start cc a w = Some (x, a1, w1)" for cc x a1 w1
    using assms(1) that by (intro drive_start) (simp_all add: app_idle_def)
  have watches: "drive\<^sup>*\<^sup>* (a1, w1) (a2, w1)" if "watch_step\<^sup>*\<^sup>* a1 a2" for a1 a2 and w1 :: "'a world"
    using that by (induction rule: rtranclp_induct) (auto intro: drive_watch rtranclp.rtrancl_into_rtrancl)
  have log: "drive (a2, v) (a2, emit ev v)" if "a_ready a2" "ev \<in> {RunningLog, DiedLog, ShuttingDownLog}"
    for a2 ev and v :: "'a world" using that by (rule drive_log)
  from assms(2) show ?thesis
  proof cases
    case (run_start_fails e)
    then show ?thesis using begins by blast
  next
    case (run_signal a1 w1 a2 t e err)
    have ready: "a_ready a2"
      using start_sets_ready [OF run_signal(2)] watch_steps_frame [OF run_signal(3)] by simp
    note begins [OF run_signal(2)]
    also note watches [OF run_signal(3)]
    also note log [OF ready, of RunningLog, simplified]
    also note drive_world [where w = "emit RunningLog w1" and t = t and e = e, simplified, OF run_signal(4)]
    also note log [OF ready, of ShuttingDownLog, simplified]
    also note drive_stop [OF run_signal(6)]
    finally show ?thesis by simp
  next
    case (run_death a1 w1 a2 t d e err)
    have ready: "a_ready a2"
      using start_sets_ready [OF run_death(2)] watch_steps_frame [OF run_death(3)] by simp
    note begins [OF run_death(2)]
    also note watches [OF run_death(3)]
    also note log [OF ready, of RunningLog, simplified]
    also note drive_world [where w = "emit RunningLog w1" and t = t and e = e, simplified, OF run_death(4)]
    also note log [OF ready, of DiedLog, simplified]
    also note log [OF ready, of ShuttingDownLog, simplified]
    also note drive_receive
    also note drive_stop [OF run_death(6)]
    finally show ?thesis by simp
  qed
qed

text \<open>
  C20: At every moment of it the running Components are distinct and no Tier stands on a higher one;
  the Component stopped next is the one started last; only a running one is drained; and
  the App turns ready when all of them run.
\<close>

theorem components_nest:
  assumes "app_idle a" "distinct (map c_name (a_comps a))" "drive\<^sup>*\<^sup>* (a, w) (a', w')"
    and "trace w' = trace w @ es @ later"
  shows "distinct (map fst (live es)) \<and> sorted_wrt (\<lambda>x y. snd y \<le> snd x) (live es) \<and>
    (\<forall>n rest. later = StopCall n # rest \<longrightarrow> (\<exists>t below. live es = (n, t) # below)) \<and>
    (\<forall>n rest. later = DrainCall n # rest \<longrightarrow> n \<in> fst ` set (live es)) \<and>
    (\<forall>rest. later = ReadyStore True # rest \<longrightarrow> length (live es) = length (a_comps a))"
proof -
  let ?ps = "map part_of (a_comps a)"
  from lifecycle.run_accepted [OF assms(3), of "a_comps a"] idle_driven [OF assms(1), of w] assms(4) obtain st where
    st: "accept (contract_step ?ps) (Stopping []) es = Some st"
    and next': "accept (contract_step ?ps) st later \<noteq> None"
    by (auto simp: accept_append bind_eq_Some_conv)
  have names: "distinct (map pt_name ?ps)" using parts_in_order(1) [OF assms(2)] .
  have init: "stage_ok ?ps (Stopping [])" by (simp add: well_stacked_def)
  have ok: "stage_ok ?ps st" by (rule contract_keeps [OF st init])
  then have stack: "well_stacked ?ps (running st)" by (rule stage_ok_running)
  have live: "live es = map seen (running st)"
    using accept_live [OF st init names] by (simp add: live_def)
  have "inj_on pt_name (set (running st))"
    using names stack by (metis distinct_map inj_on_subset well_stacked_def)
  then have "distinct (map fst (live es))"
    using stack by (simp add: live well_stacked_def distinct_map comp_def)
  moreover have "sorted_wrt (\<lambda>x y. snd y \<le> snd x) (live es)"
    using stack by (simp add: live well_stacked_def sorted_wrt_map)
  moreover have "\<forall>n rest. later = StopCall n # rest \<longrightarrow> (\<exists>t below. live es = (n, t) # below)"
    using next' live by (auto split: stage.splits list.splits if_splits)
  moreover have "\<forall>n rest. later = DrainCall n # rest \<longrightarrow> n \<in> fst ` set (live es)"
    using next' live ok by (auto simp: image_iff split: stage.splits list.splits if_splits)
  moreover have "\<forall>rest. later = ReadyStore True # rest \<longrightarrow> length (live es) = length (a_comps a)"
    using next' live by (auto simp: may_start_def split: stage.splits list.splits option.splits if_splits)
  ultimately show ?thesis by blast
qed

section \<open>A concrete App\<close>

text \<open>The App of \<open>ex_dying\<close>: its Component dies, and Run stops it.\<close>

lemma ex_driven:
  "\<exists>a' w'. drive\<^sup>*\<^sup>* (ex_app [ex_dying ''web'' 2], ex_world) (a', w') \<and>
     trace w' = [StartCall ''web'', StartedLog ''web'' 2, ReadyStore True, RunningLog, DiedLog,
       ShuttingDownLog, ReadyStore False, CloseWatchers, DrainCall ''web'', DrainedLog ''web'',
       DelayWait, StopCall ''web''] \<and> app_idle (ex_app [ex_dying ''web'' 2])"
  using ex_run_by_death run_drives by blast

theorem app_refines_its_contract_witness:
  "\<exists>a' w'. drive\<^sup>*\<^sup>* (ex_app [ex_dying ''web'' 2], ex_world) (a', w') \<and>
     accept (contract_step [part_of (ex_dying ''web'' 2)]) (Stopping []) (trace w') = Some (stage_of a')"
proof -
  obtain a' w' where d: "drive\<^sup>*\<^sup>* (ex_app [ex_dying ''web'' 2], ex_world) (a', w')"
    and idle: "app_idle (ex_app [ex_dying ''web'' 2])" using ex_driven by blast
  from app_refines_its_contract [OF idle d] d show ?thesis by (auto simp: ex_app_def ex_world_def)
qed

theorem components_nest_witness:
  "\<exists>a' w'. drive\<^sup>*\<^sup>* (ex_app [ex_dying ''web'' 2], ex_world) (a', w') \<and>
     trace w' = [StartCall ''web'', StartedLog ''web'' 2, ReadyStore True, RunningLog, DiedLog,
       ShuttingDownLog, ReadyStore False, CloseWatchers, DrainCall ''web'', DrainedLog ''web'', DelayWait] @
       [StopCall ''web''] \<and>
     (\<exists>t below. live [StartCall ''web'', StartedLog ''web'' 2, ReadyStore True, RunningLog, DiedLog,
       ShuttingDownLog, ReadyStore False, CloseWatchers, DrainCall ''web'', DrainedLog ''web'', DelayWait] =
       (''web'', t) # below)"
proof -
  let ?es = "[StartCall ''web'', StartedLog ''web'' 2, ReadyStore True, RunningLog, DiedLog,
    ShuttingDownLog, ReadyStore False, CloseWatchers, DrainCall ''web'', DrainedLog ''web'', DelayWait]"
  obtain a' w' where d: "drive\<^sup>*\<^sup>* (ex_app [ex_dying ''web'' 2], ex_world) (a', w')"
    and t: "trace w' = ?es @ [StopCall ''web'']" and idle: "app_idle (ex_app [ex_dying ''web'' 2])"
    using ex_driven by auto
  have names: "distinct (map c_name (a_comps (ex_app [ex_dying ''web'' 2])))" by (simp add: ex_app_def)
  have shown: "trace w' = trace ex_world @ ?es @ [StopCall ''web'']" using t by (simp add: ex_world_def)
  have "\<exists>t below. live ?es = (''web'', t) # below"
    using components_nest [OF idle names d shown] by blast
  with d t show ?thesis by blast
qed

end
