(* ===== verification/Kafka_Refinement.thy ===== *)
theory Kafka_Refinement
  imports Kafka_Loop_Props
begin

text \<open>
  The running consumer of Kafka_Loop is the sequential loop of Kafka: as long as no Stop has
  given up on it, what its small steps did in whatever interleaving, with Drain between any two
  of them, is what \<open>consume\<close> does on some list of turns.
\<close>

lemma consume_append:
  assumes "consume name alive h commit ts w cs end w1" "end = StillRunning"
    and "consume name alive h commit ts' w1 cs' end' w2"
  shows "consume name alive h commit (ts @ ts') w (cs @ cs') end' w2"
  using assms
proof (induction rule: consume.induct)
  case (handles t w' ok ks w1 ts commits e w2 w)
  then show ?case by (auto intro: consume.handles)
qed simp_all

lemma running_took_every_turn:
  "consume name alive h commit ts w cs end w' \<Longrightarrow> end = StillRunning \<Longrightarrow> length cs = length ts"
  by (induction rule: consume.induct) simp_all

text \<open>A turn that hands its records on, and one that goes home.\<close>

definition open_turn :: "fetches \<Rightarrow> turn" where
  "open_turn fs = \<lparr>tn_closing = False, tn_fetches = fs, tn_cancelled = False\<rparr>"

definition last_turn :: "bool \<Rightarrow> bool \<Rightarrow> fetches \<Rightarrow> turn" where
  "last_turn closing cancelled fs = \<lparr>tn_closing = closing, tn_fetches = fs, tn_cancelled = cancelled\<rparr>"

abbreviation to_commit :: "krecord list list \<Rightarrow> krecord list list" where
  "to_commit \<equiv> filter (\<lambda>ok. ok \<noteq> [])"

text \<open>The records of the turns that were handled: each has left one list to commit.\<close>

definition taken_of :: "turn list \<Rightarrow> krecord list list \<Rightarrow> krecord list" where
  "taken_of ts cs = concat (concat (map (\<lambda>t. ft_partitions (tn_fetches t)) (take (length cs) ts)))"

text \<open>\<open>so_far\<close>: the turns taken; \<open>mid_turn\<close>: where the loop is in the next one.\<close>

definition so_far :: "string \<Rightarrow> ('w, 'k) khandler \<Rightarrow> (bool \<Rightarrow> krecord list \<Rightarrow> 'w \<Rightarrow> 'k goerr option \<times> 'w) \<Rightarrow>
    'w \<Rightarrow> krecord list \<Rightarrow> krecord list list \<Rightarrow> loop_end \<Rightarrow> bool" where
  "so_far name h commit w0 taken commits end \<longleftrightarrow>
     (\<exists>ts cs w. consume name (\<lambda>_. True) h (commit True) ts w0 cs end w \<and>
        to_commit cs = commits \<and> taken_of ts cs = taken)"

definition mid_turn :: "string \<Rightarrow> ('w, 'k) khandler \<Rightarrow> krecord list \<Rightarrow> ('w, 'k) kafka_run \<Rightarrow> bool" where
  "mid_turn name h taken s \<longleftrightarrow>
     (case kl_at s of
        InBatch ks \<Rightarrow>
          \<exists>(fs :: fetches) w. \<not> ft_closed fs \<and> refusal name (ft_errors fs) = None \<and>
            (batch_step (\<lambda>_. True) h)\<^sup>*\<^sup>* (map new_worker (ft_partitions fs), w) (ks, kl_world s) \<and>
            kl_taken s = taken @ concat (ft_partitions fs)
      | _ \<Rightarrow> kl_taken s = taken)"

lemma in_batch:
  assumes "mid_turn name h taken s" "kl_at s = InBatch ks"
  obtains fs :: fetches and w where "\<not> ft_closed fs" "refusal name (ft_errors fs) = None"
    "(batch_step (\<lambda>_. True) h)\<^sup>*\<^sup>* (map new_worker (ft_partitions fs), w) (ks, kl_world s)"
    "kl_taken s = taken @ concat (ft_partitions fs)"
  using assms by (auto simp: mid_turn_def simp del: fetches.ext_inject intro: that)

definition ended_as :: "('w, 'k) kafka_run \<Rightarrow> loop_end" where
  "ended_as s =
     (if kl_at s = LoopDone then (case kst_fatal (kl_comp s) of None \<Rightarrow> WentHome | Some e \<Rightarrow> Died e)
      else StillRunning)"

definition consumed :: "kafka_config \<Rightarrow> ('w, 'k) khandler \<Rightarrow> (bool \<Rightarrow> krecord list \<Rightarrow> 'w \<Rightarrow> 'k goerr option \<times> 'w) \<Rightarrow>
    'w \<Rightarrow> ('w, 'k) kafka_run \<Rightarrow> bool" where
  "consumed cfg h commit w0 s \<longleftrightarrow> control_inv cfg s \<and>
     (kl_alive s \<longrightarrow>
        (\<exists>taken. so_far (kafka_name cfg) h commit w0 taken (map fst (kl_commits s)) (ended_as s) \<and>
           mid_turn (kafka_name cfg) h taken s))"

lemma so_far_extends:
  assumes "so_far name h commit w0 taken commits StillRunning"
    and "\<And>w. \<exists>w'. consume name (\<lambda>_. True) h (commit True) [t] w cs end w'"
  shows "so_far name h commit w0 (taken @ taken_of [t] cs) (commits @ to_commit cs) end"
proof -
  from assms(1) obtain ts cs0 w where c: "consume name (\<lambda>_. True) h (commit True) ts w0 cs0 StillRunning w"
    "to_commit cs0 = commits" "taken_of ts cs0 = taken" by (auto simp: so_far_def)
  from assms(2) obtain w' where "consume name (\<lambda>_. True) h (commit True) [t] w cs end w'" by blast
  from consume_append [OF c(1) refl this] c running_took_every_turn [OF c(1) refl] show ?thesis
    unfolding so_far_def by (intro exI [of _ "ts @ [t]"] exI [of _ "cs0 @ cs"] exI [of _ w']) (simp add: taken_of_def)
qed

lemma goes_home_alone:
  "closing \<or> ft_closed fs \<or> cancelled \<Longrightarrow>
     \<exists>w'. consume name alive h commit [last_turn closing cancelled fs] w [] WentHome w'"
  by (rule exI, rule consume.goes_home) (simp add: last_turn_def)

lemma dies_alone:
  "\<not> ft_closed fs \<Longrightarrow> refusal name (ft_errors fs) = Some e \<Longrightarrow>
     \<exists>w'. consume name alive h commit [open_turn fs] w [] (Died e) w'"
  by (rule exI, rule consume.dies) (simp_all add: open_turn_def)

lemma handles_alone:
  assumes "handle_batch alive h commit (ft_partitions fs) w' ok ks w1"
    and "\<not> ft_closed fs" "refusal name (ft_errors fs) = None"
  shows "\<exists>w'. consume name alive h commit [open_turn fs] w [ok] StillRunning w'"
  using assms by (intro exI consume.handles [OF _ _ _ _ _ no_more_turns]) (simp_all add: open_turn_def)

lemma taken_of_one: "taken_of [t] [] = []" "taken_of [open_turn fs] [ok] = concat (ft_partitions fs)"
  by (simp_all add: taken_of_def open_turn_def)

definition no_fetches :: fetches where
  "no_fetches = \<lparr>ft_closed = False, ft_errors = [], ft_partitions = []\<rparr>"

lemma consumed_loop:
  assumes "kafka_loop_step commit h s s'" "consumed cfg h commit w0 s"
  shows "consumed cfg h commit w0 s'"
proof -
  let ?name = "kafka_name cfg"
  have con: "control_inv cfg s" using assms(2) by (simp add: consumed_def)
  note con' = control_inv_loop [OF assms(1) con]
  have comp: "kl_alive s' = kl_alive s"
    using assms(1) by (auto elim: kafka_loop_elim simp: kafka_set_fatal_def)
  show ?thesis
  proof (cases "kl_alive s")
    case False
    with comp con' show ?thesis by (simp add: consumed_def)
  next
    case True
    obtain taken where past: "so_far ?name h commit w0 taken (map fst (kl_commits s)) (ended_as s)"
      and mid: "mid_turn ?name h taken s"
      using assms(2) True by (auto simp: consumed_def)
    note extends = so_far_extends [where name = ?name and h = h and commit = commit and ?w0.0 = w0 and
        taken = taken and commits = "map fst (kl_commits s)"]
    have cfg: "kst_cfg (kl_comp s) = cfg" and unhurt: "kl_at s \<noteq> LoopDone \<Longrightarrow> kst_fatal (kl_comp s) = None"
      using con by (auto simp: control_inv_def)
    have "\<exists>taken'. so_far ?name h commit w0 taken' (map fst (kl_commits s')) (ended_as s') \<and> mid_turn ?name h taken' s'"
      using assms(1)
    proof (cases rule: kafka_loop_step.cases)
      case sees_closing
      have "so_far ?name h commit w0 taken (map fst (kl_commits s)) WentHome"
        using extends [OF _ goes_home_alone [of True no_fetches False]] past sees_closing(2)
        by (fastforce simp: ended_as_def taken_of_one)
      then show ?thesis using sees_closing mid unhurt by (auto simp: ended_as_def mid_turn_def)
    next
      case polls
      then show ?thesis using past mid by (auto simp: ended_as_def mid_turn_def)
    next
      case (poll_returns fs w')
      then show ?thesis using past mid by (auto simp: ended_as_def mid_turn_def)
    next
      case (lets_go fs)
      have "so_far ?name h commit w0 taken (map fst (kl_commits s)) WentHome"
        using extends [OF _ goes_home_alone [of False fs "kst_poll_cancelled (kl_comp s)"]] past lets_go(2,3)
        by (fastforce simp: ended_as_def taken_of_one)
      then show ?thesis using lets_go mid unhurt by (auto simp: ended_as_def mid_turn_def)
    next
      case (is_refused fs e)
      have "so_far ?name h commit w0 taken (map fst (kl_commits s)) (Died e)"
        using extends [OF _ dies_alone [OF is_refused(3), of ?name e]] past is_refused(2,5) cfg
        by (fastforce simp: ended_as_def taken_of_one)
      then show ?thesis using is_refused mid by (auto simp: ended_as_def mid_turn_def kafka_set_fatal_def)
    next
      case (batch_begins fs)
      then show ?thesis using past mid cfg by (intro exI [of _ taken]) (auto simp: ended_as_def mid_turn_def)
    next
      case (handler_returns ks i k' w')
      have "batch_step (\<lambda>_. True) h (ks, kl_world s) (ks[i := k'], w')"
        using handler_returns True by (intro goroutine) simp_all
      with mid past handler_returns(1,2) show ?thesis
        by (intro exI [of _ taken]) (auto simp: ended_as_def mid_turn_def intro: rtranclp.rtrancl_into_rtrancl)
    next
      case (batch_is_committed ks ok e w')
      from in_batch [OF mid batch_is_committed(2)] obtain fs :: fetches and w where b: "\<not> ft_closed fs"
        "refusal ?name (ft_errors fs) = None"
        "(batch_step (\<lambda>_. True) h)\<^sup>*\<^sup>* (map new_worker (ft_partitions fs), w) (ks, kl_world s)"
        "kl_taken s = taken @ concat (ft_partitions fs)" .
      have "commit True ok (kl_world s) = (e, w')" using batch_is_committed True by simp
      with batch_is_committed b(3) have "handle_batch (\<lambda>_. True) h (commit True) (ft_partitions fs) w ok ks w'"
        by (intro batch_commits) simp_all
      from extends [OF _ handles_alone [OF this b(1,2)]] past batch_is_committed(2,5)
      have "so_far ?name h commit w0 (kl_taken s) (map fst (kl_commits s) @ [ok]) StillRunning"
        by (fastforce simp: ended_as_def taken_of_one b(4))
      with batch_is_committed show ?thesis by (auto simp: ended_as_def mid_turn_def)
    next
      case (batch_has_nothing ks)
      from in_batch [OF mid batch_has_nothing(2)] obtain fs :: fetches and w where b: "\<not> ft_closed fs"
        "refusal ?name (ft_errors fs) = None"
        "(batch_step (\<lambda>_. True) h)\<^sup>*\<^sup>* (map new_worker (ft_partitions fs), w) (ks, kl_world s)"
        "kl_taken s = taken @ concat (ft_partitions fs)" .
      have "handle_batch (\<lambda>_. True) h (commit True) (ft_partitions fs) w [] ks (kl_world s)"
        by (rule batch_commits_nothing [OF b(3)]) (use batch_has_nothing in auto)
      from extends [OF _ handles_alone [OF this b(1,2)]] past batch_has_nothing(2)
      have "so_far ?name h commit w0 (kl_taken s) (map fst (kl_commits s)) StillRunning"
        by (fastforce simp: ended_as_def taken_of_one b(4))
      with batch_has_nothing show ?thesis by (auto simp: ended_as_def mid_turn_def)
    qed
    with con' show ?thesis by (simp add: consumed_def)
  qed
qed

text \<open>Drain and Stop touch the flags alone.\<close>

lemma consumed_frame:
  assumes "consumed cfg h commit w0 s" "kafka_step commit h s s'"
    and "kl_at s' = kl_at s" "kl_commits s' = kl_commits s" "kl_taken s' = kl_taken s" "kl_world s' = kl_world s"
    and "kst_fatal (kl_comp s') = kst_fatal (kl_comp s)" "kl_alive s' \<Longrightarrow> kl_alive s"
  shows "consumed cfg h commit w0 s'"
proof -
  have "control_inv cfg s'" using assms(1) control_inv_step [OF assms(2)] by (simp add: consumed_def)
  moreover have "mid_turn name h taken s' = mid_turn name h taken s" for name taken
    unfolding mid_turn_def assms(3,5,6) ..
  moreover have "ended_as s' = ended_as s" using assms(3,7) by (simp add: ended_as_def)
  ultimately show ?thesis using assms(1,4,8) by (simp add: consumed_def)
qed

lemma consumed_step:
  assumes "kafka_step commit h s s'" "consumed cfg h commit w0 s"
  shows "consumed cfg h commit w0 s'"
  using assms(1)
proof cases
  case loop
  then show ?thesis using assms(2) by (rule consumed_loop)
qed (rule consumed_frame [OF assms(2,1)]; simp add: kafka_comp_defs split: if_splits)+

interpretation sequential: kept_by_steps "kafka_step commit h" "consumed cfg h commit w0" for commit h cfg w0
  by unfold_locales (rule consumed_step)

lemma consumed_start:
  assumes "kafka_run_start new_client ping cfg w = Inr s"
  shows "consumed cfg h commit w s"
proof -
  from assms have s: "kl_at s = LoopTop" "kl_commits s = []" "kl_taken s = []"
    by (auto simp: kafka_run_start_def split: prod.splits option.splits)
  have "so_far (kafka_name cfg) h commit w [] [] StillRunning"
    unfolding so_far_def taken_of_def
    by (intro exI [of _ "[]"] exI [of _ w]) (simp add: no_more_turns)
  with s start_inv(2) [OF assms] show ?thesis by (simp add: consumed_def ended_as_def mid_turn_def)
qed

text \<open>
  C27: The running consumer implements the sequential loop: when it has returned before any Stop gave
  up on it, there are turns on which that loop ends the same way (it goes home, or dies of the error
  Check reports), takes the same records and makes the same commits in the same order.
\<close>

theorem running_loop_implements_consume:
  assumes "kafka_run_start new_client ping cfg w = Inr s0" "kafka_reaches commit h s0 s"
    and "kl_at s = LoopDone" "\<not> kst_ctx_cancelled (kl_comp s)"
  shows "\<exists>ts cs w'. consume (kafka_name cfg) (\<lambda>_. True) h (commit True) ts w cs
      (case kafka_check (kl_comp s) of None \<Rightarrow> WentHome | Some e \<Rightarrow> Died e) w' \<and>
    filter (\<lambda>ok. ok \<noteq> []) cs = map fst (kl_commits s) \<and>
    concat (concat (map (\<lambda>t. ft_partitions (tn_fetches t)) (take (length cs) ts))) = kl_taken s"
  using sequential.run_keeps [OF assms(2) consumed_start [OF assms(1)]] assms(3,4)
  by (auto simp: consumed_def so_far_def mid_turn_def ended_as_def taken_of_def kafka_check_def)

theorem running_loop_implements_consume_witness:
  "\<exists>ts cs. consume ''kafka:orders'' (\<lambda>_. True) refuses_offset_1 (commits_well True) ts () cs WentHome () \<and>
     filter (\<lambda>ok. ok \<noteq> []) cs = [[sample_record 0]] \<and>
     concat (concat (map (\<lambda>t. ft_partitions (tn_fetches t)) (take (length cs) ts))) = [sample_record 0]"
proof -
  have at: "kl_at sample_returned = LoopDone" "\<not> kst_ctx_cancelled (kl_comp sample_returned)"
    by (simp_all add: sample_returned_def sample_committed_def sample_running_def kafka_state_new_def
        kafka_drain_flag_def)
  from running_loop_implements_consume [OF sample_starts sample_loop_returns at] obtain ts cs and v :: unit where
    "consume ''kafka:orders'' (\<lambda>_. True) refuses_offset_1 (commits_well True) ts () cs WentHome v"
    "filter (\<lambda>ok. ok \<noteq> []) cs = [[sample_record 0]]"
    "concat (concat (map (\<lambda>t. ft_partitions (tn_fetches t)) (take (length cs) ts))) = [sample_record 0]"
    by (auto simp: kafka_name_def sample_kafka_def kafka_check_def sample_returned_def sample_committed_def
        sample_running_def kafka_state_new_def kafka_drain_flag_def)
  then show ?thesis by (cases v) blast
qed

end
