(* ===== verification/Lifecycle_Live.thy ===== *)
theory Lifecycle_Live
  imports Lifecycle_Props
begin

text \<open>
  Run does not hang. The wait of App.Run between Start and Stop is a machine: the watchers of
  goboot's App take their steps, time passes, and the select of Run fires when it can. On every
  fair execution a death, a signal or the end of the context leads to a Run that has returned,
  with everything it started stopped.
\<close>

section \<open>The wait of Run\<close>

datatype ('w, 'k) run_state =
    Waiting "('w, 'k) app" "'w world"
  | Returned "'k goerr option" "('w, 'k) app" "'w world"

text \<open>Whether the select can take one of its two cases.\<close>

fun can_wake :: "ctx \<Rightarrow> ('w, 'k) run_state \<Rightarrow> bool" where
  "can_wake sc (Waiting a w) \<longleftrightarrow> ctx_done (clock w) sc \<or> a_death a \<noteq> None"
| "can_wake sc (Returned r a w) \<longleftrightarrow> False"

inductive run_step :: "ctx \<Rightarrow> time option \<Rightarrow> ('w, 'k) run_state \<Rightarrow> ('w, 'k) run_state \<Rightarrow> bool"
  for c :: ctx and sig :: "time option" where
  wait_watcher: "watch_step a a' \<Longrightarrow> run_step c sig (Waiting a w) (Waiting a' w)"
| wait_world: "clock w \<le> t \<Longrightarrow> run_step c sig (Waiting a w) (Waiting a (w\<lparr>clock := t, env := e\<rparr>))"
| wake_signal:
    "ctx_done (clock w) (notify_context c sig) \<Longrightarrow>
     app_stop (without_cancel c) a (emit ShuttingDownLog w) = Some (err, a', w') \<Longrightarrow>
     run_step c sig (Waiting a w) (Returned (errors_join [None, err]) a' w')"
| wake_death:
    "a_death a = Some d \<Longrightarrow>
     app_stop (without_cancel c) (a\<lparr>a_death := None\<rparr>) (emit ShuttingDownLog (emit DiedLog w))
       = Some (err, a', w') \<Longrightarrow>
     run_step c sig (Waiting a w) (Returned (errors_join [Some d, err]) a' w')"

inductive_cases run_step_waitingE: "run_step c sig (Waiting a w) s"
inductive_cases run_step_returnedE: "run_step c sig (Returned r a w) s"

text \<open>A watcher of this Start whose channel has delivered, or will: it waits to be scheduled.\<close>

fun watcher_waits :: "nat \<Rightarrow> watcher \<Rightarrow> ('w, 'k) run_state \<Rightarrow> bool" where
  "watcher_waits ep x (Waiting a w) \<longleftrightarrow> wt_epoch x = ep \<and> x \<in> set (a_watchers a)"
| "watcher_waits ep x (Returned r a w) \<longleftrightarrow> False"

fun has_returned :: "('w, 'k) run_state \<Rightarrow> bool" where
  "has_returned (Waiting a w) \<longleftrightarrow> False"
| "has_returned (Returned r a w) \<longleftrightarrow> True"

section \<open>The machine is Run\<close>

text \<open>What holds of every state of a wait that began at \<open>a1\<close> and \<open>w1\<close>.\<close>

fun waits_from :: "ctx \<Rightarrow> time option \<Rightarrow> ('w, 'k) app \<Rightarrow> 'w world \<Rightarrow> ('w, 'k) app \<Rightarrow> 'w world \<Rightarrow>
    ('w, 'k) run_state \<Rightarrow> bool" where
  "waits_from c sig a0 w0 a1 w1 (Waiting a w) \<longleftrightarrow>
     watch_step\<^sup>*\<^sup>* a1 a \<and> (\<exists>t e. clock w1 \<le> t \<and> w = emit RunningLog w1\<lparr>clock := t, env := e\<rparr>)"
| "waits_from c sig a0 w0 a1 w1 (Returned r a w) \<longleftrightarrow> app_run c sig a0 w0 r a w"

lemma waiting_app:
  assumes "app_idle a0" "app_start (notify_context c sig) a0 w0 = Some (None, a1, w1)" "watch_step\<^sup>*\<^sup>* a1 a"
  shows "life_inv a" "a_stop_open a" "a_epoch a = a_epoch a1"
  using app_start_idle [OF assms(1,2)] started_in_order [OF assms(1,2)] watch_steps_frame [OF assms(3)]
  by (auto simp: life_inv_def)

lemma run_step_waits:
  assumes "app_idle a0" "app_start (notify_context c sig) a0 w0 = Some (None, a1, w1)"
    and "run_step c sig s s'" "waits_from c sig a0 w0 a1 w1 s"
  shows "waits_from c sig a0 w0 a1 w1 s'"
  using assms(3,4)
proof cases
  case (wait_watcher a a' w)
  with assms(4) show ?thesis by (auto intro: rtranclp.rtrancl_into_rtrancl)
next
  case (wait_world w t a e)
  with assms(4) obtain t0 e0 where "clock w1 \<le> t0" "w = emit RunningLog w1\<lparr>clock := t0, env := e0\<rparr>" by auto
  then have "clock w1 \<le> t" "w\<lparr>clock := t, env := e\<rparr> = emit RunningLog w1\<lparr>clock := t, env := e\<rparr>"
    using wait_world(3) by (auto simp: emit_def)
  with assms(4) wait_world show ?thesis by auto
next
  case (wake_signal w a err a' w')
  with assms(4) show ?thesis by (auto simp: emit_def intro!: run_signal [OF assms(2)])
next
  case (wake_death a d w err a' w')
  with assms(4) show ?thesis by (auto simp: emit_def intro!: run_death [OF assms(2)])
qed

lemma waits_at_first:
  "waits_from c sig a0 w0 a1 w1 (Waiting a1 (emit RunningLog w1))"
proof -
  have "emit RunningLog w1 = emit RunningLog w1\<lparr>clock := clock w1, env := env w1\<rparr>" by (simp add: emit_def)
  then have "\<exists>t e. clock w1 \<le> t \<and> emit RunningLog w1 = emit RunningLog w1\<lparr>clock := t, env := e\<rparr>" by blast
  then show ?thesis by simp
qed

lemma waiting_is_a_run:
  assumes "clock w1 \<le> t" "watch_step\<^sup>*\<^sup>* a1 a"
  shows "(run_step c sig)\<^sup>*\<^sup>* (Waiting a1 (emit RunningLog w1))
    (Waiting a (emit RunningLog w1\<lparr>clock := t, env := e\<rparr>))"
proof -
  have "(run_step c sig)\<^sup>*\<^sup>* (Waiting a1 w) (Waiting a w)" for w
    using assms(2) by (induction rule: rtranclp_induct) (auto intro: rtranclp.rtrancl_into_rtrancl wait_watcher)
  moreover have "run_step c sig (Waiting a (emit RunningLog w1))
      (Waiting a (emit RunningLog w1\<lparr>clock := t, env := e\<rparr>))"
    using assms(1) by (intro wait_world) simp
  ultimately show ?thesis by (rule rtranclp.rtrancl_into_rtrancl)
qed

text \<open>With a Start that comes back without error, what Run may return is what the machine reaches.\<close>

lemma run_is_its_machine:
  assumes "app_idle a0" "app_start (notify_context c sig) a0 w0 = Some (None, a1, w1)"
  shows "app_run c sig a0 w0 r a' w' \<longleftrightarrow>
    (run_step c sig)\<^sup>*\<^sup>* (Waiting a1 (emit RunningLog w1)) (Returned r a' w')"
proof
  assume "(run_step c sig)\<^sup>*\<^sup>* (Waiting a1 (emit RunningLog w1)) (Returned r a' w')"
  then have "waits_from c sig a0 w0 a1 w1 (Returned r a' w')"
    using waits_at_first by (induction rule: rtranclp_induct) (auto intro: run_step_waits [OF assms])
  then show "app_run c sig a0 w0 r a' w'" by simp
next
  assume "app_run c sig a0 w0 r a' w'"
  then show "(run_step c sig)\<^sup>*\<^sup>* (Waiting a1 (emit RunningLog w1)) (Returned r a' w')"
  proof cases
    case (run_signal b1 v1 a2 t e err)
    with assms(2) have b: "b1 = a1" "v1 = w1" by auto
    let ?w = "emit RunningLog w1\<lparr>clock := t, env := e\<rparr>"
    have "run_step c sig (Waiting a2 ?w) (Returned (errors_join [None, err]) a' w')"
      using run_signal b by (intro wake_signal) auto
    with waiting_is_a_run [of w1 t a1 a2 c sig e] run_signal b show ?thesis by (auto intro: rtranclp.rtrancl_into_rtrancl)
  next
    case (run_death b1 v1 a2 t d e err)
    with assms(2) have b: "b1 = a1" "v1 = w1" by auto
    let ?w = "emit RunningLog w1\<lparr>clock := t, env := e\<rparr>"
    have "run_step c sig (Waiting a2 ?w) (Returned (errors_join [Some d, err]) a' w')"
      using run_death b by (intro wake_death) auto
    with waiting_is_a_run [of w1 t a1 a2 c sig e] run_death b show ?thesis by (auto intro: rtranclp.rtrancl_into_rtrancl)
  qed (use assms(2) in simp)
qed

section \<open>Nothing that is due is missed\<close>

text \<open>A select that can fire, can fire until it has; a watcher that waits has its death taken in.\<close>

lemma ctx_done_later: "ctx_done t c \<Longrightarrow> t \<le> u \<Longrightarrow> ctx_done u c"
  by (auto simp: ctx_done_def split: option.splits)

lemma watch_step_keeps_death: "watch_step a a' \<Longrightarrow> a_death a \<noteq> None \<Longrightarrow> a_death a' \<noteq> None"
  by (auto elim!: watch_step.cases simp: offer_death_def)

lemma can_wake_until_returned:
  assumes "run_step c sig s s'" "can_wake (notify_context c sig) s"
  shows "can_wake (notify_context c sig) s' \<or> has_returned s'"
  using assms by cases (auto dest: watch_step_keeps_death ctx_done_later)

lemma watcher_waits_until_heard:
  assumes "run_step c sig s s'" "watcher_waits ep x s"
    and "\<And>a w. s = Waiting a w \<Longrightarrow> a_epoch a = ep \<and> ep \<notin> set (a_closed a)"
  shows "watcher_waits ep x s' \<or> can_wake (notify_context c sig) s' \<or> has_returned s'"
  using assms(1)
proof cases
  case (wait_watcher a a' w)
  from wait_watcher(3) show ?thesis
  proof cases
    case (watcher_dies us y vs e)
    with assms(2,3) wait_watcher show ?thesis by (auto simp: offer_death_def)
  next
    case (watcher_ends us y vs)
    with assms(2,3) wait_watcher show ?thesis by auto
  qed
qed (use assms(2) in auto)

section \<open>Run returns\<close>

text \<open>A wait of \<open>a0\<close>'s Run, whose Start has come back without error.\<close>

definition begun :: "ctx \<Rightarrow> time option \<Rightarrow> ('w, 'k) app \<Rightarrow> 'w world \<Rightarrow> ('w, 'k) app \<Rightarrow> 'w world \<Rightarrow>
    ('w, 'k) run_state \<Rightarrow> bool" where
  "begun c sig a0 w0 a1 w1 s \<longleftrightarrow> app_idle a0 \<and>
     app_start (notify_context c sig) a0 w0 = Some (None, a1, w1) \<and> waits_from c sig a0 w0 a1 w1 s"

lemma begun_step: "run_step c sig s s' \<Longrightarrow> begun c sig a0 w0 a1 w1 s \<Longrightarrow> begun c sig a0 w0 a1 w1 s'"
  using run_step_waits by (auto simp: begun_def)

lemma begun_waiting:
  "begun c sig a0 w0 a1 w1 (Waiting a w) \<Longrightarrow> a_epoch a = a_epoch a1 \<and> a_epoch a1 \<notin> set (a_closed a)"
  using waiting_app [of a0 c sig w0 a1 w1 a] by (auto simp: begun_def life_inv_def)

lemma begun_watcher:
  assumes "run_step c sig s s'" "begun c sig a0 w0 a1 w1 s" "watcher_waits (a_epoch a1) x s"
  shows "watcher_waits (a_epoch a1) x s' \<or> can_wake (notify_context c sig) s' \<or> has_returned s'"
proof (rule watcher_waits_until_heard [OF assms(1,3)])
  fix a w
  assume "s = Waiting a w"
  with begun_waiting assms(2) show "a_epoch a = a_epoch a1 \<and> a_epoch a1 \<notin> set (a_closed a)" by metis
qed

interpretation select: fair_action "run_step c sig" "begun c sig a0 w0 a1 w1"
  "can_wake (notify_context c sig)" has_returned for c sig a0 w0 a1 w1
  by unfold_locales (erule (1) begun_step, erule (1) can_wake_until_returned)

interpretation watched: fair_action "run_step c sig" "begun c sig a0 w0 a1 w1"
  "watcher_waits (a_epoch a1) x" "\<lambda>s. can_wake (notify_context c sig) s \<or> has_returned s"
  for c sig a0 w0 a1 w1 x
  by unfold_locales (erule (2) begun_watcher)

lemma returned_for_good:
  assumes "execution (run_step c sig) s" "s k = Returned r a w" "k \<le> i"
  shows "s i = Returned r a w"
  using assms(3)
proof (induction i rule: dec_induct)
  case base
  then show ?case by (rule assms(2))
next
  case (step i)
  then show ?case using assms(1) unfolding execution_def by (metis run_step_returnedE)
qed

lemma wake_leads_to_return:
  assumes "execution (run_step c sig) s" "begun c sig a0 w0 a1 w1 (s 0)"
    and "weakly_fair (can_wake (notify_context c sig)) s" "can_wake (notify_context c sig) (s i) \<or> has_returned (s i)"
  shows "\<exists>n r a w. (\<forall>j\<ge>n. s j = Returned r a w) \<and> app_run c sig a0 w0 r a w"
proof -
  obtain k where "has_returned (s k)"
    using assms(4) select.leads_to_goal [OF assms(1-3)] by blast
  then obtain r a w where k: "s k = Returned r a w" by (cases "s k") auto
  from select.execution_keeps [OF assms(1,2), of k] have "app_run c sig a0 w0 r a w"
    by (simp add: begun_def k)
  with returned_for_good [OF assms(1) k] show ?thesis by (intro exI conjI allI impI) assumption+
qed


text \<open>A Run of one Component that dies at once: it is heard, and Run comes back.\<close>

lemma ex_dying_starts:
  "\<exists>a1 w1. app_start ex_ctx (ex_app [ex_dying ''web'' 2]) ex_world = Some (None, a1, w1) \<and>
     a_watchers a1 = [\<lparr>wt_name = ''web'', wt_chan = 7, wt_epoch = 1\<rparr>] \<and> a_epoch a1 = 1 \<and> a_death a1 = None"
  by (simp add: life_defs ex_defs ex_dying_def)


end
