(* ===== verification/Compare.thy ===== *)
theory Compare
  imports Kafka "HOL-Library.List_Lexorder" "HOL-Library.Char_ord"
begin

text \<open>
  The measurement of two Kafka clients (docs/measurements/kafka-client-compare/main.go): records
  produced, two members of a consumer group that count what reaches a handler, a rolling restart
  of the brokers, and the report. The two clients, docker and the clock are what the members
  see of the outside: a fetch gives any records, a commit succeeds or fails, the budget runs out
  at any time. The two members and the goroutines of their batches take their steps in any order.
\<close>

section \<open>The command line\<close>

record compare_flags =
  cf_client :: string
  cf_topic :: string
  cf_group :: string
  cf_count :: nat
  cf_work :: duration
  cf_budget :: duration

definition millisecond :: duration where "millisecond = 1000000"

definition compare_defaults :: compare_flags where
  "compare_defaults =
     \<lparr>cf_client = ''franz'', cf_topic = ''compare'', cf_group = ''compare'', cf_count = 30000,
      cf_work = 20 * millisecond, cf_budget = 15 * minute\<rparr>"

definition compare_brokers :: "string list" where
  "compare_brokers = [''127.0.0.1:19092'', ''127.0.0.1:19093'', ''127.0.0.1:19094'']"

definition compare_nodes :: "string list" where
  "compare_nodes =
     [''goboot-kafka-compare-kafka1-1'', ''goboot-kafka-compare-kafka2-1'', ''goboot-kafka-compare-kafka3-1'']"

section \<open>The tally\<close>

text \<open>How often each key reached a handler, and how many deliveries there were.\<close>

record tally =
  tl_seen :: "(string \<times> nat) list"
  tl_n :: nat

definition new_tally :: tally where "new_tally = \<lparr>tl_seen = [], tl_n = 0\<rparr>"

definition times_seen :: "tally \<Rightarrow> string \<Rightarrow> nat" where
  "times_seen t k = (case map_of (tl_seen t) k of None \<Rightarrow> 0 | Some n \<Rightarrow> n)"

definition tally_add :: "string \<Rightarrow> tally \<Rightarrow> nat \<times> tally" where
  "tally_add key t =
     (let t' = t\<lparr>tl_seen := AList.update key (Suc (times_seen t key)) (tl_seen t), tl_n := Suc (tl_n t)\<rparr>
      in (length (tl_seen t'), t'))"

text \<open>The distinct keys, the deliveries, how many of these were one too many, and what is missing.\<close>

definition tally_report :: "nat \<Rightarrow> tally \<Rightarrow> nat \<times> nat \<times> nat \<times> int" where
  "tally_report want t =
     (length (tl_seen t), tl_n t,
      foldl (\<lambda>dup (k, c). if 1 < c then dup + (c - 1) else dup) 0 (tl_seen t),
      int want - int (length (tl_seen t)))"

text \<open>The format verb \<open>k%06d\<close>.\<close>

definition bench_key :: "nat \<Rightarrow> string" where
  "bench_key i = (let d = nat_text i in ''k'' @ replicate (6 - length d) (CHR ''0'') @ d)"

text \<open>The order of strings is lexicographic by bytes, as sort.Strings has it.\<close>

definition missing_keys :: "tally \<Rightarrow> nat \<Rightarrow> string list" where
  "missing_keys t want =
     (let out = sort (filter (\<lambda>k. times_seen t k = 0) (map bench_key [0..<want]))
      in if 20 < length out then take 20 out @ [''...''] else out)"

section \<open>Producing, waiting and the roll\<close>

text \<open>
  log.Fatalf ends the process with exit code 1: a left. The callbacks of Produce run in any order,
  here \<open>calls\<close>; the first that has an error ends the process.
\<close>

definition bench_record :: "compare_flags \<Rightarrow> nat \<Rightarrow> krecord" where
  "bench_record f i =
     \<lparr>kr_key = bench_key i, kr_value = bench_key i, kr_topic = cf_topic f, kr_partition = 0, kr_offset = 0,
      kr_headers = [], kr_time = 0\<rparr>"

definition produce :: "('k goerr \<Rightarrow> string) \<Rightarrow> 'k goerr option \<Rightarrow> (nat \<times> 'k goerr option) list \<Rightarrow>
    compare_flags \<Rightarrow> string + krecord list" where
  "produce txt new_client calls f =
     (case new_client of
        Some e \<Rightarrow> Inl (''producer: '' @ txt e)
      | None \<Rightarrow>
          (case find (\<lambda>(i, e). e \<noteq> None) calls of
             Some (i, Some e) \<Rightarrow> Inl (''produce '' @ bench_key i @ '': '' @ txt e)
           | _ \<Rightarrow> Inr (map (bench_record f) [0..<cf_count f])))"

text \<open>
  waitFor under a context that ends at \<open>deadline\<close>; \<open>ok\<close> is what the condition says at a time. When
  the pause ends as the context does, the context is taken.
\<close>

function wait_for :: "time \<Rightarrow> (time \<Rightarrow> bool) \<Rightarrow> time \<Rightarrow> time" where
  "wait_for deadline ok t =
     (if ok t then t
      else if deadline \<le> t + 100 * millisecond then max t deadline
      else wait_for deadline ok (t + 100 * millisecond))"
  by pat_completeness auto
termination
  by (relation "measure (\<lambda>(deadline, ok, t). nat (deadline - t))") (auto simp: millisecond_def)

declare wait_for.simps [simp del]

text \<open>The brokers are restarted one after the other, each with the time docker takes and 20 seconds.\<close>

fun roll_from :: "(string \<Rightarrow> time \<Rightarrow> string option \<times> time) \<Rightarrow> string list \<Rightarrow> time \<Rightarrow> string + time" where
  "roll_from reboot [] t = Inr t"
| "roll_from reboot (n # ns) t =
     (case reboot n t of
        (Some err, t1) \<Rightarrow> Inl (''restart '' @ n @ '': '' @ err)
      | (None, t1) \<Rightarrow> roll_from reboot ns (t1 + 20 * second))"

definition roll :: "(string \<Rightarrow> time \<Rightarrow> string option \<times> time) \<Rightarrow> time \<Rightarrow> string + time" where
  "roll reboot t = roll_from reboot compare_nodes t"

section \<open>The two members\<close>

text \<open>
  A franz-go member polls, handles every partition of what it got in a goroutine of its own (what a
  goroutine has still to do, and its records), and commits what the goroutines appended to
  \<open>done\<close>. A segmentio member fetches and handles one message and commits it.
\<close>

datatype member =
    FranzPolls
  | FranzBatch "(krecord list \<times> krecord list) list" "krecord list"
  | SegFetches
  | SegCommits krecord
  | MemberEnded

record bench =
  bn_tally :: tally
  bn_once :: bool
  bn_full :: bool
  bn_cancelled :: bool
  bn_committed :: "krecord list"
  bn_members :: "member list"

text \<open>Closing \<open>full\<close> twice panics. The sync.Once lets one goroutine through.\<close>

definition close_full :: "bench \<Rightarrow> bench option" where
  "close_full b = (if bn_full b then None else Some (b\<lparr>bn_full := True\<rparr>))"

definition bench_handled :: "nat \<Rightarrow> string \<Rightarrow> bench \<Rightarrow> bench option" where
  "bench_handled want key b =
     (case tally_add key (bn_tally b) of
        (seen, t) \<Rightarrow>
          (let b1 = b\<lparr>bn_tally := t\<rparr>
           in if seen = want
              then (if bn_once b1 then Some b1 else close_full (b1\<lparr>bn_once := True\<rparr>))
              else Some b1))"

text \<open>Partitions without records get no goroutine.\<close>

definition start_goroutines :: "krecord list list \<Rightarrow> (krecord list \<times> krecord list) list" where
  "start_goroutines ps = map (\<lambda>p. (p, p)) (filter (\<lambda>p. p \<noteq> []) ps)"

text \<open>
  One step of a member. A poll or a fetch may end the loop when the context is done (or the
  client is closed), and the errors of a fetch or a commit are logged and passed over.
\<close>

inductive member_step :: "nat \<Rightarrow> member \<Rightarrow> bench \<Rightarrow> member \<Rightarrow> bench \<Rightarrow> bool" for want :: nat where
  franz_ends: "member_step want FranzPolls b MemberEnded b"
| franz_polls: "member_step want FranzPolls b (FranzBatch (start_goroutines ps) []) b"
| franz_handles:
    "bench_handled want (kr_key r) b = Some b' \<Longrightarrow>
     member_step want (FranzBatch (us @ (r # rs, ps) # vs) ok) b (FranzBatch (us @ (rs, ps) # vs) ok) b'"
| franz_appends:
    "member_step want (FranzBatch (us @ ([], ps) # vs) ok) b (FranzBatch (us @ vs) (ok @ ps)) b"
| franz_commits:
    "ok \<noteq> [] \<Longrightarrow>
     member_step want (FranzBatch [] ok) b FranzPolls (b\<lparr>bn_committed := bn_committed b @ ok\<rparr>)"
| franz_commit_fails: "member_step want (FranzBatch [] ok) b FranzPolls b"
| seg_ends: "bn_cancelled b \<Longrightarrow> member_step want SegFetches b MemberEnded b"
| seg_handles:
    "bench_handled want (kr_key m) b = Some b' \<Longrightarrow> member_step want SegFetches b (SegCommits m) b'"
| seg_commits: "member_step want (SegCommits m) b SegFetches (b\<lparr>bn_committed := bn_committed b @ [m]\<rparr>)"
| seg_commit_fails: "member_step want (SegCommits m) b SegFetches b"
| seg_commit_ends: "bn_cancelled b \<Longrightarrow> member_step want (SegCommits m) b MemberEnded b"

inductive_cases member_stepE: "member_step want m b m' b'"

text \<open>The whole: a member steps, or the context is done (the budget, or main after \<open>full\<close> closed).\<close>

inductive bench_step :: "nat \<Rightarrow> bench \<Rightarrow> bench \<Rightarrow> bool" for want :: nat where
  bench_member:
    "bn_members b = us @ m # vs \<Longrightarrow> member_step want m b m' b' \<Longrightarrow>
     bench_step want b (b'\<lparr>bn_members := us @ m' # vs\<rparr>)"
| bench_cancelled: "bench_step want b (b\<lparr>bn_cancelled := True\<rparr>)"

text \<open>A franz-go client that cannot be made ends the process, as an unknown name does.\<close>

definition first_member :: "('k goerr \<Rightarrow> string) \<Rightarrow> (nat \<Rightarrow> 'k goerr option) \<Rightarrow> string \<Rightarrow> nat \<Rightarrow> string + member" where
  "first_member txt new_client client i =
     (if client = ''franz''
      then (case new_client i of
              Some e \<Rightarrow> Inl (''franz member '' @ nat_text i @ '': '' @ txt e)
            | None \<Rightarrow> Inr FranzPolls)
      else if client = ''segmentio'' then Inr SegFetches
      else Inl (''unknown -client '' @ quote client))"

definition bench_start :: "('k goerr \<Rightarrow> string) \<Rightarrow> (nat \<Rightarrow> 'k goerr option) \<Rightarrow> string \<Rightarrow> string + bench" where
  "bench_start txt new_client client =
     (case (first_member txt new_client client 0, first_member txt new_client client 1) of
        (Inr m, Inr m') \<Rightarrow> Inr \<lparr>bn_tally = new_tally, bn_once = False, bn_full = False, bn_cancelled = False,
          bn_committed = [], bn_members = [m, m']\<rparr>
      | (Inl e, _) \<Rightarrow> Inl e
      | (_, Inl e) \<Rightarrow> Inl e)"

section \<open>The report of main\<close>

text \<open>When both members have ended: the two lines printed (the second only if keys are missing) and the exit code.\<close>

definition bench_line :: "compare_flags \<Rightarrow> tally \<Rightarrow> string" where
  "bench_line f t =
     (case tally_report (cf_count f) t of
        (d, n, dup, missing) \<Rightarrow>
          ''client='' @ cf_client f @ '' produced='' @ nat_text (cf_count f) @ '' distinct='' @ nat_text d @
          '' deliveries='' @ nat_text n @ '' duplicated='' @ nat_text dup @ '' dropped='' @ format_int missing)"

definition bench_result :: "compare_flags \<Rightarrow> tally \<Rightarrow> string \<times> string list option \<times> int" where
  "bench_result f t =
     (case tally_report (cf_count f) t of
        (d, n, dup, missing) \<Rightarrow>
          if 0 < missing then (bench_line f t, Some (missing_keys t (cf_count f)), 1)
          else (bench_line f t, None, 0))"

text \<open>
  main: produce, the two members beside waitFor and roll, the end of both, and the report. A left is
  the text a log.Fatalf ends the process with. \<open>busy\<close> says when more than 200 keys are in, \<open>t0\<close> is
  when the budget starts.
\<close>

inductive compare_main :: "('k goerr \<Rightarrow> string) \<Rightarrow> 'k goerr option \<Rightarrow> (nat \<times> 'k goerr option) list \<Rightarrow>
    (nat \<Rightarrow> 'k goerr option) \<Rightarrow> (string \<Rightarrow> time \<Rightarrow> string option \<times> time) \<Rightarrow> (time \<Rightarrow> bool) \<Rightarrow> time \<Rightarrow>
    compare_flags \<Rightarrow> string + string \<times> string list option \<times> int \<Rightarrow> bool"
  for tx :: "'k goerr \<Rightarrow> string" and producer :: "'k goerr option" and calls :: "(nat \<times> 'k goerr option) list"
    and new_client :: "nat \<Rightarrow> 'k goerr option" and reboot :: "string \<Rightarrow> time \<Rightarrow> string option \<times> time"
    and busy :: "time \<Rightarrow> bool" and t0 :: time and f :: compare_flags where
  produce_fails: "produce tx producer calls f = Inl e \<Longrightarrow>
    compare_main tx producer calls new_client reboot busy t0 f (Inl e)"
| members_fail: "produce tx producer calls f = Inr rs \<Longrightarrow> bench_start tx new_client (cf_client f) = Inl e \<Longrightarrow>
    compare_main tx producer calls new_client reboot busy t0 f (Inl e)"
| roll_fails: "produce tx producer calls f = Inr rs \<Longrightarrow> bench_start tx new_client (cf_client f) = Inr b0 \<Longrightarrow>
    roll reboot (wait_for (t0 + cf_budget f) busy t0) = Inl e \<Longrightarrow>
    compare_main tx producer calls new_client reboot busy t0 f (Inl e)"
| reports: "produce tx producer calls f = Inr rs \<Longrightarrow> bench_start tx new_client (cf_client f) = Inr b0 \<Longrightarrow>
    roll reboot (wait_for (t0 + cf_budget f) busy t0) = Inr t \<Longrightarrow>
    (bench_step (cf_count f))\<^sup>*\<^sup>* b0 b \<Longrightarrow> \<forall>m \<in> set (bn_members b). m = MemberEnded \<Longrightarrow>
    compare_main tx producer calls new_client reboot busy t0 f (Inr (bench_result f (bn_tally b)))"

end
