(* ===== verification/Compare_Props.thy ===== *)
theory Compare_Props
  imports Compare State_Machine
begin

text \<open>
  What the measurement may be believed for: its tally is the truth about the deliveries in every
  interleaving, a member commits only what was handled, and the exit code says whether a key
  produced never reached a handler.
\<close>

section \<open>Keys\<close>

lemma foldl_zeros: "foldl (\<lambda>n c. 10 * n + digit_value c) 0 (replicate m (CHR ''0'') @ ds) =
    foldl (\<lambda>n c. 10 * n + digit_value c) 0 ds"
  by (induction m) (simp_all add: digit_value_def)

lemma value_of_bench_key: "foldl (\<lambda>n c. 10 * n + digit_value c) 0 (tl (bench_key i)) = i"
  by (simp add: bench_key_def Let_def foldl_zeros nat_text_value del: foldl_append)

lemma bench_key_inj: "bench_key i = bench_key j \<Longrightarrow> i = j"
  using value_of_bench_key by metis

section \<open>The tally\<close>

text \<open>The tally of a list of deliveries counts each key as often as it is in the list.\<close>

definition tally_of :: "string list \<Rightarrow> tally" where
  "tally_of ks = foldl (\<lambda>t k. snd (tally_add k t)) new_tally ks"

lemma tally_of_Nil [simp]: "tally_of [] = new_tally"
  by (simp add: tally_of_def)

lemma tally_of_snoc: "tally_of (ks @ [k]) = snd (tally_add k (tally_of ks))"
  by (simp add: tally_of_def)

definition tally_counts :: "string list \<Rightarrow> tally \<Rightarrow> bool" where
  "tally_counts ks t \<longleftrightarrow> distinct (map fst (tl_seen t)) \<and> set (map fst (tl_seen t)) = set ks \<and>
     (\<forall>k \<in> set ks. map_of (tl_seen t) k = Some (count_list ks k)) \<and> tl_n t = length ks"

lemma tally_counts_add:
  assumes "tally_counts ks t"
  shows "tally_counts (ks @ [k]) (snd (tally_add k t))"
proof -
  have keys: "fst ` set (tl_seen t) = set ks" using assms by (simp add: tally_counts_def)
  have "times_seen t k = count_list ks k"
  proof (cases "k \<in> set ks")
    case True
    with assms show ?thesis by (simp add: tally_counts_def times_seen_def)
  next
    case False
    then have "map_of (tl_seen t) k = None" using keys by (simp add: map_of_eq_None_iff)
    with False show ?thesis by (simp add: times_seen_def count_list_0_iff)
  qed
  with assms keys show ?thesis
    by (auto simp: tally_counts_def tally_add_def Let_def distinct_update dom_update update_conv)
qed

lemma tally_of_counts: "tally_counts ks (tally_of ks)"
proof (induction ks rule: rev_induct)
  case Nil
  then show ?case by (simp add: tally_counts_def new_tally_def)
next
  case (snoc k ks)
  then show ?case by (simp add: tally_of_snoc tally_counts_add)
qed

lemma times_seen_tally_of: "times_seen (tally_of ks) k = count_list ks k"
proof (cases "k \<in> set ks")
  case True
  then show ?thesis using tally_of_counts [of ks] by (simp add: tally_counts_def times_seen_def)
next
  case False
  then have "map_of (tl_seen (tally_of ks)) k = None"
    using tally_of_counts [of ks] by (simp add: tally_counts_def map_of_eq_None_iff)
  with False show ?thesis by (simp add: times_seen_def count_list_0_iff)
qed

lemma distinct_seen: "length (tl_seen (tally_of ks)) = card (set ks)"
proof -
  have "distinct (map fst (tl_seen (tally_of ks)))" "set (map fst (tl_seen (tally_of ks))) = set ks"
    using tally_of_counts [of ks] by (auto simp: tally_counts_def)
  from distinct_card [OF this(1)] this(2) show ?thesis by simp
qed

lemma dup_fold:
  "\<forall>c \<in> set (map snd xs). 0 < c \<Longrightarrow>
   foldl (\<lambda>dup (k, c). if 1 < c then dup + (c - 1) else dup) n xs + length xs = n + sum_list (map snd xs)"
  by (induction xs arbitrary: n) fastforce+

lemma sum_of_counts: "sum_list (map snd (tl_seen (tally_of ks))) = length ks"
proof (induction ks rule: rev_induct)
  case (snoc k ks)
  have "sum_list (map snd (AList.update k (Suc (case map_of xs k of None \<Rightarrow> 0 | Some n \<Rightarrow> n)) xs)) =
      Suc (sum_list (map snd xs))" if "distinct (map fst xs)" for xs :: "(string \<times> nat) list"
    using that by (induction xs) auto
  with snoc tally_of_counts [of ks] show ?case
    by (simp add: tally_of_snoc tally_add_def Let_def times_seen_def tally_counts_def)
qed (simp add: new_tally_def)

lemma report_of_deliveries:
  "tally_report want (tally_of ks) =
     (card (set ks), length ks, length ks - card (set ks), int want - int (card (set ks)))"
proof -
  let ?t = "tally_of ks"
  have "0 < c" if "c \<in> set (map snd (tl_seen ?t))" for c
  proof -
    from that obtain k where k: "(k, c) \<in> set (tl_seen ?t)" by auto
    then have "k \<in> set ks" "map_of (tl_seen ?t) k = Some c"
      using tally_of_counts [of ks] by (auto simp: tally_counts_def rev_image_eqI)
    then show ?thesis using tally_of_counts [of ks] by (auto simp: tally_counts_def count_list_0_iff intro: gr0I)
  qed
  with dup_fold [of "tl_seen ?t" 0] sum_of_counts [of ks] distinct_seen [of ks] tally_of_counts [of ks]
  show ?thesis by (simp add: tally_report_def tally_counts_def)
qed

section \<open>Every interleaving of the members\<close>

abbreviation keys_of :: "krecord list \<Rightarrow> string set" where
  "keys_of rs \<equiv> set (map kr_key rs)"

text \<open>What a member is about to commit has been handled; a goroutine has handled what it has passed.\<close>

fun member_ok :: "string set \<Rightarrow> member \<Rightarrow> bool" where
  "member_ok ks (FranzBatch ws ok) \<longleftrightarrow> keys_of ok \<subseteq> ks \<and>
     (\<forall>(todo, ps) \<in> set ws. \<exists>pre. ps = pre @ todo \<and> keys_of pre \<subseteq> ks)"
| "member_ok ks (SegCommits m) \<longleftrightarrow> kr_key m \<in> ks"
| "member_ok ks _ \<longleftrightarrow> True"

definition bench_inv :: "nat \<Rightarrow> string list \<Rightarrow> bench \<Rightarrow> bool" where
  "bench_inv want ks b \<longleftrightarrow> bn_tally b = tally_of ks \<and> keys_of (bn_committed b) \<subseteq> set ks \<and>
     (bn_full b \<longleftrightarrow> bn_once b) \<and> (bn_full b \<longrightarrow> want \<le> card (set ks)) \<and>
     (\<forall>m \<in> set (bn_members b). member_ok (set ks) m)"

lemma member_ok_mono: "member_ok ks m \<Longrightarrow> ks \<subseteq> ks' \<Longrightarrow> member_ok ks' m"
  by (induction ks m rule: member_ok.induct) fastforce+

lemma tally_add_of: "tally_add k (tally_of ks) = (card (set (ks @ [k])), tally_of (ks @ [k]))"
  using distinct_seen [of "ks @ [k]"] by (simp add: tally_of_snoc) (simp add: tally_add_def Let_def)

text \<open>Handling one more key: nothing panics, and the delivery is counted.\<close>

lemma handled_inv:
  assumes "bench_inv want ks b"
  shows "\<exists>b'. bench_handled want k b = Some b' \<and> bench_inv want (ks @ [k]) b' \<and>
    bn_members b' = bn_members b \<and> bn_committed b' = bn_committed b"
proof -
  have "card (set ks) \<le> card (set (ks @ [k]))" by (intro card_mono) auto
  moreover have "member_ok (set (ks @ [k])) m" if "m \<in> set (bn_members b)" for m
    using assms that by (auto simp: bench_inv_def intro: member_ok_mono)
  ultimately show ?thesis
    using assms by (auto simp: bench_inv_def bench_handled_def close_full_def Let_def tally_add_of)
qed

lemma member_step_inv:
  assumes "member_step want m b m' b'" "bench_inv want ks b" "member_ok (set ks) m"
  shows "\<exists>ks'. set ks \<subseteq> set ks' \<and> bench_inv want ks' b' \<and> member_ok (set ks') m' \<and> bn_members b' = bn_members b"
  using assms(1)
proof cases
  case (franz_handles r us rs ps vs ok)
  with handled_inv [OF assms(2), of "kr_key r"] have b': "bench_inv want (ks @ [kr_key r]) b'"
    "bn_members b' = bn_members b" by auto
  from franz_handles assms(3) obtain pre where "ps = pre @ r # rs" "keys_of pre \<subseteq> set ks" by auto
  then have "ps = (pre @ [r]) @ rs" "keys_of (pre @ [r]) \<subseteq> set (ks @ [kr_key r])" by auto
  then have "\<exists>pre. ps = pre @ rs \<and> keys_of pre \<subseteq> set (ks @ [kr_key r])" by blast
  moreover have "member_ok (set ks) (FranzBatch (us @ vs) ok)" using franz_handles(1) assms(3) by auto
  then have "member_ok (set (ks @ [kr_key r])) (FranzBatch (us @ vs) ok)" by (rule member_ok_mono) auto
  ultimately have "member_ok (set (ks @ [kr_key r])) m'" using franz_handles by auto
  with b' show ?thesis by (intro exI [of _ "ks @ [kr_key r]"]) auto
next
  case (seg_handles r)
  with handled_inv [OF assms(2), of "kr_key r"] show ?thesis
    by (intro exI [of _ "ks @ [kr_key r]"]) auto
qed (use assms(2,3) in \<open>auto simp: bench_inv_def start_goroutines_def intro!: exI [of _ ks]\<close>)

lemma bench_step_inv:
  assumes "bench_step want b b'" "\<exists>ks. bench_inv want ks b"
  shows "\<exists>ks. bench_inv want ks b'"
  using assms(1)
proof cases
  case (bench_member us m vs m' b1)
  from assms(2) obtain ks where ks: "bench_inv want ks b" by blast
  then have "member_ok (set ks) m" using bench_member by (simp add: bench_inv_def)
  from member_step_inv [OF bench_member(3) ks this] obtain ks' where
    "set ks \<subseteq> set ks'" "bench_inv want ks' b1" "member_ok (set ks') m'" "bn_members b1 = bn_members b" by blast
  then show ?thesis using bench_member by (intro exI [of _ ks']) (auto simp: bench_inv_def)
qed (use assms(2) in \<open>auto simp: bench_inv_def\<close>)

interpretation bench: kept_by_steps "bench_step want" "\<lambda>b. \<exists>ks. bench_inv want ks b" for want
  by unfold_locales (rule bench_step_inv)

lemma bench_start_inv: "0 < want \<Longrightarrow> bench_start txt new_client client = Inr b \<Longrightarrow> bench_inv want [] b"
  by (auto simp: bench_start_def first_member_def bench_inv_def split: if_splits option.splits)

lemma missing_of_produced:
  assumes "set ks \<subseteq> bench_key ` {..<want}"
  shows "int want - int (card (set ks)) = int (card {i. i < want \<and> bench_key i \<notin> set ks})"
proof -
  have inj: "inj_on bench_key A" for A by (rule inj_onI) (rule bench_key_inj)
  have "set ks = bench_key ` {i. i < want \<and> bench_key i \<in> set ks}" using assms by auto
  then have "card (set ks) = card {i. i < want \<and> bench_key i \<in> set ks}" by (metis card_image inj)
  moreover have "{..<want} = {i. i < want \<and> bench_key i \<in> set ks} \<union> {i. i < want \<and> bench_key i \<notin> set ks}" by auto
  then have "card {..<want} = card {i. i < want \<and> bench_key i \<in> set ks} + card {i. i < want \<and> bench_key i \<notin> set ks}"
    by (metis (no_types, lifting) card_Un_disjoint disjoint_iff finite_Un finite_lessThan mem_Collect_eq)
  ultimately show ?thesis by simp
qed

text \<open>
  Whatever the members, their goroutines and the clients do: the report is the truth about the
  list of deliveries made, nothing was committed that no handler had seen, closing \<open>full\<close> never
  panics, and when no key came in that was not produced, the exit code is 1 exactly when some key
  produced never reached a handler.
\<close>

theorem measurement_counts_truly:
  assumes "bench_start txt new_client (cf_client f) = Inr b0" "(bench_step (cf_count f))\<^sup>*\<^sup>* b0 b" "0 < cf_count f"
  shows "\<exists>ks. tally_report (cf_count f) (bn_tally b) =
       (card (set ks), length ks, length ks - card (set ks), int (cf_count f) - int (card (set ks))) \<and>
     (\<forall>k. times_seen (bn_tally b) k = count_list ks k) \<and> keys_of (bn_committed b) \<subseteq> set ks \<and>
     (\<forall>k. bench_handled (cf_count f) k b \<noteq> None) \<and>
     (set ks \<subseteq> bench_key ` {..<cf_count f} \<longrightarrow>
        snd (snd (bench_result f (bn_tally b))) = (if \<exists>i<cf_count f. bench_key i \<notin> set ks then 1 else 0))"
proof -
  have "\<exists>ks. bench_inv (cf_count f) ks b0" using bench_start_inv [OF assms(3,1)] by blast
  from bench.run_keeps [OF assms(2) this] obtain ks where ks: "bench_inv (cf_count f) ks b" by blast
  then have t: "bn_tally b = tally_of ks" and c: "keys_of (bn_committed b) \<subseteq> set ks"
    by (simp_all add: bench_inv_def)
  have "bench_handled (cf_count f) k b \<noteq> None" for k using handled_inv [OF ks, of k] by auto
  moreover have "snd (snd (bench_result f (bn_tally b))) = (if \<exists>i<cf_count f. bench_key i \<notin> set ks then 1 else 0)"
    if "set ks \<subseteq> bench_key ` {..<cf_count f}"
    using missing_of_produced [OF that]
    by (auto simp: bench_result_def t report_of_deliveries card_gt_0_iff)
  ultimately show ?thesis
    using c by (intro exI [of _ ks]) (simp add: t report_of_deliveries times_seen_tally_of)
qed

theorem measurement_counts_truly_witness:
  "\<exists>b0 b (ks :: string list). bench_start (\<lambda>_ :: unit goerr. []) (\<lambda>_. None) ''franz'' = Inr b0 \<and>
     (bench_step 2)\<^sup>*\<^sup>* b0 b \<and> tally_report 2 (bn_tally b) = (1, 2, 1, 1) \<and>
     tally_report 2 (bn_tally b) = (card (set ks), length ks, length ks - card (set ks), 2 - int (card (set ks)))"
proof -
  let ?f = "compare_defaults\<lparr>cf_count := 2\<rparr>"
  define r where "r = bench_record ?f 0"
  obtain b0 where b0: "bench_start (\<lambda>_ :: unit goerr. []) (\<lambda>_. None) ''franz'' = Inr b0" "bn_members b0 = [FranzPolls, FranzPolls]" "bn_tally b0 = new_tally"
    by (simp add: bench_start_def first_member_def)
  let ?t1 = "tally_of [kr_key r]" and ?t2 = "tally_of [kr_key r, kr_key r]"
  have h1: "bench_handled 2 (kr_key r) (b\<lparr>bn_tally := new_tally\<rparr>) = Some (b\<lparr>bn_tally := ?t1\<rparr>)" for b
    using tally_add_of [of "kr_key r" "[]"] by (simp add: bench_handled_def Let_def)
  have h2: "bench_handled 2 (kr_key r) (b\<lparr>bn_tally := ?t1\<rparr>) = Some (b\<lparr>bn_tally := ?t2\<rparr>)" for b
    using tally_add_of [of "kr_key r" "[kr_key r]"] by (simp add: bench_handled_def Let_def)
  let ?b = "\<lambda>ms t. b0\<lparr>bn_members := ms, bn_tally := t\<rparr>"
  have start: "?b [FranzPolls, FranzPolls] new_tally = b0" using b0 by simp
  have "bench_step 2 (?b (us @ m # vs) t) (?b (us @ m' # vs) t')"
    if "member_step 2 m (?b (us @ m # vs) t) m' (?b (us @ m # vs) t')" for us m vs m' t t'
    using bench_member [of "?b (us @ m # vs) t" us m vs 2 m' "?b (us @ m # vs) t'"] that by (cases b0) simp
  note step = this [where us = "[]" and vs = "[FranzPolls]", simplified]
  have "bench_step 2 (?b [FranzPolls, FranzPolls] new_tally) (?b [FranzBatch [([r, r], [r, r])] [], FranzPolls] new_tally)"
    using franz_polls [of 2 _ "[[r, r]]"] by (intro step) (simp add: start_goroutines_def)
  moreover have "bench_step 2 (?b [FranzBatch [([r, r], [r, r])] [], FranzPolls] new_tally)
      (?b [FranzBatch [([r], [r, r])] [], FranzPolls] ?t1)"
    using franz_handles [of 2 r _ _ "[]" "[r]" "[r, r]" "[]" "[]"] h1 by (intro step) simp
  moreover have "bench_step 2 (?b [FranzBatch [([r], [r, r])] [], FranzPolls] ?t1)
      (?b [FranzBatch [([], [r, r])] [], FranzPolls] ?t2)"
    using franz_handles [of 2 r _ _ "[]" "[]" "[r, r]" "[]" "[]"] h2 by (intro step) simp
  ultimately have run: "(bench_step 2)\<^sup>*\<^sup>* b0 (?b [FranzBatch [([], [r, r])] [], FranzPolls] ?t2)"
    using start by (metis (no_types, lifting) converse_rtranclp_into_rtranclp rtranclp.rtrancl_refl)
  let ?b2 = "?b [FranzBatch [([], [r, r])] [], FranzPolls] ?t2"
  have "bench_start (\<lambda>_ :: unit goerr. []) (\<lambda>_. None) (cf_client ?f) = Inr b0" "(bench_step (cf_count ?f))\<^sup>*\<^sup>* b0 ?b2" "0 < cf_count ?f"
    using b0 run by (simp_all add: compare_defaults_def)
  from measurement_counts_truly [OF this] obtain ks :: "string list" where "tally_report (cf_count ?f) (bn_tally ?b2) =
      (card (set ks), length ks, length ks - card (set ks), int (cf_count ?f) - int (card (set ks)))" by blast
  moreover have "tally_report 2 (bn_tally ?b2) = (1, 2, 1, 1)" by (simp add: report_of_deliveries)
  ultimately show ?thesis using b0(1) run by (intro exI [of _ b0] exI [of _ ?b2] exI [of _ ks]) simp
qed

end
