(* ===== verification/Proto_App.thy ===== *)
theory Proto_App
  imports Lifecycle
begin

text \<open>
  The prototype of the base Starter (prototypes/goboot/goboot.go), which app.go replaced: one Run
  that starts, waits, drains and stops. A Component, the world and its trace are those of
  Lifecycle, so that the two can be compared; the trace has the ready flag, the calls and the log
  lines. The death channel has room for every Component, so no goroutine blocks on a send.
\<close>

record ('w, 'k) proto_app =
  px_level :: level
  px_json :: bool
  px_start_timeout :: duration
  px_drain_delay :: duration
  px_shutdown_timeout :: duration
  px_comps :: "('w, 'k) component list"
  px_ready :: bool

definition proto_new :: "log_config \<Rightarrow> 'k goerr + ('w, 'k) proto_app" where
  "proto_new cfg =
     (let mk = (\<lambda>l. \<lparr>px_level = l, px_json = (log_format cfg = ''json''), px_start_timeout = 30 * second,
                     px_drain_delay = 5 * second, px_shutdown_timeout = 10 * second, px_comps = [],
                     px_ready = False\<rparr>)
      in if log_level cfg = [] then Inr (mk level_info)
         else (case unmarshal_level (log_level cfg) of
                 Inl e \<Rightarrow> Inl (ErrWrap (''log level '' @ quote (log_level cfg) @ '': '') e)
               | Inr l \<Rightarrow> Inr (mk l)))"

definition proto_add :: "('w, 'k) component list \<Rightarrow> ('w, 'k) proto_app \<Rightarrow> ('w, 'k) proto_app" where
  "proto_add cs p = p\<lparr>px_comps := px_comps p @ cs\<rparr>"

definition proto_checks :: "('w, 'k) proto_app \<Rightarrow> (string \<times> ('w, 'k goerr option) call) list" where
  "proto_checks p =
     foldl (\<lambda>m c. case c_check c of None \<Rightarrow> m | Some f \<Rightarrow> AList.update (c_name c) f m) [] (px_comps p)"

definition proto_is_ready :: "('w, 'k) proto_app \<Rightarrow> bool" where
  "proto_is_ready p = px_ready p"

section \<open>The phases of Run\<close>

text \<open>
  The result of the start loop: the error that broke it, how many are started, and the names
  whose goroutine waits on a channel that is not nil (on a nil channel it waits for ever).
\<close>

fun proto_start_loop :: "ctx \<Rightarrow> ('w, 'k) component list \<Rightarrow> nat \<Rightarrow> string list \<Rightarrow> 'w world \<Rightarrow>
    'k goerr option \<times> nat \<times> string list \<times> 'w world" where
  "proto_start_loop c [] n ws w = (None, n, ws, w)"
| "proto_start_loop c (x # xs) n ws w =
     (case perform (StartCall (c_name x)) (c_start x) c w of
        (Inl e, w') \<Rightarrow> (Some (ErrWrap (''start '' @ c_name x @ '': '') e), n, ws, w')
      | (Inr ch, w') \<Rightarrow>
          proto_start_loop c xs (Suc n) (ws @ (case ch of None \<Rightarrow> [] | Some i \<Rightarrow> [c_name x]))
            (emit (StartedLog (c_name x) (c_tier x)) w'))"

definition proto_starts :: "ctx \<Rightarrow> ('w, 'k) proto_app \<Rightarrow> 'w world \<Rightarrow>
    'k goerr option \<times> nat \<times> string list \<times> 'w world" where
  "proto_starts c p w =
     proto_start_loop (with_timeout (clock w) (px_start_timeout p) c) (sort_key c_tier (px_comps p)) 0 [] w"

text \<open>The goroutines: an error is a death and goes into \<open>deaths\<close>, a nil (or a closed channel) is dropped.\<close>

inductive proto_watch :: "string list \<times> 'k goerr list \<Rightarrow> string list \<times> 'k goerr list \<Rightarrow> bool" where
  proto_dies: "proto_watch (us @ n # vs, ds) (us @ vs, ds @ [ErrWrap (n @ '' died: '') e])"
| proto_nil: "proto_watch (us @ n # vs, ds) (us @ vs, ds)"

fun proto_drain_loop :: "ctx \<Rightarrow> ('w, 'k) component list \<Rightarrow> 'w world \<Rightarrow> 'w world" where
  "proto_drain_loop c [] w = w"
| "proto_drain_loop c (x # xs) w =
     (case c_drain x of
        None \<Rightarrow> proto_drain_loop c xs w
      | Some d \<Rightarrow> proto_drain_loop c xs (snd (perform (DrainCall (c_name x)) d c w)))"

fun proto_stop_loop :: "ctx \<Rightarrow> ('w, 'k) component list \<Rightarrow> 'k goerr option \<Rightarrow> 'w world \<Rightarrow>
    'k goerr option \<times> 'w world" where
  "proto_stop_loop c [] err w = (err, w)"
| "proto_stop_loop c (x # xs) err w =
     (case perform (StopCall (c_name x)) (c_stop x) c w of
        (None, w') \<Rightarrow> proto_stop_loop c xs err w'
      | (Some e, w') \<Rightarrow>
          proto_stop_loop c xs (errors_join [err, Some (ErrWrap (''stop '' @ c_name x @ '': '') e)]) w')"

text \<open>One context for Drain and Stop, made before the first Drain; the sleep does not look at it.\<close>

definition proto_shutdown :: "ctx \<Rightarrow> ('w, 'k) proto_app \<Rightarrow> nat \<Rightarrow> 'k goerr option \<Rightarrow> 'w world \<Rightarrow>
    'k goerr option \<times> 'w world" where
  "proto_shutdown c p started err w =
     (let dctx = with_timeout (clock w) (px_shutdown_timeout p) (without_cancel c);
          up = take started (sort_key c_tier (px_comps p));
          w1 = proto_drain_loop dctx up w;
          w2 = (if 0 < started then emit DelayWait (w1\<lparr>clock := clock w1 + px_drain_delay p\<rparr>) else w1)
      in proto_stop_loop dctx (rev up) err w2)"

section \<open>Run\<close>

text \<open>
  Run wakes by the signal context or by the first death in the channel, at \<open>t\<close>, in a world that
  may have moved on; when both are ready either is taken.
\<close>

inductive proto_run :: "ctx \<Rightarrow> time option \<Rightarrow> ('w, 'k) proto_app \<Rightarrow> 'w world \<Rightarrow>
    'k goerr option \<Rightarrow> ('w, 'k) proto_app \<Rightarrow> 'w world \<Rightarrow> bool"
  for c :: ctx and sig :: "time option" and p :: "('w, 'k) proto_app" and w :: "'w world" where
  proto_start_fails:
    "proto_starts (notify_context c sig) p w = (Some e, n, ws, w1) \<Longrightarrow>
     proto_shutdown (notify_context c sig) p n (Some e) w1 = (r, w2) \<Longrightarrow>
     proto_run c sig p w r p w2"
| proto_signal:
    "proto_starts (notify_context c sig) p w = (None, n, ws, w1) \<Longrightarrow>
     clock w1 \<le> t \<Longrightarrow> ctx_done t (notify_context c sig) \<Longrightarrow>
     proto_shutdown (notify_context c sig) p n None
       (emit ShuttingDownLog (emit (ReadyStore False)
          (emit RunningLog (emit (ReadyStore True) w1)\<lparr>clock := t, env := v\<rparr>))) = (r, w2) \<Longrightarrow>
     proto_run c sig p w r (p\<lparr>px_ready := False\<rparr>) w2"
| proto_death:
    "proto_starts (notify_context c sig) p w = (None, n, ws, w1) \<Longrightarrow>
     clock w1 \<le> t \<Longrightarrow> proto_watch\<^sup>*\<^sup>* (ws, []) (us, d # ds) \<Longrightarrow>
     proto_shutdown (notify_context c sig) p n (Some d)
       (emit ShuttingDownLog (emit (ReadyStore False) (emit DiedLog
          (emit RunningLog (emit (ReadyStore True) w1)\<lparr>clock := t, env := v\<rparr>)))) = (r, w2) \<Longrightarrow>
     proto_run c sig p w r (p\<lparr>px_ready := False\<rparr>) w2"

end
