(* ===== verification/Proto_Web.thy ===== *)
theory Proto_Web
  imports Actuator Proto_App
begin

text \<open>
  The prototypes of the HTTP server and of the Actuator (prototypes/goboot/web, actuator and
  logger.go), on the same requests, connections and writers as the packages that replaced them.
\<close>

section \<open>logger.go\<close>

definition proto_with_logger :: "logger \<Rightarrow> 'c request \<Rightarrow> 'c request" where
  "proto_with_logger lg r = r\<lparr>rq_logger := Some lg\<rparr>"

definition proto_logger_from :: "'c request \<Rightarrow> logger" where
  "proto_logger_from r = (case rq_logger r of Some l \<Rightarrow> l | None \<Rightarrow> default_logger)"

section \<open>web.go: middleware\<close>

text \<open>The document is a map, so its keys are written in order.\<close>

definition proto_write_problem :: "int \<Rightarrow> string \<Rightarrow> rw \<Rightarrow> panic option \<times> rw" where
  "proto_write_problem status detail =
     respond ''application/problem+json'' status
       (Some (JObject [(''detail'', JString detail), (''status'', JInt status), (''title'', JString (status_text status))]))"

text \<open>
  RequestID takes any ID of 1 to 64 bytes, and its logger is slog.Default's. The handler below
  it gets a copy of the request, so the pattern the mux writes is not seen above.
\<close>

definition proto_request_id :: "('c, 'w) middleware" where
  "proto_request_id next r c =
     (let given = hdr_get ''X-Request-Id'' (rq_header r);
          (i, c1) = (if given = [] \<or> 64 < length given then new_request_id c else (given, c));
          r1 = proto_with_logger (log_with [(''requestId'', AText i)] default_logger) r
      in case next r1 (c1\<lparr>cn_w := rw_edit_header (hdr_set ''X-Request-Id'' i) (cn_w c1)\<rparr>) of
           (p, _, c') \<Rightarrow> (p, r, c'))"

definition proto_is_probe :: "string \<Rightarrow> bool" where
  "proto_is_probe p \<longleftrightarrow> p = ''/livez'' \<or> p = ''/readyz'' \<or> 10 \<le> length p \<and> take 10 p = ''/actuator/''"

text \<open>The line of Logging is written only when the handler returns.\<close>

definition proto_logging :: "logger \<Rightarrow> ('c, 'w) middleware" where
  "proto_logging lg next r c =
     (if proto_is_probe (rq_path r) then next r c
      else (case next r c of
              (Some p, r2, c2) \<Rightarrow> (Some p, r2, c2)
            | (None, r2, c2) \<Rightarrow>
                (None, r2,
                 log_line lg level_info ''request''
                   [(''method'', AText (rq_method r2)), (''path'', AText (rq_path r2)),
                    (''route'', AText (rq_pattern r2)), (''duration'', ATime (cn_clock c2 - cn_clock c))] c2)))"

definition proto_recovery :: "logger \<Rightarrow> ('c, 'w) middleware" where
  "proto_recovery lg next r c =
     (case next r c of
        (None, r2, c2) \<Rightarrow> (None, r2, c2)
      | (Some v, r2, c2) \<Rightarrow>
          (let c3 = log_line lg level_error ''panic''
                      [(''err'', AText (panic_text v)), (''route'', AText (rq_pattern r2))] c2
           in case proto_write_problem 500 ''internal error'' (cn_w c3) of
                (p', w') \<Rightarrow> (p', r2, c3\<lparr>cn_w := w'\<rparr>)))"

definition proto_default_middleware :: "logger \<Rightarrow> ('c, 'w) middleware list" where
  "proto_default_middleware lg = [proto_request_id, proto_logging lg, proto_recovery lg]"

section \<open>web.go: the Server\<close>

text \<open>
  \<open>pw_layers\<close> is what Start has wrapped round the mux in srv.Handler, the outermost first; the mux
  itself is shared, so what is mounted later is served too. Of the configuration MaxBodyBytes and TLS
  are read by nobody.
\<close>

record ('c, 'w) proto_server =
  pw_mux :: "(string \<times> ('c, 'w) handler) list"
  pw_addr :: string
  pw_read_header_timeout :: duration
  pw_idle_timeout :: duration
  pw_layers :: "('c, 'w) middleware list"
  pw_mw :: "('c, 'w) middleware list"
  pw_ln :: "string option"

definition proto_web_new :: "web_config \<Rightarrow> ('c, 'w) proto_server" where
  "proto_web_new cfg =
     \<lparr>pw_mux = [],
      pw_addr = (if wc_addr cfg = [] then '':8080'' else wc_addr cfg),
      pw_read_header_timeout =
        (if wc_read_header_timeout cfg = 0 then 5 * second else wc_read_header_timeout cfg),
      pw_idle_timeout = (if wc_idle_timeout cfg = 0 then 120 * second else wc_idle_timeout cfg),
      pw_layers = [], pw_mw = [], pw_ln = None\<rparr>"

definition proto_handle :: "string \<Rightarrow> ('c, 'w) handler \<Rightarrow> ('c, 'w) proto_server \<Rightarrow> ('c, 'w) proto_server option" where
  "proto_handle p h s = map_option (\<lambda>m. s\<lparr>pw_mux := m\<rparr>) (mux_handle p h (pw_mux s))"

definition proto_handle_func :: "string \<Rightarrow> ('c, 'w) handler \<Rightarrow> ('c, 'w) proto_server \<Rightarrow> ('c, 'w) proto_server option" where
  "proto_handle_func p h s = proto_handle p h s"

definition proto_use :: "('c, 'w) middleware list \<Rightarrow> ('c, 'w) proto_server \<Rightarrow> ('c, 'w) proto_server" where
  "proto_use mw s = s\<lparr>pw_mw := pw_mw s @ mw\<rparr>"

text \<open>What the server serves.\<close>

definition proto_serves :: "router \<Rightarrow> ('c, 'w) proto_server \<Rightarrow> ('c, 'w) handler" where
  "proto_serves pick s = foldr (\<lambda>m h. m h) (pw_layers s) (mux_serve pick (pw_mux s))"

definition proto_web_start :: "(string \<Rightarrow> 'k goerr + string) \<Rightarrow> ('c, 'w) proto_server \<Rightarrow>
    ('k goerr + info_line) \<times> ('c, 'w) proto_server" where
  "proto_web_start listen s =
     (let s1 = s\<lparr>pw_layers := pw_mw s @ pw_layers s\<rparr> in
      case listen (pw_addr s1) of
        Inl e \<Rightarrow> (Inl e, s1)
      | Inr a \<Rightarrow> (Inr (listening ''web'' a), s1\<lparr>pw_ln := Some a\<rparr>))"

definition proto_web_tier :: int where "proto_web_tier = tier_transport"

section \<open>actuator.go\<close>

record ('c, 'w, 'k) proto_actuator =
  pc_addr :: string
  pc_expose :: "string list"
  pc_own :: "(string \<times> (string \<times> ('c, 'w) handler) list) option"
  pc_checks :: "(string \<times> ('w, 'k) check) list"
  pc_draining :: bool

definition proto_actuator_new :: "actuator_config \<Rightarrow> ('c, 'w, 'k) proto_actuator" where
  "proto_actuator_new cfg =
     \<lparr>pc_addr = ac_addr cfg,
      pc_expose = (if ac_expose cfg = [] then [''livez'', ''readyz'', ''info''] else ac_expose cfg),
      pc_own = None, pc_checks = [], pc_draining = False\<rparr>"

definition proto_reply :: "int \<Rightarrow> json \<Rightarrow> ('c, 'w) handler" where
  "proto_reply code doc r c =
     (case respond ''application/json'' code (Some doc) (cn_w c) of (p, w') \<Rightarrow> (p, r, c\<lparr>cn_w := w'\<rparr>))"

definition proto_livez :: "('c, 'w) handler" where
  "proto_livez = proto_reply 200 (json_map [(''status'', ''UP'')])"

definition proto_ready :: "string \<Rightarrow> ('w, 'k) check \<Rightarrow> ('c, 'w, 'k) proto_actuator \<Rightarrow> ('c, 'w, 'k) proto_actuator" where
  "proto_ready name f a = a\<lparr>pc_checks := AList.update name f (pc_checks a)\<rparr>"

text \<open>The checks run although the service is not ready, and what they answer goes out to anybody.\<close>

fun proto_run_checks :: "('k \<Rightarrow> string) \<Rightarrow> ctx \<Rightarrow> (string \<times> ('w, 'k) check) list \<Rightarrow>
    string \<Rightarrow> int \<Rightarrow> (string \<times> string) list \<Rightarrow> 'w conn \<Rightarrow>
    string \<times> int \<times> (string \<times> string) list \<times> 'w conn" where
  "proto_run_checks txt x [] status code out c = (status, code, out, c)"
| "proto_run_checks txt x ((name, check) # cs) status code out c =
     (case check x (cn_clock c) (cn_env c) of
        (Some err, t, e) \<Rightarrow>
          proto_run_checks txt x cs ''DOWN'' 503 (AList.update name (''DOWN: '' @ err_text txt err) out)
            (c\<lparr>cn_clock := t, cn_env := e\<rparr>)
      | (None, t, e) \<Rightarrow>
          proto_run_checks txt x cs status code (AList.update name ''UP'' out) (c\<lparr>cn_clock := t, cn_env := e\<rparr>))"

definition proto_readyz :: "('k \<Rightarrow> string) \<Rightarrow> ('w \<Rightarrow> ('w, 'k) probe_view) \<Rightarrow> ('c, 'w) handler" where
  "proto_readyz txt view r c =
     (let v = view (cn_env c);
          (status, code) = (if \<not> pv_ready v \<or> pv_draining v then (''OUT_OF_SERVICE'', 503) else (''UP'', 200))
      in case proto_run_checks txt (rq_ctx r) (pv_checks v) status code [] c of
           (status', code', out, c') \<Rightarrow>
             proto_reply code' (JObject [(''checks'', json_map out), (''status'', JString status')]) r c')"

definition proto_log_level :: "(string \<times> json_err \<Rightarrow> json_err goerr + string) \<Rightarrow> ('c, 'w) handler" where
  "proto_log_level dec r c =
     (if rq_method r = ''GET'' then proto_reply 200 (json_map [(''level'', level_string (cn_level c))]) r c
      else if rq_method r = ''PUT'' then
        (case dec (rq_body r, PlainEOF) of
           Inl e \<Rightarrow> (case http_error (err_text json_err_text e) 400 (cn_w c) of (p, w') \<Rightarrow> (p, r, c\<lparr>cn_w := w'\<rparr>))
         | Inr level \<Rightarrow>
             (case unmarshal_level level :: unit goerr + int of
                Inl e \<Rightarrow> (case http_error (err_text (\<lambda>_. []) e) 400 (cn_w c) of (p, w') \<Rightarrow> (p, r, c\<lparr>cn_w := w'\<rparr>))
              | Inr l \<Rightarrow> proto_reply 200 (json_map [(''level'', level_string l)]) r (c\<lparr>cn_level := l\<rparr>)))
      else (case rw_write_header 405 (rw_edit_header (hdr_set ''Allow'' ''GET, PUT'') (cn_w c)) of
              (p, w') \<Rightarrow> (p, r, c\<lparr>cn_w := w'\<rparr>)))"

text \<open>The Go version, the path and the settings of debug.ReadBuildInfo.\<close>

definition proto_build_info :: "(string \<times> string \<times> (string \<times> string) list) option \<Rightarrow> ('c, 'w) handler" where
  "proto_build_info bi =
     (case bi of
        None \<Rightarrow> proto_reply 200 (json_map [])
      | Some (go, path, settings) \<Rightarrow>
          proto_reply 200 (json_map
            (foldl (\<lambda>m (k, v). if k \<in> {''vcs.revision'', ''vcs.time'', ''vcs.modified''} then AList.update k v m else m)
              [(''go'', go), (''path'', path)] settings)))"

record ('c, 'w, 'k) proto_env =
  pe_text :: "'k \<Rightarrow> string"
  pe_view :: "'w \<Rightarrow> ('w, 'k) probe_view"
  pe_build :: "(string \<times> string \<times> (string \<times> string) list) option"
  pe_decode :: "string \<times> json_err \<Rightarrow> json_err goerr + string"
  pe_metrics :: "('c, 'w) handler"

definition proto_route :: "('c, 'w, 'k) proto_env \<Rightarrow> string \<Rightarrow> (string \<times> ('c, 'w) handler) list" where
  "proto_route pe name =
     (if name = ''metrics'' then [(''GET /actuator/metrics'', pe_metrics pe)]
      else if name = ''loglevel'' then [(''/actuator/loglevel'', proto_log_level (pe_decode pe))]
      else if name = ''info'' then [(''GET /actuator/info'', proto_build_info (pe_build pe))]
      else [])"

definition proto_routes :: "('c, 'w, 'k) proto_env \<Rightarrow> (string \<Rightarrow> ('c, 'w) handler \<Rightarrow> 'm \<Rightarrow> 'm option) \<Rightarrow>
    ('c, 'w, 'k) proto_actuator \<Rightarrow> 'm \<Rightarrow> 'm option" where
  "proto_routes pe handle a m =
     handle_all handle
       ([(''GET /livez'', proto_livez), (''GET /readyz'', proto_readyz (pe_text pe) (pe_view pe))] @
        concat (map (proto_route pe) (pc_expose a))) m"

definition proto_mount_on :: "('c, 'w, 'k) proto_env \<Rightarrow> (string \<Rightarrow> ('c, 'w) handler \<Rightarrow> 'm \<Rightarrow> 'm option) \<Rightarrow>
    ('c, 'w, 'k) proto_actuator \<Rightarrow> 'm \<Rightarrow> (('c, 'w, 'k) proto_actuator \<times> 'm) option" where
  "proto_mount_on pe handle a m =
     (if pc_addr a \<noteq> []
      then map_option (\<lambda>mux. (a\<lparr>pc_own := Some (pc_addr a, mux)\<rparr>, m)) (proto_routes pe mux_handle a [])
      else map_option (\<lambda>m'. (a, m')) (proto_routes pe handle a m))"

definition proto_actuator_drain :: "('c, 'w, 'k) proto_actuator \<Rightarrow> ('c, 'w, 'k) proto_actuator" where
  "proto_actuator_drain a = a\<lparr>pc_draining := True\<rparr>"

text \<open>Start adds the Checks of the App to those registered by Ready. The flag says whether there is a death channel.\<close>

definition proto_actuator_start :: "(string \<Rightarrow> 'k goerr option) \<Rightarrow> ('w, 'k) proto_app \<Rightarrow>
    ('c, 'w, 'k) proto_actuator \<Rightarrow> ('k goerr + bool) \<times> ('c, 'w, 'k) proto_actuator" where
  "proto_actuator_start listen p a =
     (let a1 = foldl (\<lambda>a (name, f). proto_ready name f a) a (proto_checks p)
      in case pc_own a1 of
           None \<Rightarrow> (Inr False, a1)
         | Some (addr, mux) \<Rightarrow> (case listen addr of Some e \<Rightarrow> (Inl e, a1) | None \<Rightarrow> (Inr True, a1)))"

definition proto_actuator_stop :: "'k goerr option \<Rightarrow> ('c, 'w, 'k) proto_actuator \<Rightarrow> 'k goerr option" where
  "proto_actuator_stop shutdown a = (case pc_own a of None \<Rightarrow> None | Some _ \<Rightarrow> shutdown)"

definition proto_actuator_tier :: int where "proto_actuator_tier = tier_observe"

end
