(* ===== verification/Proto_Parts.thy ===== *)
theory Proto_Parts
  imports Proto_Web Db Grpc Config
begin

text \<open>
  The prototypes of the loader of configuration, the database Starter and the gRPC options
  (prototypes/goboot: config.go, db/db.go, grpc/grpc.go). What they use of the outside (YAML, the
  driver, goose, connect-go) is a parameter, as it is for the packages that replaced them.
\<close>

section \<open>config.go\<close>

text \<open>
  The YAML library as the loader uses it: a document decoded into the value that is there, with
  unknown keys refused; the value a text is; and a map written out.
\<close>

record ('y, 'k, 'o) proto_yaml =
  py_into :: "string \<Rightarrow> 'o \<Rightarrow> 'k goerr + 'o"
  py_eof :: "'k \<Rightarrow> bool"
  py_value :: "string \<Rightarrow> 'y cval option"
  py_marshal :: "'y cmap \<Rightarrow> 'k goerr + string"

text \<open>An empty document is no error.\<close>

definition proto_decode :: "('y, 'k, 'o) proto_yaml \<Rightarrow> string \<Rightarrow> 'o \<Rightarrow> 'k goerr + 'o" where
  "proto_decode y b out =
     (case py_into y b out of
        Inl e \<Rightarrow> if errors_is (py_eof y) e then Inr out else Inl e
      | Inr out' \<Rightarrow> Inr out')"

text \<open>strings.ToLower; the last element of a path is set, and what is no map on the way is replaced by one.\<close>

definition proto_lower :: "('y, 'k) externals \<Rightarrow> string \<Rightarrow> string" where
  "proto_lower x s = concat (map (lower_rune x) (runes s))"

fun proto_set_path :: "string list \<Rightarrow> 'y cval \<Rightarrow> 'y cmap \<Rightarrow> 'y cmap" where
  "proto_set_path [] v m = m"
| "proto_set_path [p] v m = AList.update p v m"
| "proto_set_path (p # q # ps) v m =
     (let next = (case map_of m p of Some (CMap s) \<Rightarrow> s | _ \<Rightarrow> [])
      in AList.update p (CMap (proto_set_path (q # ps) v next)) m)"

definition proto_env_entry :: "('y, 'k) externals \<Rightarrow> ('y, 'k, 'o) proto_yaml \<Rightarrow> string \<Rightarrow> string \<Rightarrow>
    'y cmap \<Rightarrow> 'y cmap" where
  "proto_env_entry x y prefix kv m =
     (case cut kv ''='' of
        (k, v, _) \<Rightarrow>
          if \<not> has_prefix k prefix then m
          else proto_set_path (split_on (proto_lower x (trim_prefix k prefix)) ''__'')
                 (case py_value y v of Some u \<Rightarrow> u | None \<Rightarrow> CStr v) m)"

definition proto_load_env :: "('y, 'k) externals \<Rightarrow> ('y, 'k, 'o) proto_yaml \<Rightarrow> string list \<Rightarrow> string \<Rightarrow>
    'o \<Rightarrow> 'k goerr + 'o" where
  "proto_load_env x y environ prefix out =
     (let m = fold (proto_env_entry x y prefix) environ [] in
      if m = [] then Inr out
      else (case py_marshal y m of
              Inl e \<Rightarrow> Inl e
            | Inr b \<Rightarrow>
                (case proto_decode y b out of
                   Inl e \<Rightarrow> Inl (ErrWrap (''config env '' @ prefix @ ''*: '') e)
                 | Inr out' \<Rightarrow> Inr out')))"

text \<open>An embedded file that cannot be read is passed over, whatever the error.\<close>

definition proto_load :: "('y, 'k) externals \<Rightarrow> ('y, 'k, 'o) proto_yaml \<Rightarrow> 'k machine \<Rightarrow> string \<Rightarrow> string \<Rightarrow>
    'o \<Rightarrow> 'k goerr + 'o" where
  "proto_load x y mc path prefix out =
     (case (if m_has_defaults mc
            then (case m_read mc (Embedded path) of
                    Inl e \<Rightarrow> Inr out
                  | Inr b \<Rightarrow> (case proto_decode y b out of
                                Inl e \<Rightarrow> Inl (ErrWrap (''config (embedded) '' @ path @ '': '') e)
                              | Inr out' \<Rightarrow> Inr out'))
            else Inr out) of
        Inl e \<Rightarrow> Inl e
      | Inr out1 \<Rightarrow>
     (case m_read mc (Disk path) of
        Inl e \<Rightarrow>
          if errors_is (m_not_exist mc) e then proto_load_env x y (m_environ mc) prefix out1 else Inl e
      | Inr b \<Rightarrow>
          (case proto_decode y b out1 of
             Inl e \<Rightarrow> Inl (ErrWrap (''config '' @ path @ '': '') e)
           | Inr out2 \<Rightarrow> proto_load_env x y (m_environ mc) prefix out2)))"

section \<open>db.go\<close>

definition proto_db_new :: "(string \<Rightarrow> string \<Rightarrow> 'k goerr option) \<Rightarrow> db_config \<Rightarrow> bool \<Rightarrow>
    'k goerr + pool \<times> db_component" where
  "proto_db_new sql_open cfg0 has_migrations =
     (let cfg = cfg0\<lparr>dc_driver := (if dc_driver cfg0 = [] then ''pgx'' else dc_driver cfg0),
                      dc_max_open := (if dc_max_open cfg0 = 0 then 10 else dc_max_open cfg0)\<rparr> in
      case sql_open (dc_driver cfg) (dc_dsn cfg) of
        Some e \<Rightarrow> Inl e
      | None \<Rightarrow>
          (let p = set_life_time (if dc_life_time cfg = 0 then 30 * minute else dc_life_time cfg)
                     (set_idle_time (if dc_idle_time cfg = 0 then 5 * minute else dc_idle_time cfg)
                       (set_max_idle (if dc_max_idle cfg = 0 then 10 else dc_max_idle cfg)
                         (set_max_open (dc_max_open cfg) sql_pool)))
           in Inr (p, \<lparr>db_pool = p, db_cfg = cfg, db_migrations = has_migrations\<rparr>)))"

definition proto_provider :: "'k goerr option \<Rightarrow> (provider \<Rightarrow> 'k goerr option) \<Rightarrow> string \<Rightarrow> 'k goerr + provider" where
  "proto_provider new_locker goose driver =
     (if driver = ''pgx'' \<or> driver = ''postgres''
      then (case new_locker of
              Some e \<Rightarrow> Inl e
            | None \<Rightarrow>
                (let p = \<lparr>pr_dialect = Postgres, pr_locked = True\<rparr>
                 in case goose p of Some e \<Rightarrow> Inl e | None \<Rightarrow> Inr p))
      else Inl (ErrText (''db: no goose dialect for driver '' @ quote driver)))"

text \<open>A panic of the function goes through: the transaction is told nothing.\<close>

definition proto_with_tx :: "('w \<Rightarrow> ('k goerr + 't) \<times> 'w) \<Rightarrow> ('t \<Rightarrow> 'w \<Rightarrow> 'k goerr option \<times> 'w) \<Rightarrow>
    ('t \<Rightarrow> 'w \<Rightarrow> 'k goerr option \<times> 'w) \<Rightarrow> ('t \<Rightarrow> 'w tx_world \<Rightarrow> 'k tx_end \<times> 'w tx_world) \<Rightarrow>
    'w tx_world \<Rightarrow> 'k tx_end \<times> 'w tx_world" where
  "proto_with_tx begin_tx commit rollback fn w =
     (case tx_call TxBegin begin_tx w of
        (Inl e, w1) \<Rightarrow> (TxReturned (Some e), w1)
      | (Inr t, w1) \<Rightarrow>
          (case fn t w1 of
             (TxPanicked p, w2) \<Rightarrow> (TxPanicked p, w2)
           | (TxReturned (Some e), w2) \<Rightarrow>
               (TxReturned (Some e), snd (tx_call TxRollback (rollback t) w2))
           | (TxReturned None, w2) \<Rightarrow>
               (case tx_call TxCommit (commit t) w2 of (res, w3) \<Rightarrow> (TxReturned res, w3))))"

definition proto_db_start :: "('w \<Rightarrow> 'k goerr option \<times> 'w) \<Rightarrow> 'k goerr option \<Rightarrow>
    (provider \<Rightarrow> 'k goerr option) \<Rightarrow> (provider \<Rightarrow> 'w \<Rightarrow> ('k goerr + nat) \<times> 'w) \<Rightarrow>
    (provider \<Rightarrow> 'w \<Rightarrow> ('k goerr + bool) \<times> 'w) \<Rightarrow> db_component \<Rightarrow> 'w \<Rightarrow>
    'k goerr option \<times> db_log list \<times> 'w" where
  "proto_db_start ping new_locker goose up has_pending c w =
     (case ping w of
        (Some e, w1) \<Rightarrow> (Some e, [], w1)
      | (None, w1) \<Rightarrow>
          if \<not> db_migrations c then (None, [], w1)
          else (case proto_provider new_locker goose (dc_driver (db_cfg c)) of
             Inl e \<Rightarrow> (Some e, [], w1)
           | Inr p \<Rightarrow>
               if dc_migrate (db_cfg c) then
                 (case up p w1 of
                    (Inl e, w2) \<Rightarrow> (Some e, [], w2)
                  | (Inr n, w2) \<Rightarrow> (None, [MigrationsApplied n], w2))
               else
                 (case has_pending p w1 of
                    (Inl e, w2) \<Rightarrow> (Some e, [], w2)
                  | (Inr True, w2) \<Rightarrow> (Some (ErrText ''db: migrations pending; run `myservice migrate`''), [], w2)
                  | (Inr False, w2) \<Rightarrow> (None, [], w2))))"

definition proto_db_stop :: "('w \<Rightarrow> 'k goerr option \<times> 'w) \<Rightarrow> 'w \<Rightarrow> 'k goerr option \<times> 'w" where
  "proto_db_stop close_pool w = close_pool w"

definition proto_db_check :: "('w \<Rightarrow> 'k goerr option \<times> 'w) \<Rightarrow> 'w \<Rightarrow> 'k goerr option \<times> 'w" where
  "proto_db_check ping w = ping w"

definition proto_db_tier :: int where "proto_db_tier = tier_resource"

text \<open>What goose's Printf and Fatalf become: a line at INFO or at ERROR.\<close>

definition proto_goose_line :: "bool \<Rightarrow> string \<Rightarrow> 'w conn \<Rightarrow> 'w conn" where
  "proto_goose_line fatal msg =
     log_line \<lparr>lg_app = True, lg_attrs = []\<rparr> (if fatal then level_error else level_info) msg []"

section \<open>grpc.go\<close>

definition proto_recovered :: "logger \<Rightarrow> string \<Rightarrow> 'c request \<Rightarrow> panic \<Rightarrow> 'w conn \<Rightarrow> 'k rpc_error \<times> 'w conn" where
  "proto_recovered lg procedure r p c =
     (connect_error code_internal ''internal'',
      log_line lg level_error ''panic in rpc'' [(''err'', AText (panic_text p))] c)"

definition proto_sanitise :: "('k \<Rightarrow> string) \<Rightarrow> logger \<Rightarrow> ('c, 'w, 'r, 'k) rpc \<Rightarrow> ('c, 'w, 'r, 'k) rpc" where
  "proto_sanitise txt lg next procedure r c =
     (case next procedure r c of
        (RpcPanic p, c1) \<Rightarrow> (RpcPanic p, c1)
      | (RpcEnd res None, c1) \<Rightarrow> (RpcEnd res None, c1)
      | (RpcEnd res (Some e), c1) \<Rightarrow>
          (case as_connect e of
             Some (code, m) \<Rightarrow>
               (RpcEnd res (Some e), log_line lg level_error ''rpc failed''
                  [(''procedure'', AText procedure), (''code'', AText (code_string code))] c1)
           | None \<Rightarrow>
               (RpcEnd None (Some (connect_error code_unknown ''unknown'')),
                log_line lg level_error ''rpc failed''
                  [(''procedure'', AText procedure), (''err'', AText (err_text (rpc_err_text txt) e))] c1)))"

text \<open>
  DefaultOptions on the two kinds of handler. The interceptor is a UnaryInterceptorFunc, which leaves
  streaming handlers as they are. The required protocol header is a flag of the handler.
\<close>

definition proto_unary :: "('c, 'w, 'r, 'k) recoverer \<Rightarrow> ('k \<Rightarrow> string) \<Rightarrow> logger \<Rightarrow>
    ('c, 'w, 'r, 'k) rpc \<Rightarrow> ('c, 'w, 'r, 'k) rpc" where
  "proto_unary recover_with txt lg inner = recover_with (proto_recovered lg) (proto_sanitise txt lg inner)"

definition proto_streaming :: "('c, 'w, 'r, 'k) recoverer \<Rightarrow> ('k \<Rightarrow> string) \<Rightarrow> logger \<Rightarrow>
    ('c, 'w, 'r, 'k) rpc \<Rightarrow> ('c, 'w, 'r, 'k) rpc" where
  "proto_streaming recover_with txt lg inner = recover_with (proto_recovered lg) inner"

end
