(* ===== verification/Proto_Main.thy ===== *)
theory Proto_Main
  imports Proto_Parts Service Examples
begin

text \<open>
  The prototypes of tracing and the Presets (prototypes/goboot: trace, preset, preset/traced) and the
  services written with them (prototypes/cmd). The methods of the Components are those of \<open>wiring\<close>.
\<close>

section \<open>trace.go\<close>

text \<open>A signature only: it makes no Component fail, and its middleware does nothing.\<close>

definition proto_trace_new :: "trace_config \<Rightarrow> 'k goerr option" where
  "proto_trace_new cfg = None"

definition proto_trace_middleware :: "('c, 'w) middleware" where
  "proto_trace_middleware next = next"

definition proto_trace_default :: "logger \<Rightarrow> ('c, 'w) middleware list" where
  "proto_trace_default lg = [proto_request_id, proto_trace_middleware, proto_logging lg, proto_recovery lg]"

definition proto_is_rpc :: "'c request \<Rightarrow> bool" where
  "proto_is_rpc r \<longleftrightarrow>
     has_prefix (hdr_get ''Content-Type'' (rq_header r)) ''application/grpc'' \<or>
     hdr_get ''Connect-Protocol-Version'' (rq_header r) \<noteq> []"

definition proto_trace_start :: "'k goerr + nat option" where "proto_trace_start = Inr None"
definition proto_trace_stop :: "'k goerr option" where "proto_trace_stop = None"
definition proto_trace_tier :: int where "proto_trace_tier = tier_observe"

section \<open>preset.go and traced.go\<close>

record proto_preset_config =
  pp_log :: log_config
  pp_web :: web_config
  pp_db :: db_config
  pp_actuator :: actuator_config

record ('c, 'w, 'k) proto_preset =
  pp_app :: "('w, 'k) proto_app"
  pp_srv :: "('c, 'w) proto_server"
  pp_pool :: pool
  pp_act :: "('c, 'w, 'k) proto_actuator"

definition proto_full :: "('c, 'w, 'k) wiring \<Rightarrow> ('c, 'w, 'k) proto_env \<Rightarrow> proto_preset_config \<Rightarrow> bool \<Rightarrow>
    ('k goerr + ('c, 'w, 'k) proto_preset) option" where
  "proto_full wr pe cfg migrations =
     (case proto_new (pp_log cfg) of
        Inl e \<Rightarrow> Some (Inl e)
      | Inr app \<Rightarrow>
     (case proto_db_new (wr_sql_open wr) (pp_db cfg) migrations of
        Inl e \<Rightarrow> Some (Inl e)
      | Inr (pool, database) \<Rightarrow>
     (case proto_mount_on pe proto_handle (proto_actuator_new (pp_actuator cfg))
             (proto_use (proto_default_middleware base_logger) (proto_web_new (pp_web cfg))) of
        None \<Rightarrow> None
      | Some (act, srv) \<Rightarrow>
          Some (Inr \<lparr>pp_app = proto_add [actuator_component wr, db_part wr, web_component wr] app,
                     pp_srv = srv, pp_pool = pool, pp_act = act\<rparr>))))"

definition proto_traced_full :: "('c, 'w, 'k) wiring \<Rightarrow> ('c, 'w, 'k) proto_env \<Rightarrow> proto_preset_config \<Rightarrow> trace_config \<Rightarrow> bool \<Rightarrow>
    ('k goerr + ('c, 'w, 'k) proto_preset) option" where
  "proto_traced_full wr pe cfg tcfg migrations =
     (case proto_new (pp_log cfg) of
        Inl e \<Rightarrow> Some (Inl e)
      | Inr app \<Rightarrow>
     (case proto_db_new (wr_sql_open wr) (pp_db cfg) migrations of
        Inl e \<Rightarrow> Some (Inl e)
      | Inr (pool, database) \<Rightarrow>
     (case proto_trace_new tcfg of
        Some e \<Rightarrow> Some (Inl e)
      | None \<Rightarrow>
     (case proto_mount_on pe proto_handle (proto_actuator_new (pp_actuator cfg))
             (proto_use (proto_trace_default base_logger) (proto_web_new (pp_web cfg))) of
        None \<Rightarrow> None
      | Some (act, srv) \<Rightarrow>
          Some (Inr \<lparr>pp_app = proto_add [actuator_component wr, trace_component wr, db_part wr, web_component wr] app,
                     pp_srv = srv, pp_pool = pool, pp_act = act\<rparr>)))))"

section \<open>cmd/http-only and cmd/http-actuator-config\<close>

definition proto_write_line :: "string \<Rightarrow> ('c, 'w) handler" where
  "proto_write_line s r c = (None, r, c\<lparr>cn_w := snd (rw_write (s @ newline) (cn_w c))\<rparr>)"

definition proto_hello :: "('c request \<Rightarrow> string) \<Rightarrow> ('c, 'w) handler" where
  "proto_hello path_value r = proto_write_line (''hello '' @ path_value r) r"

text \<open>A build is what a main does before Run: \<open>None\<close> is a panic, a left is the error run returns.\<close>

definition proto_only_build :: "('c, 'w, 'k) wiring \<Rightarrow> ('c request \<Rightarrow> string) \<Rightarrow>
    ('k goerr + ('w, 'k) proto_app \<times> ('c, 'w) proto_server) option" where
  "proto_only_build wr path_value =
     (case proto_new \<lparr>log_level = [], log_format = []\<rparr> of
        Inl e \<Rightarrow> Some (Inl e)
      | Inr app \<Rightarrow>
     (let srv = proto_use (proto_default_middleware base_logger)
                  (proto_web_new \<lparr>wc_addr = '':8080'', wc_read_header_timeout = 0, wc_idle_timeout = 0,
                     wc_max_body = 0, wc_cert_file = [], wc_key_file = []\<rparr>)
      in case proto_handle ''GET /hello/{name}'' (proto_hello path_value) srv of
           None \<Rightarrow> None
         | Some srv' \<Rightarrow> Some (Inr (proto_add [web_component wr] app, srv'))))"

record proto_greeter_config =
  pg_log :: log_config
  pg_web :: web_config
  pg_actuator :: actuator_config
  pg_greeting :: string

text \<open>The struct is filled before the load, which is its layer of defaults.\<close>

definition proto_greeter_load :: "('y, 'k) externals \<Rightarrow> ('y, 'k, proto_greeter_config) proto_yaml \<Rightarrow> 'k machine \<Rightarrow>
    proto_greeter_config \<Rightarrow> 'k goerr + proto_greeter_config" where
  "proto_greeter_load x y mc zero = proto_load x y mc ''app.yaml'' ''GB_'' (zero\<lparr>pg_greeting := ''hello''\<rparr>)"

definition proto_greet :: "string \<Rightarrow> ('c request \<Rightarrow> string) \<Rightarrow> ('c, 'w) handler" where
  "proto_greet greeting path_value r c =
     proto_write_line (greeting @ '' '' @ path_value r) r
       (log_line base_logger level_debug ''greeting'' [(''name'', AText (path_value r))] c)"

definition proto_greeter_build :: "('c, 'w, 'k) wiring \<Rightarrow> ('c, 'w, 'k) proto_env \<Rightarrow> ('c request \<Rightarrow> string) \<Rightarrow>
    proto_greeter_config \<Rightarrow> ('k goerr + ('w, 'k) proto_app \<times> ('c, 'w) proto_server) option" where
  "proto_greeter_build wr pe path_value cfg =
     (case proto_new (pg_log cfg) of
        Inl e \<Rightarrow> Some (Inl e)
      | Inr app \<Rightarrow>
     (case proto_mount_on pe proto_handle (proto_actuator_new (pg_actuator cfg))
             (proto_use (proto_default_middleware base_logger) (proto_web_new (pg_web cfg))) of
        None \<Rightarrow> None
      | Some (act, srv) \<Rightarrow>
          (case proto_handle ''GET /hello/{name}'' (proto_greet (pg_greeting cfg) path_value) srv of
             None \<Rightarrow> None
           | Some srv' \<Rightarrow> Some (Inr (proto_add [actuator_component wr, web_component wr] app, srv')))))"

section \<open>cmd/full\<close>

text \<open>The service layer: \<open>query\<close> is the SELECT of the greeting of a language.\<close>

definition proto_svc_greet :: "(string \<Rightarrow> ('w, 'k sql_err goerr + string) call) \<Rightarrow> string \<Rightarrow>
    ('w, 'k sql_err goerr + string) call" where
  "proto_svc_greet query name x t w =
     (case query ''en'' x t w of
        (Inl e, t', w') \<Rightarrow> (Inl e, t', w')
      | (Inr g, t', w') \<Rightarrow> (Inr (g @ '' '' @ name), t', w'))"

definition proto_http_greet :: "('k sql_err \<Rightarrow> string) \<Rightarrow> ('c request \<Rightarrow> string) \<Rightarrow>
    (string \<Rightarrow> ('w, 'k sql_err goerr + string) call) \<Rightarrow> ('c, 'w) handler" where
  "proto_http_greet txt path_value svc r c =
     (case svc (path_value r) (rq_ctx r) (cn_clock c) (cn_env c) of
        (Inl e, t, w) \<Rightarrow>
          (case http_error (err_text txt e) 500 (cn_w c) of
             (p, rw) \<Rightarrow> (p, r, c\<lparr>cn_clock := t, cn_env := w, cn_w := rw\<rparr>))
      | (Inr out, t, w) \<Rightarrow> proto_write_line out r (c\<lparr>cn_clock := t, cn_env := w\<rparr>))"

text \<open>connect.NewError keeps the error it is given, whose text is the message.\<close>

definition proto_rpc_greet :: "('k sql_err \<Rightarrow> string) \<Rightarrow> (string \<Rightarrow> ('w, 'k sql_err goerr + string) call) \<Rightarrow> string \<Rightarrow>
    ('c, 'w, string, 'k sql_err) rpc" where
  "proto_rpc_greet txt svc name procedure r c =
     (case svc name (rq_ctx r) (cn_clock c) (cn_env c) of
        (Inl e, t, w) \<Rightarrow>
          (RpcEnd None (Some (connect_error code_internal (err_text txt e))), c\<lparr>cn_clock := t, cn_env := w\<rparr>)
      | (Inr out, t, w) \<Rightarrow> (RpcEnd (Some out) None, c\<lparr>cn_clock := t, cn_env := w\<rparr>))"

record proto_full_config =
  pf_preset :: proto_preset_config
  pf_trace :: trace_config
  pf_greeting :: string

definition proto_full_load :: "('y, 'k) externals \<Rightarrow> ('y, 'k, proto_full_config) proto_yaml \<Rightarrow> 'k machine \<Rightarrow>
    proto_full_config \<Rightarrow> 'k goerr + proto_full_config" where
  "proto_full_load x y mc zero = proto_load x y mc ''app.yaml'' ''GB_'' zero"

text \<open>
  What both forms mount on the server: the route of the HTTP adapter, and what the generated
  constructor makes of the RPC adapter under the default options.
\<close>

definition proto_full_routes :: "((string \<Rightarrow> ('c, 'w, string, 'k sql_err) rpc) \<Rightarrow> string \<times> ('c, 'w) handler) \<Rightarrow>
    ('c, 'w, string, 'k sql_err) recoverer \<Rightarrow> ('k sql_err \<Rightarrow> string) \<Rightarrow> ('c request \<Rightarrow> string) \<Rightarrow>
    (pool \<Rightarrow> string \<Rightarrow> ('w, 'k sql_err goerr + string) call) \<Rightarrow> pool \<Rightarrow> ('c, 'w) proto_server \<Rightarrow>
    ('c, 'w) proto_server option" where
  "proto_full_routes connect recover_with txt path_value query pool srv =
     (let svc = proto_svc_greet (query pool) in
      case proto_handle ''GET /hello/{name}'' (proto_http_greet txt path_value svc) srv of
        None \<Rightarrow> None
      | Some srv1 \<Rightarrow>
          (case connect (\<lambda>name. proto_unary recover_with txt base_logger (proto_rpc_greet txt svc name)) of
             (path, h) \<Rightarrow> proto_handle path h srv1))"

definition proto_full_build :: "('c, 'w, 'k) wiring \<Rightarrow> ('c, 'w, 'k) proto_env \<Rightarrow>
    (pool \<Rightarrow> ('c, 'w) proto_server \<Rightarrow> ('c, 'w) proto_server option) \<Rightarrow> proto_full_config \<Rightarrow>
    ('k goerr + ('w, 'k) proto_app \<times> ('c, 'w) proto_server) option" where
  "proto_full_build wr pe routes_on cfg =
     (case proto_traced_full wr pe (pf_preset cfg) (pf_trace cfg) True of
        None \<Rightarrow> None
      | Some (Inl e) \<Rightarrow> Some (Inl e)
      | Some (Inr p) \<Rightarrow>
          (case routes_on (pp_pool p) (pp_srv p) of
             None \<Rightarrow> None
           | Some srv \<Rightarrow> Some (Inr (pp_app p, srv))))"

definition proto_explicit_build :: "('c, 'w, 'k) wiring \<Rightarrow> ('c, 'w, 'k) proto_env \<Rightarrow>
    (pool \<Rightarrow> ('c, 'w) proto_server \<Rightarrow> ('c, 'w) proto_server option) \<Rightarrow> proto_full_config \<Rightarrow>
    ('k goerr + ('w, 'k) proto_app \<times> ('c, 'w) proto_server) option" where
  "proto_explicit_build wr pe routes_on cfg =
     (let pc = pf_preset cfg in
      case proto_new (pp_log pc) of
        Inl e \<Rightarrow> Some (Inl e)
      | Inr app \<Rightarrow>
     (case proto_db_new (wr_sql_open wr) (pp_db pc) True of
        Inl e \<Rightarrow> Some (Inl e)
      | Inr (pool, database) \<Rightarrow>
     (case proto_trace_new (pf_trace cfg) of
        Some e \<Rightarrow> Some (Inl e)
      | None \<Rightarrow>
     (case proto_mount_on pe proto_handle (proto_actuator_new (pp_actuator pc))
             (proto_use (proto_trace_default base_logger) (proto_web_new (pp_web pc))) of
        None \<Rightarrow> None
      | Some (act, srv) \<Rightarrow>
          (case routes_on pool srv of
             None \<Rightarrow> None
           | Some srv' \<Rightarrow>
               Some (Inr (proto_add [actuator_component wr, trace_component wr, db_part wr, web_component wr] app, srv')))))))"

section \<open>The mains\<close>

text \<open>Load, build, Run: the result of run (\<open>None\<close> is a panic before Run), which main logs and exits with.\<close>

inductive proto_main :: "('k goerr + 'cfg) \<Rightarrow> ('cfg \<Rightarrow> ('k goerr + ('w, 'k) proto_app \<times> 's) option) \<Rightarrow> ctx \<Rightarrow>
    time option \<Rightarrow> 'w world \<Rightarrow> 'k goerr option option \<Rightarrow> 'w world \<Rightarrow> bool"
  for loaded :: "'k goerr + 'cfg" and build :: "'cfg \<Rightarrow> ('k goerr + ('w, 'k) proto_app \<times> 's) option"
    and c :: ctx and sig :: "time option" and w :: "'w world" where
  proto_load_fails: "loaded = Inl e \<Longrightarrow> proto_main loaded build c sig w (Some (Some e)) w"
| proto_build_fails: "loaded = Inr cfg \<Longrightarrow> build cfg = Some (Inl e) \<Longrightarrow>
    proto_main loaded build c sig w (Some (Some e)) w"
| proto_panics: "loaded = Inr cfg \<Longrightarrow> build cfg = None \<Longrightarrow> proto_main loaded build c sig w None w"
| proto_runs: "loaded = Inr cfg \<Longrightarrow> build cfg = Some (Inr (p, s)) \<Longrightarrow> proto_run c sig p w r p' w' \<Longrightarrow>
    proto_main loaded build c sig w (Some r) w'"

text \<open>The form the argument list of cmd/full chooses.\<close>

definition proto_form :: "string list \<Rightarrow> 'b \<Rightarrow> 'b \<Rightarrow> 'b" where
  "proto_form args preset explicit = (if 1 < length args \<and> args ! 1 = ''explicit'' then explicit else preset)"

end
