(* ===== verification/Proto_App_Props.thy ===== *)
theory Proto_App_Props
  imports Proto_App Lifecycle_Props
begin

text \<open>
  The prototype of the base Starter against app.go: on a service that starts the two make the same
  calls in the same order; they differ in what follows a Start that fails and in the time a Stop
  has left.
\<close>

section \<open>What the prototype calls\<close>

definition drain_calls :: "('w, 'k) component list \<Rightarrow> event list" where
  "drain_calls xs = map (\<lambda>x. DrainCall (c_name x)) (filter (\<lambda>x. c_drain x \<noteq> None) xs)"

lemma drain_calls_simps [simp]:
  "drain_calls [] = []"
  "drain_calls (x # xs) = (if c_drain x = None then [] else [DrainCall (c_name x)]) @ drain_calls xs"
  by (simp_all add: drain_calls_def)

lemma proto_drain_trace: "trace (proto_drain_loop c xs w) = trace w @ drain_calls xs"
  by (induction c xs w rule: proto_drain_loop.induct) (auto split: option.splits)

lemma proto_stop_trace: "trace (snd (proto_stop_loop c xs err w)) = trace w @ stopped_trace xs"
proof (induction xs arbitrary: err w)
  case (Cons x xs)
  then show ?case by (auto dest!: perform_trace split: prod.splits option.splits)
qed simp

lemma proto_stop_traceD: "proto_stop_loop c xs err w = (r, w') \<Longrightarrow> trace w' = trace w @ stopped_trace xs"
  using proto_stop_trace [of c xs err w] by simp

lemma proto_shutdown_trace:
  assumes "proto_shutdown c p n err w = (r, w')"
  defines "up \<equiv> take n (sort_key c_tier (px_comps p))"
  shows "trace w' = trace w @ drain_calls up @ (if 0 < n then [DelayWait] else []) @ stopped_trace (rev up)"
  using assms(1)
  by (auto simp: proto_shutdown_def Let_def up_def proto_drain_trace dest!: proto_stop_traceD split: if_splits)

text \<open>Both start loops make the same calls on the same world.\<close>

lemma same_start:
  "start_loop c xs a w = (r, a', w') \<Longrightarrow>
   \<exists>ws'. proto_start_loop c xs (a_started a) ws w = (r, a_started a', ws', w')"
proof (induction xs arbitrary: a ws w)
  case (Cons x xs)
  show ?case
  proof (cases "perform (StartCall (c_name x)) (c_start x) c w")
    case (Pair res w1)
    show ?thesis
    proof (cases res)
      case (Inr ch)
      let ?a = "watch (c_name x) ch (a\<lparr>a_started := Suc (a_started a)\<rparr>)"
      have "start_loop c xs ?a (emit (StartedLog (c_name x) (c_tier x)) w1) = (r, a', w')"
        using Cons.prems Pair Inr by simp
      moreover have "a_started ?a = Suc (a_started a)" by (simp add: watch_def split: option.split)
      ultimately show ?thesis
        using Cons.IH [of ?a "emit (StartedLog (c_name x) (c_tier x)) w1"
            "ws @ (case ch of None \<Rightarrow> [] | Some i \<Rightarrow> [c_name x])"] Pair Inr by simp
    qed (use Cons.prems Pair in auto)
  qed
qed simp

lemma same_starts:
  assumes "app_idle a" "distinct (map c_name (a_comps a))" "px_comps p = a_comps a"
    "px_start_timeout p = start_timeout (a_life a)" "app_start c a w = Some (None, a1, w1)"
  shows "\<exists>ws v1. proto_starts c p w = (None, length (a_comps a), ws, v1) \<and> w1 = emit (ReadyStore True) v1 \<and>
    trace v1 = trace w @ started_trace (sort_key c_tier (a_comps a))"
  using assms(5,2)
proof (cases rule: app_start_cases)
  case (ok a2 w2)
  from start_loop_None [OF ok(4)] assms(1) have n: "a_started a2 = length (a_comps a)"
    "trace w2 = trace w @ started_trace (sort_key c_tier (a_comps a))"
    by (auto simp: start_frame_def app_idle_def)
  moreover have "a_started (start_frame a) = 0" using assms(1) by (simp add: start_frame_def app_idle_def)
  ultimately show ?thesis
    using same_start [OF ok(4), of "[]"] ok assms(3,4) by (auto simp: proto_starts_def)
next
  case (failed e a2 w2 a3 e2)
  then show ?thesis by (metis errors_join_pair_None option.distinct(1))
qed

section \<open>The calls of a Run\<close>

fun is_call :: "event \<Rightarrow> bool" where
  "is_call (StartCall n) \<longleftrightarrow> True"
| "is_call (DrainCall n) \<longleftrightarrow> True"
| "is_call (StopCall n) \<longleftrightarrow> True"
| "is_call _ \<longleftrightarrow> False"

abbreviation calls :: "event list \<Rightarrow> event list" where
  "calls es \<equiv> filter is_call es"

definition start_calls :: "('w, 'k) component list \<Rightarrow> event list" where
  "start_calls xs = map (\<lambda>x. StartCall (c_name x)) xs"

lemma calls_of_traces [simp]:
  "calls (started_trace xs) = start_calls xs" "calls (drained_trace xs) = drain_calls xs"
  "calls (drain_calls xs) = drain_calls xs" "calls (stopped_trace xs) = stopped_trace xs"
  by (induction xs) (auto simp: start_calls_def)

text \<open>Every Component started in order, drained in order if it is a Drainer, stopped in reverse.\<close>

definition calls_of_life :: "('w, 'k) component list \<Rightarrow> event list" where
  "calls_of_life xs = start_calls xs @ drain_calls xs @ stopped_trace (rev xs)"

lemma library_calls:
  fixes a :: "('w, 'k) app"
  assumes "app_idle a" "app_start (notify_context c sig) a w = Some (None, a1, w1)" "app_run c sig a w r a' w'"
  shows "\<exists>new. trace w' = trace w @ new \<and> calls new = calls_of_life (sort_key c_tier (a_comps a))"
proof -
  let ?ord = "sort_key c_tier (a_comps a)"
  have stopped: "\<exists>new. trace w3 = trace w @ new \<and> calls new = calls_of_life ?ord"
    if "app_start (notify_context c sig) a w = Some (None, b1, v1)" "watch_step\<^sup>*\<^sup>* b1 b2" "life_inv b2' = life_inv b2"
      "a_order b2' = a_order b2" "a_started b2' = a_started b2" "trace w2 = trace v1 @ mid" "calls mid = []"
      "app_stop cc b2' w2 = Some (err, a3, w3)" for b1 v1 b2 b2' w2 mid cc err a3 w3
  proof -
    from app_start_idle [OF assms(1) that(1)] watch_steps_frame [OF that(2)] have
      b: "life_inv b2" "a_order b2 = ?ord" "a_started b2 = length ?ord" by (auto simp: life_inv_def)
    then have "life_inv b2'" using that(3) by simp
    from app_stop_spec [OF this, of cc w2] that(8) have "trace w3 = trace w2 @ stop_trace b2'" by auto
    moreover have "calls (stop_trace b2') = drain_calls ?ord @ stopped_trace (rev ?ord)"
      using b that(4,5) by (simp add: stop_trace_def)
    ultimately show ?thesis
      using started_in_order [OF assms(1) that(1)] that(6,7) by (auto simp: calls_of_life_def)
  qed
  from assms(3) show ?thesis
  proof cases
    case (run_signal b1 v1 b2 t e err)
    show ?thesis by (rule stopped [OF run_signal(2,3) refl refl refl _ _ run_signal(6)]) auto
  next
    case (run_death b1 v1 b2 t d e err)
    show ?thesis by (rule stopped [OF run_death(2,3) _ _ _ _ _ run_death(6)]) (auto simp: life_inv_def)
  qed (use assms(2) in simp)
qed

lemma prototype_calls:
  assumes "proto_starts (notify_context c sig) p w = (None, length (px_comps p), ws, v1)"
    "trace v1 = trace w @ started_trace (sort_key c_tier (px_comps p))" "proto_run c sig p w r p' w'"
  shows "\<exists>new. trace w' = trace w @ new \<and> calls new = calls_of_life (sort_key c_tier (px_comps p))"
  using assms(3)
  by cases (use assms(1,2) in \<open>auto simp: calls_of_life_def dest!: proto_shutdown_trace\<close>)

text \<open>
  C40: The App of the library and the prototype it replaced are one service to their Components:
  where Start succeeds, every Run of the one and every Run of the other, whether a signal or a death ends
  it, make the same calls of Start, Drain and Stop in the same order.
\<close>

theorem prototype_makes_the_same_calls:
  assumes "app_idle a" "px_comps p = a_comps a" "px_start_timeout p = start_timeout (a_life a)"
    and "app_start (notify_context c sig) a w = Some (None, a1, w1)"
    and "app_run c sig a w r a' w'" "proto_run c sig p w r' p' v'"
  shows "\<exists>new new'. trace w' = trace w @ new \<and> trace v' = trace w @ new' \<and> calls new = calls new' \<and>
    calls new = calls_of_life (sort_key c_tier (a_comps a))"
proof -
  have d: "distinct (map c_name (a_comps a))"
    using assms(4) by (auto simp: app_start_def reject_None [symmetric] split: option.splits)
  from same_starts [OF assms(1) d assms(2-4)] obtain ws v1 where
    "proto_starts (notify_context c sig) p w = (None, length (px_comps p), ws, v1)"
    "trace v1 = trace w @ started_trace (sort_key c_tier (px_comps p))" using assms(2) by auto
  from prototype_calls [OF this assms(6)] library_calls [OF assms(1,4,5)] assms(2) show ?thesis by auto
qed

section \<open>Where they differ\<close>

lemma same_failed_start:
  assumes "app_idle a" "distinct (map c_name (a_comps a))" "px_comps p = a_comps a"
    "px_start_timeout p = start_timeout (a_life a)" "app_start c a w = Some (Some e, a1, w1)"
  shows "\<exists>k er ws v1. k < length (a_comps a) \<and> proto_starts c p w = (Some er, k, ws, v1) \<and>
    trace v1 = trace w @ started_trace (take k (sort_key c_tier (a_comps a))) @
      [StartCall (c_name (sort_key c_tier (a_comps a) ! k))]"
  using assms(5,2)
proof (cases rule: app_start_cases)
  case (failed er a2 w2 a3 e2)
  have z: "a_started (start_frame a) = 0" using assms(1) by (simp add: start_frame_def app_idle_def)
  from start_loop_Some [OF failed(1)] z obtain k where "k < length (a_comps a)" "a_started a2 = k"
    "trace w2 = trace w @ started_trace (take k (sort_key c_tier (a_comps a))) @
      [StartCall (c_name (sort_key c_tier (a_comps a) ! k))]" by auto
  with same_start [OF failed(1), of "[]"] z assms(3,4) show ?thesis by (auto simp: proto_starts_def)
qed auto

text \<open>
  After a Start that fails, the library stops what runs at once; the prototype drained it and slept
  the drain delay before it stopped it, as if a load balancer had been sending to it.
\<close>

theorem prototype_drains_after_a_failed_start:
  assumes "app_idle a" "distinct (map c_name (a_comps a))" "px_comps p = a_comps a"
    "px_start_timeout p = start_timeout (a_life a)"
    and "app_start (notify_context c sig) a w = Some (Some e, a1, w1)" "proto_run c sig p w r p' v'"
  shows "\<exists>k new new'. trace w1 = trace w @ new \<and> DelayWait \<notin> set new \<and> (\<forall>n. DrainCall n \<notin> set new) \<and>
    trace v' = trace w @ started_trace (take k (sort_key c_tier (a_comps a))) @
      [StartCall (c_name (sort_key c_tier (a_comps a) ! k))] @ new' \<and>
    new' = drain_calls (take k (sort_key c_tier (a_comps a))) @ (if 0 < k then [DelayWait] else []) @
      stopped_trace (rev (take k (sort_key c_tier (a_comps a))))"
proof -
  have none: "DelayWait \<notin> set (started_trace xs)" "DrainCall n \<notin> set (started_trace xs)"
    "DelayWait \<notin> set (stopped_trace xs)" "DrainCall n \<notin> set (stopped_trace xs)" for n and xs :: "('w, 'k) component list"
    by (induction xs) auto
  from failed_start_unwinds_lemma [OF assms(1,2,5)] none have
    "\<exists>new. trace w1 = trace w @ new \<and> DelayWait \<notin> set new \<and> (\<forall>n. DrainCall n \<notin> set new)"
    by (fastforce simp: Let_def)
  moreover from same_failed_start [OF assms(1-5)] obtain k er ws v1 where
    k: "proto_starts (notify_context c sig) p w = (Some er, k, ws, v1)"
    "trace v1 = trace w @ started_trace (take k (sort_key c_tier (a_comps a))) @
      [StartCall (c_name (sort_key c_tier (a_comps a) ! k))]" by blast
  from assms(6) have "trace v' = trace v1 @ drain_calls (take k (sort_key c_tier (a_comps a))) @
      (if 0 < k then [DelayWait] else []) @ stopped_trace (rev (take k (sort_key c_tier (a_comps a))))"
    using k assms(3) by cases (auto dest!: proto_shutdown_trace)
  ultimately show ?thesis using k(2) by auto
qed

text \<open>
  A Component whose Stop takes \<open>s\<close> and gives up when its context ends first. The library's context of
  Stop begins after the drain delay; the prototype's began before it, so what the delay took was
  missing: with the defaults (5s of delay, 10s of timeout) a Stop of 6s failed.
\<close>

definition slow_stop :: "duration \<Rightarrow> ('w, 'k goerr option) call" where
  "slow_stop s c t w = (if ctx_done (t + s) c then (Some (ErrText ''deadline exceeded''), t + s, w) else (None, t + s, w))"

lemma errors_join_Some: "\<exists>y. errors_join [a, Some e] = Some y"
  by (metis errors_join_pair_None not_None_eq)

theorem the_delay_is_not_taken_from_the_stop_timeout:
  fixes a :: "('w, 'k) app" and p :: "('w, 'k) proto_app"
  assumes "c_stop x = slow_stop s" "c_drain x = None" "0 \<le> s"
    and "px_comps p = [x]" "a_order a = [x]" "a_started a = 1" "life_inv a"
    and "app_stop (without_cancel c) a w = Some (r, a', w')" "proto_shutdown c p 1 None w = (r', v')"
  shows "(r = None \<longleftrightarrow> s < stop_timeout (a_life a)) \<and> (r' = None \<longleftrightarrow> px_drain_delay p + s < px_shutdown_timeout p)"
proof
  from begin_shutdown_ok [OF assms(7)] obtain a1 where a1: "begin_shutdown a = Some a1"
    "a_order a1 = [x]" "a_started a1 = 1" "a_life a1 = a_life a" using assms(5,6) by auto
  have late: "without_cancel (without_cancel c) = without_cancel c" by (simp add: without_cancel_def)
  show "r = None \<longleftrightarrow> s < stop_timeout (a_life a)"
    using assms(1,2,8) a1
    by (auto simp: app_stop_def app_drain_def stop_started_def perform_def slow_stop_def ctx_done_def late
        done_at_with_timeout errors_join_Some split: if_splits)
  show "r' = None \<longleftrightarrow> px_drain_delay p + s < px_shutdown_timeout p"
    using assms(1,2,4,9)
    by (auto simp: proto_shutdown_def Let_def perform_def slow_stop_def ctx_done_def done_at_with_timeout
        emit_def errors_join_Some split: if_splits)
qed

section \<open>Concrete services\<close>

definition ex_proto :: "(unit, unit) component list \<Rightarrow> (unit, unit) proto_app" where
  "ex_proto cs = \<lparr>px_level = 0, px_json = False, px_start_timeout = 30, px_drain_delay = 5,
     px_shutdown_timeout = 10, px_comps = cs, px_ready = False\<rparr>"

lemma ex_proto_simps [simp]:
  "px_comps (ex_proto cs) = cs" "px_start_timeout (ex_proto cs) = 30"
  "px_drain_delay (ex_proto cs) = 5" "px_shutdown_timeout (ex_proto cs) = 10"
  by (simp_all add: ex_proto_def)

theorem the_delay_is_not_taken_from_the_stop_timeout_witness:
  "\<exists>a :: (unit, unit) app. \<exists>r a' w' r' v'. app_stop (without_cancel ex_ctx) a ex_world = Some (r, a', w') \<and>
     proto_shutdown ex_ctx (ex_proto (a_order a)) 1 None ex_world = (r', v') \<and> r = None \<and> r' \<noteq> None"
proof -
  define x where "x = (ex_component ''web'' 2)\<lparr>c_drain := None, c_stop := slow_stop 6\<rparr>"
  define a where "a = (ex_app [x])\<lparr>a_order := [x], a_started := 1\<rparr>"
  have inv: "life_inv a" by (simp add: a_def life_inv_def ex_app_def)
  obtain r a' w' where s: "app_stop (without_cancel ex_ctx) a ex_world = Some (r, a', w')"
    using app_stop_spec [OF inv] by blast
  obtain r' v' where p: "proto_shutdown ex_ctx (ex_proto (a_order a)) 1 None ex_world = (r', v')"
    by (metis surj_pair)
  have "c_stop x = slow_stop 6" "c_drain x = None" "0 \<le> (6 :: int)" "px_comps (ex_proto (a_order a)) = [x]"
    "a_order a = [x]" "a_started a = 1"
    by (simp_all add: x_def a_def)
  from the_delay_is_not_taken_from_the_stop_timeout [OF this inv s p] have "r = None" "r' \<noteq> None"
    by (simp_all add: a_def ex_app_def)
  with s p show ?thesis by blast
qed

lemma ex_proto_runs:
  "\<exists>r p' v'. proto_run ex_ctx None (ex_proto [ex_dying ''web'' 2]) ex_world r p' v'"
proof -
  let ?p = "ex_proto [ex_dying ''web'' 2]"
  have nc: "notify_context ex_ctx None = ex_ctx" by (simp add: notify_context_def)
  have "\<exists>v. proto_starts ex_ctx ?p ex_world = (None, 1, [''web''], v) \<and> clock v = 0"
    by (simp add: proto_starts_def ex_dying_def ex_component_def perform_def ex_world_def)
  then obtain v where v: "proto_starts ex_ctx ?p ex_world = (None, 1, [''web''], v)" "clock v = 0" by blast
  let ?d = "ErrWrap ''web died: '' (ErrText ''eof'')"
  have "proto_watch ([''web''], []) ([], [?d])" using proto_dies [of "[]" "''web''" "[]" "[]"] by simp
  then have "proto_watch\<^sup>*\<^sup>* ([''web''], []) ([], ?d # [])" by (rule r_into_rtranclp)
  from proto_death [of ex_ctx None ?p ex_world 1 "[''web'']" v 9 "[]" ?d "[]" "()", unfolded nc, OF v(1) _ this] v(2)
  show ?thesis by (metis surj_pair zero_le_numeral)
qed

theorem prototype_makes_the_same_calls_witness:
  "\<exists>r a' w' r' p' v'. app_run ex_ctx None (ex_app [ex_dying ''web'' 2]) ex_world r a' w' \<and>
     proto_run ex_ctx None (ex_proto [ex_dying ''web'' 2]) ex_world r' p' v' \<and>
     (\<exists>new new'. trace w' = trace ex_world @ new \<and> trace v' = trace ex_world @ new' \<and> calls new = calls new')"
proof -
  let ?a = "ex_app [ex_dying ''web'' 2]"
  obtain r a' w' where lib: "app_run ex_ctx None ?a ex_world r a' w'" and idle: "app_idle ?a"
    using ex_run_by_death by blast
  obtain r' p' v' where proto: "proto_run ex_ctx None (ex_proto [ex_dying ''web'' 2]) ex_world r' p' v'"
    using ex_proto_runs by blast
  obtain a1 w1 where "app_start (notify_context ex_ctx None) ?a ex_world = Some (None, a1, w1)"
    by (simp add: notify_context_def life_defs ex_defs ex_dying_def)
  from prototype_makes_the_same_calls [OF idle _ _ this lib proto] lib proto show ?thesis
    by (fastforce simp: ex_app_def)
qed

theorem prototype_drains_after_a_failed_start_witness:
  "\<exists>e a1 w1 r p' v'. app_start ex_ctx (ex_app [ex_component ''db'' 1, ex_failing ''web'' 2]) ex_world = Some (Some e, a1, w1) \<and>
     proto_run ex_ctx None (ex_proto [ex_component ''db'' 1, ex_failing ''web'' 2]) ex_world r p' v' \<and>
     (\<exists>new. trace w1 = trace ex_world @ new \<and> DelayWait \<notin> set new) \<and> DelayWait \<in> set (trace v')"
proof -
  let ?cs = "[ex_component ''db'' 1, ex_failing ''web'' 2]"
  have nc: "notify_context ex_ctx None = ex_ctx" by (simp add: notify_context_def)
  have idle: "app_idle (ex_app ?cs)" by (simp add: app_idle_def life_inv_def ex_app_def)
  have start: "\<exists>e a1 w1. app_start ex_ctx (ex_app ?cs) ex_world = Some (Some e, a1, w1)"
    by (simp add: life_defs ex_defs errors_join_def)
  then obtain e a1 w1 where s: "app_start ex_ctx (ex_app ?cs) ex_world = Some (Some e, a1, w1)" by blast
  have "\<exists>er v. proto_starts ex_ctx (ex_proto ?cs) ex_world = (Some er, 1, [], v)"
    by (simp add: proto_starts_def ex_component_def ex_failing_def perform_def)
  then obtain er v where v: "proto_starts ex_ctx (ex_proto ?cs) ex_world = (Some er, 1, [], v)" by blast
  obtain r v' where q: "proto_shutdown ex_ctx (ex_proto ?cs) 1 (Some er) v = (r, v')" by (metis surj_pair)
  have run: "proto_run ex_ctx None (ex_proto ?cs) ex_world r (ex_proto ?cs) v'"
    using proto_start_fails [of ex_ctx None "ex_proto ?cs" ex_world er 1 "[]" v r v'] v q nc by simp
  have "DelayWait \<in> set (trace v')" using proto_shutdown_trace [OF q] by simp
  moreover have "distinct (map c_name (a_comps (ex_app ?cs)))" "px_comps (ex_proto ?cs) = a_comps (ex_app ?cs)"
    "px_start_timeout (ex_proto ?cs) = start_timeout (a_life (ex_app ?cs))"
    by (simp_all add: ex_app_def ex_component_def ex_failing_def)
  moreover have "app_start (notify_context ex_ctx None) (ex_app ?cs) ex_world = Some (Some e, a1, w1)" using s nc by simp
  from prototype_drains_after_a_failed_start [OF idle calculation(2-4) this run] obtain new where
    "trace w1 = trace ex_world @ new" "DelayWait \<notin> set new" by (elim exE conjE)
  ultimately show ?thesis using s run by blast
qed

end
