(* ===== verification/Proto_Props.thy ===== *)
theory Proto_Props
  imports Proto_Main Proto_App_Props Preset_Props Grpc_Props Examples_Props
begin

text \<open>
  The prototypes against the packages that replaced them: where the two are equivalent, and what
  the replacement made right.
\<close>

interpretation proto_server: mount_target proto_handle "\<lambda>s. map fst (pw_mux s)"
  by unfold_locales (auto simp: proto_handle_def mux_handle_def image_iff)

section \<open>Equivalences\<close>

lemma proto_probe_paths: "proto_is_probe = is_probe_path"
proof (rule ext)
  fix p
  have "length ''/actuator/'' = 10" by simp
  then have "10 \<le> length p \<and> take 10 p = ''/actuator/'' \<longleftrightarrow> has_prefix p ''/actuator/''"
    unfolding has_prefix_def by (metis length_take min.cobounded1)
  then show "proto_is_probe p = is_probe_path p" by (simp add: proto_is_probe_def is_probe_path_def)
qed

text \<open>The two forms of the prototype's cmd/full are one service, copied out or not.\<close>

theorem prototype_forms_are_one:
  "proto_full_build wr pe routes_on cfg = proto_explicit_build wr pe routes_on cfg"
  by (auto simp: proto_full_build_def proto_explicit_build_def proto_traced_full_def proto_trace_new_def Let_def
      split: sum.splits option.splits)

text \<open>Both \<open>/readyz\<close> handlers run the Checks in the same way.\<close>

lemma same_checks:
  assumes "cn_clock c = cn_clock c'" "cn_env c = cn_env c'"
  shows "fst (snd (proto_run_checks txt x cs st code out c')) = fst (snd (run_checks txt x cs st' code out' c))"
  using assms
proof (induction cs arbitrary: st st' code out out' c c')
  case (Cons e cs)
  obtain name check where e: "e = (name, check)" by force
  obtain res t v where "check x (cn_clock c) (cn_env c) = (res, t, v)" by (metis prod_cases3)
  with Cons.prems e show ?case
    by (cases res) (auto intro!: Cons.IH simp: log_line_def Let_def)
qed simp

lemma refused_stays: "fst (snd (proto_run_checks txt x cs st 503 out c)) = 503"
proof (induction cs arbitrary: st out c)
  case (Cons e cs)
  obtain name check where e: "e = (name, check)" by force
  obtain res t v where "check x (cn_clock c) (cn_env c) = (res, t, v)" by (metis prod_cases3)
  with e Cons.IH show ?case by (cases res) auto
qed simp

text \<open>The status code a handler answers with on a connection nothing was written to.\<close>

definition fresh_conn :: "'w conn \<Rightarrow> bool" where
  "fresh_conn c \<longleftrightarrow> (\<exists>w. cn_w c = Wire w \<and> \<not> wi_wrote w)"

lemma reply_status:
  assumes "cn_w c = Wire w" "\<not> wi_wrote w" "code = 200 \<or> code = 503"
  shows "\<exists>c'. reply code doc r c = (None, r, c') \<and> wi_status (rw_wire (cn_w c')) = code"
    "\<exists>c'. proto_reply code doc r c = (None, r, c') \<and> wi_status (rw_wire (cn_w c')) = code"
  using assms
  by (auto simp: reply_def proto_reply_def write_json_def respond_def wire_write_header_def valid_status_def
      informational_def wire_write_def Let_def)

lemma run_checks_writer: "cn_w (snd (snd (snd (run_checks txt x cs st code out c)))) = cn_w c"
proof (induction cs arbitrary: st code out c)
  case (Cons e cs)
  obtain name check where e: "e = (name, check)" by force
  obtain res t v where "check x (cn_clock c) (cn_env c) = (res, t, v)" by (metis prod_cases3)
  with e Cons.IH show ?case by (cases res) (auto simp: log_line_def Let_def)
qed simp

lemma proto_run_checks_writer: "cn_w (snd (snd (snd (proto_run_checks txt x cs st code out c)))) = cn_w c"
proof (induction cs arbitrary: st code out c)
  case (Cons e cs)
  obtain name check where e: "e = (name, check)" by force
  obtain res t v where "check x (cn_clock c) (cn_env c) = (res, t, v)" by (metis prod_cases3)
  with e Cons.IH show ?case by (cases res) auto
qed simp

text \<open>
  Both answer 200 in the same cases; but the prototype ran the Checks of a service that was not
  ready, and told anybody what they said.
\<close>

theorem both_readyz_agree_on_the_status:
  assumes "cn_w c = Wire w" "\<not> wi_wrote w"
  shows "\<exists>c1 c2. readyz txt view r c = (None, r, c1) \<and> proto_readyz txt view r c = (None, r, c2) \<and>
    wi_status (rw_wire (cn_w c1)) = wi_status (rw_wire (cn_w c2))"
proof -
  let ?v = "view (cn_env c)"
  obtain st code out d where p: "proto_run_checks txt (rq_ctx r) (pv_checks ?v)
      (if \<not> pv_ready ?v \<or> pv_draining ?v then ''OUT_OF_SERVICE'' else ''UP'')
      (if \<not> pv_ready ?v \<or> pv_draining ?v then 503 else 200) [] c = (st, code, out, d)" by (metis prod_cases4)
  obtain st' code' out' d' where l: "run_checks txt (rq_ctx r) (pv_checks ?v) ''UP'' 200 [] c = (st', code', out', d')"
    by (metis prod_cases4)
  have two: "code = 200 \<or> code = 503" if "proto_run_checks txt x cs s k o' c' = (st, code, out, d)" "k = 200 \<or> k = 503"
    for x cs s o' c' and k :: int
    using that
    by (induction cs arbitrary: s k o' c') (auto split: prod.splits option.splits)
  show ?thesis
  proof (cases "pv_ready ?v \<and> \<not> pv_draining ?v")
    case True
    with p have p': "proto_run_checks txt (rq_ctx r) (pv_checks ?v) ''UP'' 200 [] c = (st, code, out, d)" by simp
    with l same_checks [of c c "txt" "rq_ctx r" "pv_checks ?v" "''UP''" 200 "[]" "''UP''" "[]"] have "code' = code" by simp
    have ws: "cn_w d' = Wire w" "cn_w d = Wire w"
      using run_checks_writer [of "txt" "rq_ctx r" "pv_checks ?v" "''UP''" 200 "[]" c]
        proto_run_checks_writer [of "txt" "rq_ctx r" "pv_checks ?v" "''UP''" 200 "[]" c] l p' assms(1) by simp_all
    have code: "code = 200 \<or> code = 503" by (rule two [OF p']) simp
    obtain c1 where "reply code (health_json st' (if pv_show ?v \<noteq> ''always'' then [] else out')) r d' = (None, r, c1)"
      "wi_status (rw_wire (cn_w c1)) = code" using reply_status(1) [OF ws(1) assms(2) code] by blast
    moreover obtain c2 where "proto_reply code (JObject [(''checks'', json_map out), (''status'', JString st)]) r d = (None, r, c2)"
      "wi_status (rw_wire (cn_w c2)) = code" using reply_status(2) [OF ws(2) assms(2) code] by blast
    ultimately show ?thesis using True l p' \<open>code' = code\<close>
      by (intro exI [of _ c1] exI [of _ c2]) (simp add: readyz_def proto_readyz_def Let_def)
  next
    case False
    with p have p': "proto_run_checks txt (rq_ctx r) (pv_checks ?v) ''OUT_OF_SERVICE'' 503 [] c = (st, code, out, d)" by auto
    have code: "code = 503" using refused_stays [of "txt" "rq_ctx r" "pv_checks ?v" "''OUT_OF_SERVICE''" "[]" c] p' by simp
    have w: "cn_w d = Wire w"
      using proto_run_checks_writer [of "txt" "rq_ctx r" "pv_checks ?v" "''OUT_OF_SERVICE''" 503 "[]" c] p' assms(1) by simp
    have or: "(503 :: int) = 200 \<or> (503 :: int) = 503" by simp
    obtain c1 where "reply 503 (health_json ''DOWN'' []) r c = (None, r, c1)" "wi_status (rw_wire (cn_w c1)) = 503"
      using reply_status(1) [OF assms or] by blast
    moreover obtain c2 where "proto_reply 503 (JObject [(''checks'', json_map out), (''status'', JString st)]) r d = (None, r, c2)"
      "wi_status (rw_wire (cn_w c2)) = 503" using reply_status(2) [OF w assms(2) or] by blast
    ultimately show ?thesis using False p' code
      by (intro exI [of _ c1] exI [of _ c2]) (auto simp: readyz_def proto_readyz_def Let_def)
  qed
qed

section \<open>What the replacement made right\<close>

text \<open>A handler that writes an answer and then panics.\<close>

definition answers_then_panics :: "string \<Rightarrow> panic \<Rightarrow> ('c, 'w) handler" where
  "answers_then_panics b v r c = (Some v, r, c\<lparr>cn_w := snd (rw_write b (cn_w c))\<rparr>)"

text \<open>
  Recovery leaves an answer that was begun as it is and lets an abort through; the prototype's
  appended its 500 document to the answer, and swallowed the abort.
\<close>

theorem prototype_recovery_spoils_an_answer:
  assumes "cn_w c = Wire new_wire"
  shows "\<exists>c1 c2. recovery lg (answers_then_panics b (PanicValue s)) r c = (None, r, c1) \<and>
      wi_body (rw_wire (cn_w c1)) = b \<and>
      proto_recovery lg (answers_then_panics b v) r c = (None, r, c2) \<and>
      wi_body (rw_wire (cn_w c2)) = b @ json_encode (JObject
        [(''detail'', JString ''internal error''), (''status'', JInt 500), (''title'', JString (status_text 500))])"
    "\<exists>c3. recovery lg (answers_then_panics b AbortHandler) r c = (Some AbortHandler, r, c3)"
  using assms
  by (auto simp: recovery_def proto_recovery_def answers_then_panics_def recover_handler_def new_wire_def
      new_recorder_def wire_write_def wire_write_header_def valid_status_def informational_def body_allowed_def
      proto_write_problem_def respond_def log_line_def Let_def)

text \<open>
  A Start that is tried again wraps the mux once more in the library; the prototype wrapped what the
  first Start had wrapped, so every middleware ran twice.
\<close>

theorem second_start_wraps_once:
  assumes "web_start pick listen s = (r1, s1)" "web_start pick listen s1 = (r2, s2)"
    and "proto_web_start listen p = (q1, p1)" "proto_web_start listen p1 = (q2, p2)"
  shows "sv_handler s2 = sv_handler s1 \<and> pw_layers p2 = pw_mw p @ pw_mw p @ pw_layers p"
proof
  have "web_wrap pick s1 = web_wrap pick s" if "s1 = s\<lparr>sv_handler := h\<rparr> \<or> (\<exists>a. s1 = s\<lparr>sv_handler := h, sv_ln := a\<rparr>)" for h
    using that by (auto simp: web_wrap_def)
  then have "web_wrap pick s1 = web_wrap pick s"
    using assms(1) by (auto simp: web_start_def Let_def split: sum.splits)
  then show "sv_handler s2 = sv_handler s1"
    using assms(1,2) by (auto simp: web_start_def Let_def split: sum.splits)
  show "pw_layers p2 = pw_mw p @ pw_mw p @ pw_layers p"
    using assms(3,4) by (auto simp: proto_web_start_def Let_def split: sum.splits)
qed

text \<open>An endpoint named twice is mounted once; the prototype's main panicked.\<close>

lemma proto_route_twice:
  assumes "n \<in> {''metrics'', ''loglevel'', ''info''}" "ns = xs @ n # ys @ n # zs"
  shows "\<not> distinct (map fst (concat (map (proto_route pe) ns)))"
proof -
  have "proto_route pe n \<noteq> []" using assms(1) by (auto simp: proto_route_def)
  then obtain e where "e \<in> set (proto_route pe n)" by (cases "proto_route pe n") auto
  then show ?thesis by (auto simp: assms(2) map_concat)
qed

theorem endpoint_named_twice:
  assumes "actuator_new cfg = Inr a" "all_patterns \<inter> fst ` set (sv_mux s) = {}"
    and "n \<in> {''metrics'', ''loglevel'', ''info''}" "ac_expose cfg = xs @ n # ys @ n # zs" "ac_addr cfg = []"
  shows "mount_on ae web_handle a s \<noteq> None \<and> proto_mount_on pe proto_handle (proto_actuator_new cfg) ps = None"
proof
  have fresh: "k \<in> set endpoint_names \<Longrightarrow> set (endpoint_patterns k) \<inter> set (map fst (sv_mux s)) = {}" for k
    using assms(2) by (auto simp: all_patterns_def)
  from web_server.routes_mount [of "ac_expose (at_cfg a)" "[]" s ae] actuator_new_expose [OF assms(1)] fresh
  show "mount_on ae web_handle a s \<noteq> None" using assms(5) by (auto simp: mount_on_def routes_def)
  have "pc_expose (proto_actuator_new cfg) = ac_expose cfg" using assms(4) by (simp add: proto_actuator_new_def)
  then have "\<not> distinct (map fst (concat (map (proto_route pe) (pc_expose (proto_actuator_new cfg)))))"
    using proto_route_twice [OF assms(3,4), of pe] by metis
  then have "\<not> distinct (map fst ([(''GET /livez'', proto_livez), (''GET /readyz'', proto_readyz (pe_text pe) (pe_view pe))] @
      concat (map (proto_route pe) (pc_expose (proto_actuator_new cfg)))))"
    unfolding map_append distinct_append by blast
  then have "proto_routes pe proto_handle (proto_actuator_new cfg) ps = None"
    unfolding proto_routes_def by (intro proto_server.handle_all_taken) blast
  then show "proto_mount_on pe proto_handle (proto_actuator_new cfg) ps = None"
    using assms(5) by (simp add: proto_mount_on_def proto_actuator_new_def)
qed

text \<open>A function that panics has its transaction rolled back; the prototype left it open.\<close>

theorem panic_no_longer_leaves_a_transaction_open:
  assumes "begin_tx (tw_env w) = (Inr t, e1)"
    and "fn t (w\<lparr>tw_env := e1, tw_events := tw_events w @ [TxBegin]\<rparr>) = (TxPanicked p, w2)"
  shows "\<exists>e2. with_tx begin_tx commit rollback fn w = (TxPanicked p, w2\<lparr>tw_env := e2, tw_events := tw_events w2 @ [TxRollback]\<rparr>)"
    "proto_with_tx begin_tx commit rollback fn w = (TxPanicked p, w2)"
  using assms by (auto simp: with_tx_def proto_with_tx_def tx_call_def split: prod.splits)

text \<open>
  On a unary call the two sanitisers let the same error out. On a stream the prototype had none: an error
  of the driver went out with its text.
\<close>

theorem streams_are_sanitised_too:
  assumes "lawful_recover recover_with" "inner procedure r c = (RpcEnd x (Some e), c1)"
  shows "\<exists>y z c2 c3 e'. default_unary recover_with txt lg inner procedure r c = (RpcEnd y (Some e'), c2) \<and>
      proto_unary recover_with txt lg inner procedure r c = (RpcEnd z (Some e'), c3) \<and> as_connect e' \<noteq> None"
    "\<exists>y c2 e'. default_streaming recover_with txt lg inner procedure r c = (RpcEnd y (Some e'), c2) \<and> as_connect e' \<noteq> None"
    "proto_streaming recover_with txt lg inner procedure r c = (RpcEnd x (Some e), c1)"
  using assms(2)
  by (auto simp: default_unary_def proto_unary_def default_streaming_def proto_streaming_def
      lawful_recoverD [OF assms(1)] wrap_unary_def wrap_streaming_def proto_sanitise_def clean_def split: option.splits)

section \<open>Concrete services\<close>

theorem streams_are_sanitised_too_witness:
  "\<exists>y c2 e'. default_streaming connect_recover (\<lambda>_ :: unit. ''dial: password'') base_logger
       (\<lambda>p r c. (RpcEnd None (Some (ErrExt (ForeignError ()))), c)) ''/greet'' sample_request sample_conn =
       (RpcEnd (y :: unit option) (Some e'), c2) \<and> as_connect e' \<noteq> None"
  by (rule streams_are_sanitised_too(2) [OF connect_recover_lawful]) simp

theorem endpoint_named_twice_witness:
  "\<exists>a :: (unit, unit, unit) actuator. \<exists>cfg. actuator_new cfg = (Inr a :: unit goerr + _) \<and>
     proto_mount_on pe proto_handle (proto_actuator_new cfg) (ps :: (unit, unit) proto_server) = None"
proof -
  let ?cfg = "\<lparr>ac_addr = [], ac_expose = [''info'', ''info''], ac_show_details = []\<rparr>"
  obtain a :: "(unit, unit, unit) actuator" where a: "actuator_new ?cfg = (Inr a :: unit goerr + _)"
    by (simp add: actuator_new_def endpoint_names_def)
  have "ac_expose ?cfg = [] @ ''info'' # [] @ ''info'' # []" by simp
  from endpoint_named_twice [OF a _ _ this, where s = "\<lparr>sv_app_log = True, sv_mux = [], sv_addr = [], sv_read_header_timeout = 0,
      sv_idle_timeout = 0, sv_handler = None, sv_mw = [], sv_ln = None, sv_max_body = 0, sv_cert_file = [], sv_key_file = []\<rparr>"]
  show ?thesis using a by fastforce
qed

end
