(* ===== verification/Greet_Connect.thy ===== *)
theory Greet_Connect
  imports Service Proto_Main
begin

text \<open>
  The generated code of the greeting service (internal/gen/greet/v1/greetv1connect and the
  prototype's): its procedures, the handler that NewGreetServiceHandler builds, the client and the
  implementation that implements nothing. It is the \<open>connect\<close> the service and the examples are given.
  connect-go's handler of one procedure and its client of one URL are parameters.
\<close>

definition greet_service_name :: string where
  "greet_service_name = ''greet.v1.GreetService''"

definition greet_procedure :: string where
  "greet_procedure = ''/greet.v1.GreetService/Greet''"

definition greet_stream_procedure :: string where
  "greet_stream_procedure = ''/greet.v1.GreetService/GreetStream''"

definition greet_path :: string where
  "greet_path = ''/greet.v1.GreetService/''"

definition http_not_found :: "('c, 'w) handler" where
  "http_not_found r c = (case http_error ''404 page not found'' 404 (cn_w c) of (p, w') \<Rightarrow> (p, r, c\<lparr>cn_w := w'\<rparr>))"

text \<open>
  \<open>unary\<close> and \<open>stream\<close> are connect.NewUnaryHandler and NewServerStreamHandler on a procedure and the
  method, under its options.
\<close>

definition new_greet_service_handler ::
  "(string \<Rightarrow> (string \<Rightarrow> ('c, 'w, string, 'k app_err) rpc) \<Rightarrow> ('c, 'w) handler) \<Rightarrow>
   (string \<Rightarrow> (string \<Rightarrow> (string \<Rightarrow> 'w conn \<Rightarrow> 'k app_err rpc_error option \<times> 'w conn) \<Rightarrow> ('c, 'w, string, 'k app_err) rpc) \<Rightarrow>
      ('c, 'w) handler) \<Rightarrow>
   ('c, 'w, 'k) greet_methods \<Rightarrow> string \<times> ('c, 'w) handler" where
  "new_greet_service_handler unary stream svc =
     (case svc of
        (greet_m, stream_m) \<Rightarrow>
          (let greet_h = unary greet_procedure greet_m;
               stream_h = stream greet_stream_procedure stream_m
           in (greet_path, \<lambda>r c.
                 if rq_path r = greet_procedure then greet_h r c
                 else if rq_path r = greet_stream_procedure then stream_h r c
                 else http_not_found r c)))"

text \<open>UnimplementedGreetServiceHandler.\<close>

definition code_unimplemented :: int where "code_unimplemented = 12"

definition unimplemented_greet :: "string \<Rightarrow> ('c, 'w, string, 'k) rpc" where
  "unimplemented_greet name procedure r c =
     (RpcEnd None (Some (connect_error code_unimplemented ''greet.v1.GreetService.Greet is not implemented'')), c)"

definition unimplemented_greet_stream :: "string \<Rightarrow> 'snd \<Rightarrow> ('c, 'w, string, 'k) rpc" where
  "unimplemented_greet_stream name send procedure r c =
     (RpcEnd None (Some (connect_error code_unimplemented ''greet.v1.GreetService.GreetStream is not implemented'')), c)"

section \<open>The client\<close>

text \<open>\<open>new_client\<close> is connect.NewClient on a URL; the calls are its CallUnary and CallServerStream.\<close>

record 'cl greet_client =
  gl_greet :: 'cl
  gl_greet_stream :: 'cl

definition trim_right_slashes :: "string \<Rightarrow> string" where
  "trim_right_slashes s = rev (dropWhile (\<lambda>c. c = CHR ''/'') (rev s))"

definition new_greet_service_client :: "(string \<Rightarrow> 'cl) \<Rightarrow> string \<Rightarrow> 'cl greet_client" where
  "new_greet_service_client new_client base =
     (let base = trim_right_slashes base
      in \<lparr>gl_greet = new_client (base @ greet_procedure),
          gl_greet_stream = new_client (base @ greet_stream_procedure)\<rparr>)"

definition client_greet :: "('cl \<Rightarrow> 'q \<Rightarrow> 'r) \<Rightarrow> 'cl greet_client \<Rightarrow> 'q \<Rightarrow> 'r" where
  "client_greet call_unary cl req = call_unary (gl_greet cl) req"

definition client_greet_stream :: "('cl \<Rightarrow> 'q \<Rightarrow> 'r) \<Rightarrow> 'cl greet_client \<Rightarrow> 'q \<Rightarrow> 'r" where
  "client_greet_stream call_server_stream cl req = call_server_stream (gl_greet_stream cl) req"

section \<open>The prototype's\<close>

text \<open>It has the unary procedure only.\<close>

definition proto_new_greet_handler ::
  "(string \<Rightarrow> (string \<Rightarrow> ('c, 'w, string, 'k) rpc) \<Rightarrow> ('c, 'w) handler) \<Rightarrow>
   (string \<Rightarrow> ('c, 'w, string, 'k) rpc) \<Rightarrow> string \<times> ('c, 'w) handler" where
  "proto_new_greet_handler unary greet_m =
     (let greet_h = unary greet_procedure greet_m
      in (greet_path, \<lambda>r c. if rq_path r = greet_procedure then greet_h r c else http_not_found r c))"

definition proto_new_greet_client :: "(string \<Rightarrow> 'cl) \<Rightarrow> string \<Rightarrow> 'cl" where
  "proto_new_greet_client new_client base = new_client (trim_right_slashes base @ greet_procedure)"

definition proto_unimplemented_greet :: "string \<Rightarrow> ('c, 'w, string, 'k) rpc" where
  "proto_unimplemented_greet name procedure r c =
     (RpcEnd None (Some (connect_error code_unimplemented ''greet.v1.GreetService.Greet is not implemented'')), c)"

end
