(* ===== verification/Greet_Connect_Props.thy ===== *)
theory Greet_Connect_Props
  imports Greet_Connect Service_Props
begin

text \<open>
  The generated service inside the written one: what the client calls is what the server
  dispatches, and the rest of the service's path is a 404.
\<close>

lemma procedures_differ: "greet_procedure \<noteq> greet_stream_procedure"
  by (simp add: greet_procedure_def greet_stream_procedure_def)

lemma trim_right_slashes_append: "trim_right_slashes (s @ replicate n (CHR ''/'')) = trim_right_slashes s"
proof -
  have "dropWhile (\<lambda>c. c = CHR ''/'') (replicate n (CHR ''/'') @ t) = dropWhile (\<lambda>c. c = CHR ''/'') t" for t
    by (induction n) simp_all
  then show ?thesis by (simp add: trim_right_slashes_def)
qed

lemma procedures_on_path:
  "has_prefix greet_procedure greet_path" "has_prefix greet_stream_procedure greet_path"
  "greet_path = ''/'' @ greet_service_name @ ''/''"
  by (simp_all add: has_prefix_def greet_procedure_def greet_stream_procedure_def greet_path_def greet_service_name_def)

text \<open>
  Slashes at the end of the base URL make no difference, the two URLs of a client are the base and a
  procedure below the path the handler is mounted on, and the handler gives a request for a
  procedure to that procedure's method and to no other; any other path below it is a 404.
\<close>

theorem client_and_server_agree:
  assumes "new_greet_service_handler unary stream (greet_m, stream_m) = (path, h)"
    and "base' = base @ replicate n (CHR ''/'')"
  shows "new_greet_service_client cl base' = new_greet_service_client cl base"
    "new_greet_service_client cl base =
      \<lparr>gl_greet = cl (trim_right_slashes base @ path @ ''Greet''),
       gl_greet_stream = cl (trim_right_slashes base @ path @ ''GreetStream'')\<rparr>"
    "rq_path r = path @ ''Greet'' \<Longrightarrow> h r c = unary (path @ ''Greet'') greet_m r c"
    "rq_path r = path @ ''GreetStream'' \<Longrightarrow> h r c = stream (path @ ''GreetStream'') stream_m r c"
    "rq_path r \<notin> {path @ ''Greet'', path @ ''GreetStream''} \<Longrightarrow> h r c = http_not_found r c"
proof -
  show "new_greet_service_client cl base' = new_greet_service_client cl base"
    by (simp add: new_greet_service_client_def assms(2) trim_right_slashes_append)
  have names: "greet_procedure = greet_path @ ''Greet''" "greet_stream_procedure = greet_path @ ''GreetStream''"
    by (simp_all add: greet_procedure_def greet_stream_procedure_def greet_path_def)
  show "new_greet_service_client cl base =
      \<lparr>gl_greet = cl (trim_right_slashes base @ path @ ''Greet''),
       gl_greet_stream = cl (trim_right_slashes base @ path @ ''GreetStream'')\<rparr>"
    "rq_path r = path @ ''Greet'' \<Longrightarrow> h r c = unary (path @ ''Greet'') greet_m r c"
    "rq_path r = path @ ''GreetStream'' \<Longrightarrow> h r c = stream (path @ ''GreetStream'') stream_m r c"
    "rq_path r \<notin> {path @ ''Greet'', path @ ''GreetStream''} \<Longrightarrow> h r c = http_not_found r c"
    using assms(1) by (auto simp: new_greet_service_handler_def Let_def new_greet_service_client_def names)
qed

text \<open>
  The service the command writes, with the generated constructor: addRoutes mounts the service on its
  path beside the feature's route.
\<close>

theorem generated_handler_mounts:
  assumes "''GET /hello/{name}'' \<notin> fst ` set (sv_mux srv)" "greet_path \<notin> fst ` set (sv_mux srv)"
  shows "\<exists>srv'. add_routes (new_greet_service_handler unary stream) recover_with txt path_value query fallback srv = Some srv' \<and>
    map fst (sv_mux srv') = map fst (sv_mux srv) @ [''GET /hello/{name}'', greet_path]"
  using assms
  by (auto simp: add_routes_def rest_routes_def rpc_routes_def web_handle_def mux_handle_def Let_def
      new_greet_service_handler_def greet_service_def greet_path_def)

theorem client_and_server_agree_witness:
  "new_greet_service_client (\<lambda>u. u) ''http://api/v1//'' = new_greet_service_client (\<lambda>u. u) ''http://api/v1'' \<and>
   gl_greet (new_greet_service_client (\<lambda>u. u) ''http://api/v1'') = ''http://api/v1/greet.v1.GreetService/Greet''"
proof
  have "''http://api/v1//'' = ''http://api/v1'' @ replicate 2 (CHR ''/'')" by (simp add: numeral_2_eq_2)
  from client_and_server_agree(1) [OF prod.collapse [symmetric] this] show
    "new_greet_service_client (\<lambda>u. u) ''http://api/v1//'' = new_greet_service_client (\<lambda>u. u) ''http://api/v1''" .
  show "gl_greet (new_greet_service_client (\<lambda>u. u) ''http://api/v1'') = ''http://api/v1/greet.v1.GreetService/Greet''"
    by (simp add: new_greet_service_client_def trim_right_slashes_def greet_procedure_def)
qed

end
