(* ===== verification/Spec2Isabelle.thy ===== *)
theory Spec2Isabelle
  imports Lifecycle_Props Config_Props Web_Metrics Jwks_Props Security_Props Actuator_Props
    Kafka_Props Rabbit_Props Db_Props Grpc_Props Trace_Props Preset_Props Service_Props
    Kafka_Loop_Props Scaffold_Props Secure_Props Dbtest_Props Consumers_Props
    Brokertest_Props Metrics_Registry Examples_Props Lifecycle_Contract Kafka_Refinement
    Lifecycle_Live Compare_Props Proto_Props Greet_Connect_Props
begin

text \<open>
  A verification library for go-boot, a set of Starters that a Go service is assembled from.

  \<^bold>\<open>The program.\<close> The base Starter (goboot.go, app.go) has the App, which starts Components from
  the lowest Tier to the highest, watches them for death, and drains and stops them in
  reverse; config.go reads the layered configuration. On it stand the HTTP server with its
  middleware (web), the Actuator with its endpoints (actuator), the security middleware
  (security), the Kafka and RabbitMQ consumers (kafka, rabbit), the database pool (db), the
  gRPC options (grpc) and tracing (trace). A Preset (preset) wires a fixed choice of them, and
  the goboot command (cmd/goboot) writes a new project. prototypes/ keeps the sketch it all grew from.

  \<^bold>\<open>How it is modelled.\<close> A Go string is a \<open>string\<close>, one \<open>char\<close> a byte. An error is the datatype of
  Go_Errors, and a result is an option or a sum of it; a panic is a value as well. A Component
  is a record of its methods, each of which takes and returns the state \<open>'w\<close> of the outside
  world, the clock included. An HTTP handler is a function of the request and the state of its
  connection to a panic or none, the request and the connection; the connection holds a stack
  of response writers, each of which a middleware pushes and pops as the code wraps the writer.
  What runs concurrently (the watchers of the App, the partition goroutines of a Kafka batch,
  the loop of a RabbitMQ consumer with the broker, Drain and Stop) is an inductive step
  relation whose steps may be taken in any order.

  \<^bold>\<open>The theories.\<close>
    \<^item> Go_Strings, Go_Errors, Go_Slog, Go_Json, Go_Encoding: the prelude. What the program uses
      of the standard library, with the simplification rules all the others share.
      State_Machine has the laws of step relations: \<open>kept_by_steps\<close> (an invariant),
      \<open>ending_machine\<close> (a measure), \<open>fair_action\<close> (what a fair execution leads to) and \<open>refines_contract\<close> (a simulation by an automaton over
      what the system shows). The machines of the library are interpretations of them.
    \<^item> Lifecycle, Lifecycle_Props (goboot.go, app.go): \<open>app_start\<close>, \<open>start_loop\<close>, \<open>app_drain\<close>,
      \<open>app_stop\<close>, \<open>stop_loop\<close>, \<open>watch_step\<close>, \<open>app_run\<close> are App.Start, Drain, Stop, the watcher
      goroutines and Run; \<open>app_run_in\<close> is Run in a world that moves on by itself as its first
      argument, \<open>drift\<close>, allows. The order of the calls, the unwinding of a failed Start, the
      errors a Stop joins, what Run stops, and when a Stop can panic.
    \<^item> Lifecycle_Contract: the abstract specification of the above, an automaton that keeps the
      stack of the running Components. The App refines it however it is driven (\<open>drive\<close>; a Run is
      one way, \<open>run_drives\<close>), so at every moment the Components nest by Tier.
    \<^item> Lifecycle_Live: the wait of Run as a machine that steps (\<open>run_step\<close>), equivalent to
      \<open>app_run\<close>, and that on every fair execution a death, a signal or the end of the context leads
      to a Run that has returned.
    \<^item> Config, Config_Props (config.go): \<open>load\<close> and its layers, parsers and merge. A later layer wins
      leaf by leaf, keys are canonical, and which environment entry decides.
    \<^item> Web_Http, Web, Web_Contract, Web_Props, Web_Metrics (web/, logger.go): the recorder, the
      default middleware, the JSON helpers, the Server and the metrics. \<open>http_handler\<close> is the
      contract of a handler; every middleware keeps it, so it holds of every stack. The access
      line, recovery, request IDs, the cap on bodies, and what is counted. Metrics_Registry has the
      collectors both metrics packages (web/metrics, grpc/metrics) register when they are imported.
    \<^item> Jwks, Jwks_Props (security/jwks.go): the key set with its rate-limited refresh, and a
      published key read back as it was; \<open>key_source\<close> is the contract of what it reads from.
    \<^item> Security, Security_Props (security/): headers, CORS, Authenticate and the scope guards. No
      guarded handler runs without a verified token, and no half of a configuration is accepted.
    \<^item> Actuator, Actuator_Props (actuator/): the endpoints, with \<open>mount_target\<close> for the two places
      they are mounted on. The whitelist, readiness, and the log level.
    \<^item> Kafka, Kafka_Props (kafka/): the fetch loop and the batch. What is committed, the end of a
      batch in every interleaving, and that the goroutine of a partition, a machine of small
      steps, implements the sequential loop of handlePartition.
    \<^item> Kafka_Loop, Kafka_Loop_Props (kafka/): the same loop at work, with Drain and Stop between any
      two of its steps. What was handled is committed once, and a drained loop returns.
      Kafka_Refinement: its small steps, in any interleaving, implement the sequential \<open>consume\<close>.
    \<^item> Rabbit, Rabbit_Props (rabbit/): the consume loop. Connections, settlements, deaths and what
      a Stop leaves behind, as invariants of the reachable states.
    \<^item> Consumers, Consumers_Props: the two consumers as Components of an App. The locale
      \<open>background_machine\<close> carries an invariant of a consumer's machine through a whole Run, in
      which the machine steps on its own and the other Components leave it alone; what a service
      guarantees of its records and deliveries follows for both.
    \<^item> Db, Db_Props (db/): the pool, migrations and transactions.
    \<^item> Grpc, Grpc_Props (grpc/): the sanitiser, recovery, the RPC metrics, health and reflection,
      on the same connection as the HTTP middleware. Health is equivalent to \<open>/readyz\<close>.
    \<^item> Trace, Trace_Props (trace/): the provider, the naming of spans, the log handler.
    \<^item> Preset, Preset_Props (preset/): the composition of the above; the properties here rest on
      those of the parts.
    \<^item> Scaffold, Scaffold_Props (cmd/goboot/main.go): the command line, the names and the files of
      a new project, and what the command prints and exits with.
    \<^item> Service, Service_Props (cmd/goboot/scaffold/grpc): the service the command writes, its typed
      handlers and its greeting feature through repository, service layer and both adapters.
    \<^item> Secure, Secure_Props (examples/http-secure): the service with the security stack and a guard
      round the Actuator, which is a third \<open>mount_target\<close>. It is wired as its comments promise,
      and only an operator's token changes the level of the log, end to end.
    \<^item> Dbtest, Dbtest_Props (db/dbtest): the server of a test and its clean-ups, and the lint of a
      schema, equivalent to the conventions it stands for.
    \<^item> Brokertest, Brokertest_Props (internal/brokertest): the broker a test starts in a container, the
      wait for it, and what is removed at the end of the test.
    \<^item> Examples, Examples_Props (examples/full, http-actuator-config, http-only, the HTTP-only
      template): the wiring of each service and its main. The two forms of examples/full are
      equivalent but for the metrics, and so are the two templates but for the RPC mount.
    \<^item> Compare, Compare_Props (docs/measurements): the comparison of two Kafka clients. Its report is the
      truth about the deliveries in every interleaving of its members.
    \<^item> Proto_App, Proto_Web, Proto_Parts, Proto_Main (prototypes/): the throwaway module the packages
      above replaced, on the same Components, connections and parameters, so that the two can be
      compared. Proto_App_Props and Proto_Props say where they are equivalent (the calls a Run makes, the status of
      \<open>/readyz\<close>, the two forms of cmd/full) and what the replacement made right (what follows a failed
      Start, the time a Stop has, recovery, a second Start, transactions, streams).
    \<^item> Greet_Connect, Greet_Connect_Props (internal/gen and prototypes/internal/gen, greetv1connect): the
      generated constructor, client and unimplemented service, the \<open>connect\<close> the services are given.
      What the client calls is what the handler dispatches.
    \<^item> This theory: the life of a Preset's service from its first call to its last, which rests on
      Lifecycle and Preset together.

  \<^bold>\<open>Parameters.\<close> Code outside the repository is an argument of the definitions that use it: the
  YAML decoder and mapstructure, strconv's floating-point numbers, the mux, the JSON, PEM and
  x509 decoders, golang-jwt, net/url, the HTTP client, the drivers (database/sql, goose,
  franz-go, amqp091), connect-go and OpenTelemetry. A property that needs something of one of
  them has it as a hypothesis, and a witness in which a concrete function meets it.

  \<^bold>\<open>Termination and bounds.\<close> Every function is total and structural or has a measure; no fuel is
  used. What may go on for ever in the code (Run, the fetch loop, the consume loop) is a
  relation, of which the properties say what holds of every run; that a Kafka batch ends, and a
  drained fetch loop, is proved with a measure of the steps that are left. The wait for a broker
  (\<open>await_loop\<close>) has the pauses left until its deadline as its measure, at most 240, and so has the one of the comparison (\<open>wait_for\<close>). Machine integers are written with their range where the
  code converts or compares (the RSA exponent, the cap on bodies, durations).

  \<^bold>\<open>Findings.\<close> Seven theorems show a behaviour the code does not mean: a Stop after two Starts
  panics (\<open>stop_after_second_start_panics\<close>), a panic of net/http on a bad status is answered with
  an empty 200 (\<open>bad_status_panic_becomes_an_empty_200\<close>), a later Kafka batch commits past a
  failed record (\<open>later_batch_commits_over_a_failed_record\<close>), a RabbitMQ Stop that gives up
  during a dial leaves a live consumer (\<open>stop_during_a_dial_leaves_a_live_consumer\<close>), the
  profile depends on the order of the environment (\<open>profile_depends_on_environ_order\<close>), a
  NaN sample ratio is let through (\<open>nan_ratio_is_accepted\<close>), and the generated migrate command
  fails on the default driver (\<open>migrate_does_not_know_the_default_driver\<close>).

  \<^bold>\<open>Not modelled.\<close> The generated messages of internal/gen and of prototypes/internal/gen (greet.pb.go: fields,
  getters and descriptors for the protobuf runtime); the program under
  grpc/testdata, which a test expects the compiler to refuse. A second Start of a
  Kafka or RabbitMQ Component is not part of their machines, and of their log lines only those of
  Start and Drain are (Consumers). The packages of the HTTP-only template and of examples/full that repeat
  those of the generated service share its definitions. The sleep of a handler in the comparison of
  the Kafka clients is not in its machine, which has no clock.
\<close>

section \<open>The life of a Preset's service\<close>

text \<open>
  C16: From the first call to the last, whatever the database, the listener and the added
  Components do: a service a Preset wired starts its Actuator, its database and its server in
  this order and then what was added, turns ready, and later stops answering as ready before
  the Actuator drains first, waits, and stops everything in exactly the reverse order.
\<close>

theorem preset_service_lives_in_order:
  fixes wr :: "('c, 'w, 'k) wiring"
  assumes "preset_full wr cfg migrations = Some (Inr p)"
    and "\<And>x. x \<in> set extra \<Longrightarrow> c_tier x = tier_transport"
    and "app_start c (app_add extra (pa_app p)) w = Some (None, a1, w1)"
    and "watch_step\<^sup>*\<^sup>* a1 a2" "trace w2 = trace w1"
    and "app_stop c' a2 w2 = Some (r, a3, w3)"
  shows "trace w3 = trace w @
    [StartCall ''actuator'', StartedLog ''actuator'' 0, StartCall ''db'', StartedLog ''db'' 1,
     StartCall ''web'', StartedLog ''web'' 2] @ started_trace extra @
    [ReadyStore True, ReadyStore False, CloseWatchers, DrainCall ''actuator'', DrainedLog ''actuator''] @
    drained_trace extra @ [DelayWait] @ stopped_trace (rev extra) @
    [StopCall ''web'', StopCall ''db'', StopCall ''actuator'']"
proof -
  let ?a = "app_add extra (pa_app p)"
  let ?order = "[actuator_component wr, db_part wr, web_component wr] @ extra"
  from preset_app_idle [OF assms(1)] have idle: "app_idle ?a" and comps: "a_comps ?a = ?order"
    by (auto simp: app_idle_def app_add_def life_inv_def)
  have "map c_tier extra = replicate (length extra) tier_transport"
    using assms(2) by (simp add: map_replicate_const [symmetric] cong: map_cong)
  then have "sorted (map c_tier ?order)"
    by (simp add: preset_parts tier_transport_def)
  then have order: "sort_key c_tier (a_comps ?a) = ?order"
    unfolding comps by (rule sort_key_id_if_sorted)
  from app_start_idle [OF idle assms(3)] order comps have a1: "life_inv a1" "a_order a1 = ?order"
    "a_started a1 = length ?order" by auto
  have w1: "trace w1 = trace w @ started_trace ?order @ [ReadyStore True]" and open1: "a_stop_open a1"
    using started_in_order [OF idle assms(3)] order by auto
  from watch_steps_frame [OF assms(4)] a1 open1 have a2: "life_inv a2" "a_order a2 = ?order"
    "a_started a2 = length ?order" "a_stop_open a2"
    by (auto simp: life_inv_def)
  from app_stop_spec [OF a2(1), of c' w2] assms(6) have "trace w3 = trace w2 @ stop_trace a2" by auto
  with assms(5) w1 a2 show ?thesis
    by (simp add: stop_trace_def preset_parts drained_trace_def started_trace_def stopped_trace_def)
qed

theorem preset_service_lives_in_order_witness:
  "\<exists>(p :: (unit, unit, unit) preset_app) a1 w1 r a3 w3. preset_full sample_wiring sample_preset True = Some (Inr p) \<and>
     app_start ex_ctx (app_add [ex_component ''kafka:orders'' 2] (pa_app p)) ex_world = Some (None, a1, w1) \<and>
     app_stop ex_ctx a1 w1 = Some (r, a3, w3) \<and>
     take 1 (trace w3) = [StartCall ''actuator''] \<and>
     drop 16 (trace w3) = [StopCall ''kafka:orders'', StopCall ''web'', StopCall ''db'', StopCall ''actuator'']"
proof -
  obtain p :: "(unit, unit, unit) preset_app" where p: "preset_full sample_wiring sample_preset True = Some (Inr p)"
    using sample_preset_full by blast
  let ?extra = "[ex_component ''kafka:orders'' 2]"
  let ?a = "app_add ?extra (pa_app p)"
  from preset_app_idle [OF p] have idle: "app_idle ?a"
    and comps: "a_comps ?a = [actuator_component sample_wiring, db_part sample_wiring, web_component sample_wiring] @ ?extra"
    by (auto simp: app_idle_def app_add_def life_inv_def)
  have "\<exists>a1 w1. app_start ex_ctx a ex_world = Some (None, a1, w1)"
    if "a_comps a = [actuator_component sample_wiring, db_part sample_wiring, web_component sample_wiring] @ ?extra"
    for a :: "(unit, unit) app"
    using that
    by (simp add: app_start_def reject_duplicate_names_def preset_parts ex_component_def sample_wiring_def
        perform_def watch_def Let_def)
  from this [OF comps] obtain a1 w1 where start: "app_start ex_ctx ?a ex_world = Some (None, a1, w1)" by blast
  obtain r a3 w3 where stop: "app_stop ex_ctx a1 w1 = Some (r, a3, w3)"
    using app_stop_spec [OF conjunct1 [OF app_start_idle [OF idle start]]] by blast
  have "c_tier x = tier_transport" if "x \<in> set ?extra" for x
    using that by (simp add: ex_component_def tier_transport_def)
  from preset_service_lives_in_order [OF p this start rtranclp.rtrancl_refl refl stop]
  have "take 1 (trace w3) = [StartCall ''actuator'']"
    "drop 16 (trace w3) = [StopCall ''kafka:orders'', StopCall ''web'', StopCall ''db'', StopCall ''actuator'']"
    by (simp_all add: ex_component_def ex_world_def)
  with p start stop show ?thesis by blast
qed

end
